(* ===== verification/Prelude.thy ===== *)
theory Prelude
  imports Main "HOL-Library.Multiset"
begin

text \<open>
  Shared vocabulary of the development: the Python exceptions the node can raise, the
  result type of fallible code, the Python primitives the source relies on (list
  indexing with negative indices, \<open>int.bit_length\<close>, \<open>list.sort(key=...)\<close>), and
  the generic lemmas on them that the component theories use.
\<close>

unbundle bit_operations_syntax

named_theorems pyops \<open>unfolding rules of the modelled Python primitives\<close>

section \<open>Exceptions and results\<close>

text \<open>
  The exceptions the node's code can raise. \<open>ValueError\<close>: \<open>int(s, 16)\<close> on a
  string that is not hexadecimal. \<open>IndexError\<close>: \<open>DHT[i]\<close> with \<open>i\<close> out of
  range, or \<open>closest_nodes[0]\<close> on an empty list. \<open>TypeError\<close>: a message
  field of the wrong JSON type reaching \<open>int(x, 16)\<close> or \<open>socket.connect\<close>.
  \<open>OSError\<close>: \<open>socket.connect\<close> to a peer that refuses or cannot be reached.
\<close>

datatype error = ValueError | IndexError | TypeError | OSError

type_synonym 'a result = "error + 'a"

text \<open>Sequencing of fallible code: the first exception propagates.\<close>

definition res_bind :: "'a result \<Rightarrow> ('a \<Rightarrow> 'b result) \<Rightarrow> 'b result" where
  "res_bind m f = (case m of Inl e \<Rightarrow> Inl e | Inr x \<Rightarrow> f x)"

definition res_map :: "('a \<Rightarrow> 'b) \<Rightarrow> 'a result \<Rightarrow> 'b result" where
  "res_map f m = (case m of Inl e \<Rightarrow> Inl e | Inr x \<Rightarrow> Inr (f x))"

section \<open>Python integers: \<open>int.bit_length\<close>\<close>

text \<open>
  \<open>n.bit_length()\<close> for a non-negative Python integer: the number of binary digits,
  \<open>0\<close> for \<open>0\<close>.
\<close>

fun bit_length :: "nat \<Rightarrow> nat" where
  "bit_length n = (if n = 0 then 0 else Suc (bit_length (n div 2)))"

declare bit_length.simps [simp del]

section \<open>Python lists\<close>

text \<open>
  \<open>xs[i]\<close> for an integer \<open>i\<close>: a negative index counts from the end; outside
  \<open>-len(xs) \<le> i < len(xs)\<close> it raises IndexError (\<open>None\<close> here).
\<close>

definition py_index :: "nat \<Rightarrow> int \<Rightarrow> nat option" where
  "py_index len i =
     (let j = (if i < 0 then int len + i else i)
      in if 0 \<le> j \<and> j < int len then Some (nat j) else None)"

text \<open>\<open>xs[i].append(v)\<close> on a list of lists.\<close>

definition py_append_at :: "'a list list \<Rightarrow> int \<Rightarrow> 'a \<Rightarrow> 'a list list result" where
  "py_append_at xss i v =
     (case py_index (length xss) i of
        None \<Rightarrow> Inl IndexError
      | Some j \<Rightarrow> Inr (xss[j := xss ! j @ [v]]))"

text \<open>
  \<open>xs.sort(key=f)\<close> returning the sorted list: CPython evaluates the key of every
  element, in list order, before it compares anything, so a key that raises makes the
  whole sort raise (an empty list evaluates no key); otherwise the sort is stable, as
  \<open>sort_key\<close> is.
\<close>

fun keys_ok :: "('a \<Rightarrow> 'k result) \<Rightarrow> 'a list \<Rightarrow> unit result" where
  "keys_ok f [] = Inr ()"
| "keys_ok f (x # xs) = (case f x of Inl e \<Rightarrow> Inl e | Inr _ \<Rightarrow> keys_ok f xs)"

definition py_sort_by_key :: "('a \<Rightarrow> nat result) \<Rightarrow> 'a list \<Rightarrow> 'a list result" where
  "py_sort_by_key f xs = res_map (\<lambda>_. sort_key (\<lambda>x. projr (f x)) xs) (keys_ok f xs)"

text \<open>\<open>sep.join(xs)\<close> on strings (and on lists in general).\<close>

fun py_join :: "'a list \<Rightarrow> 'a list list \<Rightarrow> 'a list" where
  "py_join sep [] = []"
| "py_join sep [x] = x"
| "py_join sep (x # y # ys) = x @ sep @ py_join sep (y # ys)"

text \<open>\<open>[f(x) for x in xs]\<close> with an \<open>f\<close> that may raise: the first exception propagates.\<close>

fun res_mapM :: "('a \<Rightarrow> 'b result) \<Rightarrow> 'a list \<Rightarrow> 'b list result" where
  "res_mapM f [] = Inr []"
| "res_mapM f (x # xs) = res_bind (f x) (\<lambda>y. res_map (\<lambda>ys. y # ys) (res_mapM f xs))"

declare res_bind_def [pyops] res_map_def [pyops] py_index_def [pyops]
  py_append_at_def [pyops] py_sort_by_key_def [pyops]

section \<open>Lemmas on the primitives\<close>

lemma res_bind_simps [simp]:
  "res_bind (Inl e) f = Inl e" "res_bind (Inr x) f = f x"
  by (simp_all add: res_bind_def)

lemma res_map_simps [simp]:
  "res_map f (Inl e) = Inl e" "res_map f (Inr x) = Inr (f x)"
  by (simp_all add: res_map_def)

lemma res_bind_eq_Inr [simp]:
  "res_bind m f = Inr y \<longleftrightarrow> (\<exists>x. m = Inr x \<and> f x = Inr y)"
  by (cases m) auto

lemma res_map_eq_Inr [simp]:
  "res_map f m = Inr y \<longleftrightarrow> (\<exists>x. m = Inr x \<and> y = f x)"
  by (cases m) auto

subsection \<open>\<open>bit_length\<close>\<close>

lemma bit_length_0 [simp]: "bit_length 0 = 0"
  by (simp add: bit_length.simps)

lemma bit_length_Suc_0 [simp]: "bit_length (Suc 0) = 1"
  by (simp add: bit_length.simps)

lemma bit_length_numeral [simp]: "bit_length (numeral n) = Suc (bit_length (numeral n div 2))"
  by (simp add: bit_length.simps)

lemma bit_length_pos: "0 < n \<Longrightarrow> bit_length n = Suc (bit_length (n div 2))"
  by (simp add: bit_length.simps)

text \<open>The characteristic property: \<open>n\<close> has at most \<open>k\<close> binary digits iff \<open>n < 2^k\<close>.\<close>

lemma bit_length_le_iff: "bit_length n \<le> k \<longleftrightarrow> n < 2 ^ k"
proof (induction n arbitrary: k rule: bit_length.induct)
  case (1 n)
  show ?case
  proof (cases "n = 0")
    case True
    then show ?thesis by simp
  next
    case False
    show ?thesis
    proof (cases k)
      case 0
      with False show ?thesis by (simp add: bit_length_pos)
    next
      case (Suc k')
      have "bit_length (n div 2) \<le> k' \<longleftrightarrow> n div 2 < 2 ^ k'"
        using "1.IH" False by simp
      also have "\<dots> \<longleftrightarrow> n < 2 ^ Suc k'"
        by auto
      finally show ?thesis
        using False Suc by (simp add: bit_length_pos)
    qed
  qed
qed

lemma bit_length_less_iff: "k < bit_length n \<longleftrightarrow> 2 ^ k \<le> n"
  using bit_length_le_iff [of n k] by linarith

lemma bit_length_eq_Suc_iff: "bit_length n = Suc i \<longleftrightarrow> 2 ^ i \<le> n \<and> n < 2 ^ Suc i"
  using bit_length_le_iff [of n "Suc i"] bit_length_less_iff [of i n] by linarith

lemma bit_length_eq_0_iff [simp]: "bit_length n = 0 \<longleftrightarrow> n = 0"
  using bit_length_le_iff [of n 0] by simp

lemma bit_length_pos_iff [simp]: "0 < bit_length n \<longleftrightarrow> 0 < n"
  using bit_length_eq_0_iff [of n] by linarith

lemma bit_length_mono: "m \<le> n \<Longrightarrow> bit_length m \<le> bit_length n"
  using bit_length_le_iff less_le_trans order_le_less_trans
  by (metis bit_length_le_iff le_refl)

lemma bit_length_less_self: "int (bit_length n) - 1 < int n \<or> n = 0"
proof (cases n)
  case 0
  then show ?thesis by simp
next
  case (Suc m)
  have "n < 2 ^ n" by simp
  then have "bit_length n \<le> n" by (simp add: bit_length_le_iff)
  then show ?thesis by linarith
qed

subsection \<open>XOR on Python integers\<close>

lemma xor_cancel_left [simp]: "(a::nat) XOR (a XOR d) = d"
  by (simp flip: xor.assoc)

lemma xor_eq_0_iff [simp]: "(a::nat) XOR b = 0 \<longleftrightarrow> a = b"
proof
  assume "a XOR b = 0"
  then have "a XOR (a XOR b) = a XOR 0" by simp
  then show "a = b" by simp
qed simp

lemma xor_pos_iff [simp]: "0 < (a::nat) XOR b \<longleftrightarrow> a \<noteq> b"
  using xor_eq_0_iff [of a b] by linarith

lemma xor_less_pow2: "(a::nat) < 2 ^ k \<Longrightarrow> b < 2 ^ k \<Longrightarrow> a XOR b < 2 ^ k"
  by (metis take_bit_nat_eq_self_iff take_bit_xor)

lemma xor_ge_pow2: "(m::nat) < 2 ^ k \<Longrightarrow> 2 ^ k \<le> x \<Longrightarrow> 2 ^ k \<le> m XOR x"
proof -
  assume m: "m < 2 ^ k" and x: "2 ^ k \<le> x"
  have "drop_bit k m = 0" using m
    by (simp flip: take_bit_eq_self_iff_drop_bit_eq_0 add: take_bit_nat_eq_self_iff)
  moreover have "drop_bit k x \<noteq> 0" using x
    by (simp flip: take_bit_eq_self_iff_drop_bit_eq_0 add: take_bit_nat_eq_self_iff not_less)
  moreover have "drop_bit k (m XOR x) = drop_bit k m XOR drop_bit k x"
    by (rule drop_bit_xor)
  ultimately have "drop_bit k (m XOR x) \<noteq> 0"
    by simp
  then have "\<not> m XOR x < 2 ^ k"
    by (metis take_bit_eq_self_iff_drop_bit_eq_0 take_bit_nat_eq_self_iff)
  then show ?thesis
    by simp
qed

subsection \<open>Lists\<close>

lemma list_all_enumerate:
  "list_all (\<lambda>(i, x). P i x) (enumerate 0 xs) \<longleftrightarrow> (\<forall>i < length xs. P i (xs ! i))"
  by (simp add: enumerate_eq_zip list_all_length)

lemma in_set_concat_nth:
  "x \<in> set (concat xss) \<longleftrightarrow> (\<exists>i < length xss. x \<in> set (xss ! i))"
  by (metis UN_iff in_set_conv_nth set_concat)

text \<open>\<open>if x in xs: xs.remove(x)\<close> leaves \<open>x\<close> in the list iff it was there twice.\<close>

lemma in_set_remove1_count: "x \<in> set (remove1 x xs) \<longleftrightarrow> 2 \<le> count_list xs x"
proof (induction xs)
  case Nil
  then show ?case by simp
next
  case (Cons y xs)
  have "x \<in> set xs \<longleftrightarrow> 1 \<le> count_list xs x"
    using count_list_0_iff [of xs x] by linarith
  with Cons show ?case by auto
qed

text \<open>\<open>find\<close> on a list: congruence, no match, and the first least element.\<close>

lemma find_cong_set: "(\<And>x. x \<in> set xs \<Longrightarrow> P x = Q x) \<Longrightarrow> find P xs = find Q xs"
  by (induction xs) auto

lemma find_none: "(\<And>x. x \<in> set xs \<Longrightarrow> \<not> P x) \<Longrightarrow> find P xs = None"
  by (induction xs) auto

lemma find_least_exists:
  assumes "c0 \<in> set xs" and "(f c0 :: int) < b"
  shows "find (\<lambda>c. f c < b \<and> list_all (\<lambda>c'. f c \<le> f c') xs) xs \<noteq> None"
proof -
  let ?m = "arg_min_list f xs"
  have ne: "xs \<noteq> []" using assms(1) by auto
  have m: "?m \<in> set xs" by (rule arg_min_list_in [OF ne])
  have le: "\<forall>x\<in>set xs. f ?m \<le> f x" by (simp add: f_arg_min_list_f [OF ne])
  with assms have "f ?m < b" by force
  with m le show ?thesis by (auto simp add: find_None_iff list_all_iff)
qed

subsection \<open>Python indexing\<close>

lemma py_index_nonneg [simp]: "0 \<le> i \<Longrightarrow> py_index len i = (if i < int len then Some (nat i) else None)"
  by (simp add: py_index_def)

lemma py_index_minus_one [simp]: "py_index len (-1) = (if 0 < len then Some (len - 1) else None)"
  by (auto simp add: py_index_def of_nat_diff)

lemma py_index_Some_less: "py_index len i = Some j \<Longrightarrow> j < len"
  by (auto simp add: py_index_def Let_def split: if_splits)

lemma py_append_at_length:
  "py_append_at xss i v = Inr yss \<Longrightarrow> length yss = length xss"
  by (auto simp add: py_append_at_def split: option.splits)

lemma py_append_at_nth:
  "py_append_at xss i v = Inr yss \<Longrightarrow> py_index (length xss) i = Some j \<Longrightarrow>
   yss ! k = (if k = j then xss ! k @ [v] else xss ! k)"
  by (auto simp add: py_append_at_def dest: py_index_Some_less split: option.splits)

subsection \<open>Sorting by a fallible key\<close>

lemma keys_ok_Inr_iff: "keys_ok f xs = Inr u \<longleftrightarrow> (\<forall>x\<in>set xs. \<exists>k. f x = Inr k)"
  by (induction xs) (auto split: sum.splits)

lemma keys_ok_Inl: "keys_ok f xs = Inl e \<Longrightarrow> \<exists>x\<in>set xs. f x = Inl e"
  by (induction xs) (auto split: sum.splits)

lemma py_sort_by_key_Inr:
  "py_sort_by_key f xs = Inr ys \<longleftrightarrow>
   (\<forall>x\<in>set xs. \<exists>k. f x = Inr k) \<and> ys = sort_key (\<lambda>x. projr (f x)) xs"
  by (auto simp add: py_sort_by_key_def keys_ok_Inr_iff)

lemma py_sort_by_key_Inl:
  "py_sort_by_key f xs = Inl e \<longleftrightarrow> keys_ok f xs = Inl e"
  by (cases "keys_ok f xs") (auto simp add: py_sort_by_key_def)

lemma py_sort_by_key_total:
  "(\<forall>x\<in>set xs. \<exists>k. f x = Inr k) \<Longrightarrow> \<exists>ys. py_sort_by_key f xs = Inr ys"
  by (simp add: py_sort_by_key_Inr)

text \<open>What a successful sort returns: a permutation, sorted by the key.\<close>

lemma sort_key_keys_sorted:
  assumes "\<forall>x\<in>set xs. \<exists>k. f x = Inr k"
  shows "sorted (map (\<lambda>x. projr (f x)) (sort_key (\<lambda>x. projr (f x)) xs))"
  by (rule sorted_sort_key)

lemma mset_eq_replicate: "mset xs = replicate_mset n x \<Longrightarrow> xs = replicate n x"
proof -
  assume m: "mset xs = replicate_mset n x"
  then have "size (mset xs) = n" by simp
  then have len: "length xs = n" by simp
  have all: "\<forall>y\<in>set xs. y = x"
  proof
    fix y assume "y \<in> set xs"
    then have "y \<in># replicate_mset n x" by (simp flip: m)
    then show "y = x" by (simp split: if_splits)
  qed
  from replicate_length_same [OF all] len show ?thesis by simp
qed

lemma res_mapM_Inr: "\<forall>x\<in>set xs. f x = Inr (g x) \<Longrightarrow> res_mapM f xs = Inr (map g xs)"
  by (induction xs) simp_all

lemma sort_key_replicate [simp]: "sort_key f (replicate n x) = replicate n x"
proof (induction n)
  case (Suc n)
  have "insort_key f x (replicate n x) = x # replicate n x" by (cases n) simp_all
  with Suc show ?case by simp
qed simp

lemma sorted_take_drop_le:
  assumes "sorted (map g ys)"
  shows "\<forall>x\<in>set (take n ys). \<forall>y\<in>set (drop n ys). g x \<le> g y"
proof -
  have "sorted (map g (take n ys) @ map g (drop n ys))"
    using assms by (simp flip: map_append)
  then show ?thesis
    by (auto simp add: sorted_append)
qed

end
