(* ===== verification/Hex.thy ===== *)
theory Hex
  imports Prelude
begin

text \<open>
  CIDs travel and are stored as hexadecimal strings: \<open>hashlib.sha1(...).hexdigest()\<close>
  produces one, \<open>int(s, base=16)\<close> reads one (\<open>getBucketIndex\<close>,
  \<open>getClosestCIDs\<close>, \<open>deepNodeSearch\<close>, \<open>generateTargetCID\<close>), and
  \<open>format(n, '040x')\<close> writes one (\<open>generateTargetCID\<close>). This theory models the
  two conversions and proves that they are inverse.
\<close>

section \<open>Reading: \<open>int(s, 16)\<close>\<close>

text \<open>
  A hexadecimal digit, either case. Python's \<open>int(s, 16)\<close> also accepts a sign, a
  \<open>0x\<close> prefix, underscores between digits and surrounding white space; the model
  reads plain digit strings and treats the other forms as not hexadecimal.
\<close>

definition hex_digit :: "char \<Rightarrow> nat option" where
  "hex_digit c =
     (let n = of_char c :: nat
      in if 48 \<le> n \<and> n \<le> 57 then Some (n - 48)
         else if 97 \<le> n \<and> n \<le> 102 then Some (n - 87)
         else if 65 \<le> n \<and> n \<le> 70 then Some (n - 55)
         else None)"

fun hex_acc :: "nat \<Rightarrow> string \<Rightarrow> nat result" where
  "hex_acc acc [] = Inr acc"
| "hex_acc acc (c # cs) =
     (case hex_digit c of None \<Rightarrow> Inl ValueError | Some d \<Rightarrow> hex_acc (16 * acc + d) cs)"

text \<open>\<open>int(s, 16)\<close>: the empty string raises ValueError as well.\<close>

definition hex_val :: "string \<Rightarrow> nat result" where
  "hex_val s = (if s = [] then Inl ValueError else hex_acc 0 s)"

section \<open>Writing: \<open>format(n, '040x')\<close>\<close>

definition hex_char :: "nat \<Rightarrow> char" where
  "hex_char d = (if d < 10 then char_of (48 + d) else char_of (87 + d))"

text \<open>\<open>format(n, 'x')\<close>: lower-case digits, no leading zeros, \<open>'0'\<close> for zero.\<close>

fun hex_str :: "nat \<Rightarrow> string" where
  "hex_str n = (if n < 16 then [hex_char n] else hex_str (n div 16) @ [hex_char (n mod 16)])"

declare hex_str.simps [simp del]

text \<open>\<open>format(n, '040x')\<close>: padded with zeros to at least 40 digits, never cut.\<close>

definition format_040x :: "nat \<Rightarrow> string" where
  "format_040x n = replicate (40 - length (hex_str n)) (CHR ''0'') @ hex_str n"

text \<open>A CID as \<open>hexdigest()\<close> produces it: 40 lower-case hexadecimal digits.\<close>

definition lower_hex :: "char \<Rightarrow> bool" where
  "lower_hex c \<longleftrightarrow> c \<in> set ''0123456789abcdef''"

definition valid_cid :: "string \<Rightarrow> bool" where
  "valid_cid s \<longleftrightarrow> length s = 40 \<and> list_all lower_hex s"

section \<open>Lemmas\<close>

lemma hex_digit_hex_char [simp]: "d < 16 \<Longrightarrow> hex_digit (hex_char d) = Some d"
  by (auto simp add: hex_digit_def hex_char_def Let_def)

lemma hex_digit_zero [simp]: "hex_digit (CHR ''0'') = Some 0"
  by (simp add: hex_digit_def)

lemma hex_acc_append:
  "hex_acc acc (xs @ ys) = res_bind (hex_acc acc xs) (\<lambda>a. hex_acc a ys)"
  by (induction acc xs rule: hex_acc.induct) (auto split: option.splits)

lemma hex_acc_Inl: "hex_acc acc s = Inl e \<Longrightarrow> e = ValueError"
  by (induction acc s rule: hex_acc.induct) (auto split: option.splits)

lemma hex_val_Inl: "hex_val s = Inl e \<Longrightarrow> e = ValueError"
  by (auto simp add: hex_val_def dest: hex_acc_Inl split: if_splits)

lemma hex_acc_zeros [simp]: "hex_acc 0 (replicate k (CHR ''0'') @ ys) = hex_acc 0 ys"
  by (induction k) simp_all

lemma hex_str_nonempty [simp]: "hex_str n \<noteq> []"
  by (subst hex_str.simps) simp

lemma hex_acc_hex_str: "hex_acc acc (hex_str n) = Inr (acc * 16 ^ length (hex_str n) + n)"
proof (induction n arbitrary: acc rule: hex_str.induct)
  case (1 n)
  show ?case
  proof (cases "n < 16")
    case True
    then have "hex_str n = [hex_char n]"
      by (subst hex_str.simps) simp
    with True show ?thesis by simp
  next
    case False
    then have "hex_str n = hex_str (n div 16) @ [hex_char (n mod 16)]"
      by (subst hex_str.simps) simp
    moreover have "hex_acc acc (hex_str (n div 16)) = Inr (acc * 16 ^ length (hex_str (n div 16)) + n div 16)"
      using "1.IH" False by simp
    ultimately show ?thesis
      by (simp add: hex_acc_append algebra_simps)
  qed
qed

text \<open>Round trip, writing then reading: \<open>int(format(n, '040x'), 16) == n\<close>.\<close>

lemma hex_val_format_040x [simp]: "hex_val (format_040x n) = Inr n"
  by (simp add: hex_val_def format_040x_def hex_acc_hex_str)

lemma length_hex_str_le: "0 < k \<Longrightarrow> length (hex_str n) \<le> k \<longleftrightarrow> n < 16 ^ k"
proof (induction n arbitrary: k rule: hex_str.induct)
  case (1 n)
  show ?case
  proof (cases "n < 16")
    case True
    then have "hex_str n = [hex_char n]"
      by (subst hex_str.simps) simp
    with True "1.prems" show ?thesis
      using less_le_trans [of n 16 "16 ^ k"] by (cases k) auto
  next
    case False
    then have eq: "hex_str n = hex_str (n div 16) @ [hex_char (n mod 16)]"
      by (subst hex_str.simps) simp
    show ?thesis
    proof (cases k)
      case 0
      with "1.prems" show ?thesis by simp
    next
      case (Suc k')
      show ?thesis
      proof (cases k')
        case 0
        with Suc False show ?thesis by (simp add: eq)
      next
        case (Suc k'')
        have "length (hex_str (n div 16)) \<le> k' \<longleftrightarrow> n div 16 < 16 ^ k'"
          using "1.IH" False Suc by simp
        also have "\<dots> \<longleftrightarrow> n < 16 ^ Suc k'"
          by auto
        finally show ?thesis
          using \<open>k = Suc k'\<close> eq by simp
      qed
    qed
  qed
qed

lemma length_format_040x: "n < 2 ^ 160 \<Longrightarrow> length (format_040x n) = 40"
proof -
  assume "n < 2 ^ 160"
  then have "n < 16 ^ 40" by simp
  then have "length (hex_str n) \<le> 40"
    by (simp add: length_hex_str_le)
  then show ?thesis
    by (simp add: format_040x_def)
qed

lemma lower_hex_hex_char: "d < 16 \<Longrightarrow> lower_hex (hex_char d)"
proof -
  assume "d < 16"
  then have "d \<in> set [0..<16]" by simp
  moreover have "list_all (\<lambda>d. lower_hex (hex_char d)) [0..<16]"
    by code_simp
  ultimately show ?thesis
    by (simp add: list_all_iff)
qed

lemma lower_hex_hex_str: "list_all lower_hex (hex_str n)"
proof (induction n rule: hex_str.induct)
  case (1 n)
  then show ?case
    by (subst hex_str.simps) (simp add: lower_hex_hex_char)
qed

lemma format_040x_valid: "n < 2 ^ 160 \<Longrightarrow> valid_cid (format_040x n)"
proof -
  have "lower_hex (CHR ''0'')" by (simp add: lower_hex_def)
  then have "list_all lower_hex (format_040x n)"
    unfolding format_040x_def list_all_append
    using lower_hex_hex_str [of n] by (simp add: list_all_iff)
  moreover assume "n < 2 ^ 160"
  ultimately show ?thesis
    by (simp add: valid_cid_def length_format_040x)
qed

end
