(* ===== verification/Metric.thy ===== *)
theory Metric
  imports Hex
begin

text \<open>
  The XOR metric on CIDs (\<open>src/Python/DistributedStorageV1.py\<close>): contacts as the
  one-entry dictionaries \<open>{cid: ip}\<close> the node stores, the bucket index
  \<open>getBucketIndex\<close>, the sort key \<open>int(cid, 16) ^ int(target, 16)\<close> that
  \<open>getClosestCIDs\<close> and \<open>deepNodeSearch\<close> use, and \<open>generateTargetCID\<close>.
\<close>

section \<open>Contacts\<close>

text \<open>
  A contact is the dictionary \<open>{cid: ip}\<close> with one entry:
  \<open>next(iter(dict(node)))\<close> is its CID, \<open>node[cid]\<close> its address. Two contacts are
  equal when both CID and address are equal, as Python's dictionary equality (used by
  \<open>node not in asked_nodes\<close>) says.
\<close>

type_synonym contact = "string \<times> string"

abbreviation cid_of :: "contact \<Rightarrow> string" where
  "cid_of c \<equiv> fst c"

abbreviation ip_of :: "contact \<Rightarrow> string" where
  "ip_of c \<equiv> snd c"

section \<open>The metric\<close>

text \<open>\<open>getBucketIndex(otherCid)\<close>, with \<open>self.CID\<close> as first argument.\<close>

definition getBucketIndex :: "string \<Rightarrow> string \<Rightarrow> int result" where
  "getBucketIndex myCID otherCid =
     res_bind (hex_val myCID) (\<lambda>hash_0.
     res_bind (hex_val otherCid) (\<lambda>hash_1.
       Inr (int (bit_length (hash_0 XOR hash_1)) - 1)))"

text \<open>
  The sort key \<open>int(next(iter(dict(node))), base=16) ^ int(cid, base=16)\<close>: the
  contact's CID is read first, then the target's.
\<close>

definition xor_key :: "string \<Rightarrow> contact \<Rightarrow> nat result" where
  "xor_key target node =
     res_bind (hex_val (cid_of node)) (\<lambda>a. res_bind (hex_val target) (\<lambda>b. Inr (a XOR b)))"

text \<open>
  \<open>generateTargetCID(bucketDistance)\<close>. The value drawn by
  \<open>random.randint(lowerBound, upperBound)\<close> is the parameter \<open>distance\<close>;
  \<open>randint_range\<close> says which values the draw can take.
\<close>

definition randint_range :: "nat \<Rightarrow> nat \<Rightarrow> bool" where
  "randint_range bucketDistance distance \<longleftrightarrow>
     2 ^ bucketDistance \<le> distance \<and> distance \<le> 2 ^ (bucketDistance + 1) - 1"

definition generateTargetCID :: "string \<Rightarrow> nat \<Rightarrow> nat \<Rightarrow> string result" where
  "generateTargetCID myCID bucketDistance distance =
     res_bind (hex_val myCID) (\<lambda>myCidInt. Inr (format_040x (myCidInt XOR distance)))"

section \<open>Lemmas\<close>

lemma getBucketIndex_Inr_iff:
  "getBucketIndex a b = Inr i \<longleftrightarrow>
   (\<exists>x y. hex_val a = Inr x \<and> hex_val b = Inr y \<and> i = int (bit_length (x XOR y)) - 1)"
  by (auto simp add: getBucketIndex_def)

lemma getBucketIndex_Inl_iff:
  "getBucketIndex a b = Inl e \<longleftrightarrow>
   e = ValueError \<and> \<not> (\<exists>x y. hex_val a = Inr x \<and> hex_val b = Inr y)"
  by (cases "hex_val a"; cases "hex_val b") (auto simp add: getBucketIndex_def dest: hex_val_Inl)

lemma getBucketIndex_ge: "getBucketIndex a b = Inr i \<Longrightarrow> -1 \<le> i"
  by (auto simp add: getBucketIndex_Inr_iff)

lemma getBucketIndex_eq_int:
  "getBucketIndex a b = Inr (int k) \<longleftrightarrow>
   (\<exists>x y. hex_val a = Inr x \<and> hex_val b = Inr y \<and> 2 ^ k \<le> x XOR y \<and> x XOR y < 2 ^ Suc k)"
proof -
  have "int k = int (bit_length n) - 1 \<longleftrightarrow> bit_length n = Suc k" for n
    by linarith
  then show ?thesis
    by (simp add: getBucketIndex_Inr_iff bit_length_eq_Suc_iff)
qed

lemma getBucketIndex_minus_one:
  "getBucketIndex a b = Inr (-1) \<longleftrightarrow> (\<exists>x. hex_val a = Inr x \<and> hex_val b = Inr x)"
proof -
  have "-1 = int (bit_length n) - 1 \<longleftrightarrow> n = 0" for n
    by simp
  then show ?thesis
    by (auto simp add: getBucketIndex_Inr_iff)
qed

lemma getBucketIndex_less:
  "getBucketIndex a b = Inr i \<Longrightarrow> hex_val a = Inr x \<Longrightarrow> hex_val b = Inr y \<Longrightarrow>
   x < 2 ^ k \<Longrightarrow> y < 2 ^ k \<Longrightarrow> i < int k"
proof -
  assume i: "getBucketIndex a b = Inr i" and a: "hex_val a = Inr x" and b: "hex_val b = Inr y"
    and "x < 2 ^ k" "y < 2 ^ k"
  then have "bit_length (x XOR y) \<le> k"
    by (simp add: bit_length_le_iff xor_less_pow2)
  with i a b show "i < int k"
    by (auto simp add: getBucketIndex_Inr_iff)
qed

lemma xor_key_Inr_iff:
  "xor_key t c = Inr d \<longleftrightarrow> (\<exists>x y. hex_val (cid_of c) = Inr x \<and> hex_val t = Inr y \<and> d = x XOR y)"
  by (auto simp add: xor_key_def)

lemma xor_key_commute_bucket:
  "xor_key t c = Inr d \<Longrightarrow> getBucketIndex t (cid_of c) = Inr (int (bit_length d) - 1)"
  by (auto simp add: xor_key_Inr_iff getBucketIndex_def xor.commute)

lemma sorted_keys_Inr:
  "sorted (map (\<lambda>c. projr (xor_key t c)) xs) \<Longrightarrow> \<forall>c\<in>set xs. \<exists>k. xor_key t c = Inr k \<Longrightarrow>
   \<exists>ds. map (xor_key t) xs = map Inr ds \<and> sorted ds"
  by (rule exI [of _ "map (\<lambda>c. projr (xor_key t c)) xs"]) auto

lemma getBucketIndex_distinct:
  assumes a: "hex_val a = Inr x" and b: "hex_val b = Inr y" and ne: "x \<noteq> y"
    and "x < 2 ^ 160" and "y < 2 ^ 160"
  shows "\<exists>i < 160. getBucketIndex a b = Inr (int i)"
proof -
  have "x XOR y < 2 ^ 160" using assms(4,5) by (rule xor_less_pow2)
  then have le: "bit_length (x XOR y) \<le> 160" by (simp only: bit_length_le_iff)
  from ne obtain i where i: "bit_length (x XOR y) = Suc i"
    using bit_length_eq_0_iff xor_eq_0_iff not0_implies_Suc by metis
  have "getBucketIndex a b = Inr (int i)"
    using a b i by (simp add: getBucketIndex_def)
  moreover have "i < 160" using le i by simp
  ultimately show ?thesis by blast
qed

text \<open>
  Every value the draw of \<open>generateTargetCID(i)\<close> can take gives a target in
  bucket \<open>i\<close>, a well-formed CID for a 160-bit node CID and \<open>i < 160\<close>.
\<close>

lemma target_in_bucket:
  assumes my: "hex_val myCID = Inr m" and draw: "randint_range i d"
  shows "getBucketIndex myCID (format_040x (m XOR d)) = Inr (int i) \<and>
         (m < 2 ^ 160 \<and> i < 160 \<longrightarrow> valid_cid (format_040x (m XOR d)))"
proof -
  let ?target = "format_040x (m XOR d)"
  have pos: "0 < (2::nat) ^ Suc i" by simp
  from draw have "2 ^ i \<le> d" and "d \<le> 2 ^ Suc i - 1"
    by (simp_all add: randint_range_def)
  with pos have "d < 2 ^ Suc i" by linarith
  with \<open>2 ^ i \<le> d\<close> have "bit_length d = Suc i"
    by (simp add: bit_length_eq_Suc_iff)
  then have bucket: "getBucketIndex myCID ?target = Inr (int i)"
    using my by (simp add: getBucketIndex_def)
  have "valid_cid ?target" if "m < 2 ^ 160" and "i < 160"
  proof -
    have "(2::nat) ^ Suc i \<le> 2 ^ 160"
      using \<open>i < 160\<close> by (simp only: power_increasing_iff)
    with \<open>d < 2 ^ Suc i\<close> have "d < 2 ^ 160" by linarith
    with \<open>m < 2 ^ 160\<close> have "m XOR d < 2 ^ 160" by (rule xor_less_pow2)
    then show ?thesis by (rule format_040x_valid)
  qed
  with bucket show ?thesis by blast
qed

section \<open>Properties\<close>

text \<open>
  C5. \<open>generateTargetCID(i)\<close> returns, for every value the random draw can take, a CID
  whose bucket index is \<open>i\<close>; for a 160-bit node CID and \<open>i < 160\<close> it is a
  well-formed 40-digit CID.
\<close>

theorem generateTargetCID_in_bucket:
  assumes my: "hex_val myCID = Inr m" and draw: "randint_range i d"
  shows "\<exists>target. generateTargetCID myCID i d = Inr target \<and>
           getBucketIndex myCID target = Inr (int i) \<and>
           (m < 2 ^ 160 \<and> i < 160 \<longrightarrow> valid_cid target)"
proof -
  have "generateTargetCID myCID i d = Inr (format_040x (m XOR d))"
    using my by (simp add: generateTargetCID_def)
  with target_in_bucket [OF my draw] show ?thesis by blast
qed

text \<open>
  C14. For two 160-bit CIDs the bucket index lies in \<open>[-1, 159]\<close>, and it is \<open>-1\<close>
  exactly when the two values are equal.
\<close>

theorem getBucketIndex_bounds:
  assumes "hex_val a = Inr x" and "hex_val b = Inr y" and "x < 2 ^ 160" and "y < 2 ^ 160"
  shows "\<exists>i. getBucketIndex a b = Inr i \<and> -1 \<le> i \<and> i < 160 \<and> (i = -1 \<longleftrightarrow> x = y)"
proof -
  let ?i = "int (bit_length (x XOR y)) - 1"
  have gbi: "getBucketIndex a b = Inr ?i"
    using assms(1,2) by (simp add: getBucketIndex_def)
  moreover have "?i < 160"
    using getBucketIndex_less [OF gbi assms] by simp
  moreover have "?i = -1 \<longleftrightarrow> x = y"
    by simp
  ultimately show ?thesis by force
qed

end
