(* ===== verification/Wire.thy ===== *)
theory Wire
  imports Metric
begin

text \<open>
  The wire format of \<open>src/Python/DistributedStorageV1.py\<close>: the four message kinds
  the node sends and dispatches on, their JSON text as \<open>sendData\<close> writes it
  (\<open>json.dumps(data, indent = 4)\<close>, with Python's default ASCII escaping), and the
  receive window of \<open>receiveData\<close> (\<open>clientSocket.recv(1024)\<close>). A tuple payload is
  written as a JSON array; a \<open>closestNodesResponse\<close> carries the list of one-entry
  \<open>{cid: ip}\<close> dictionaries that \<open>getClosestCIDs\<close> returns.
\<close>

section \<open>JSON values and \<open>json.dumps(indent=4)\<close>\<close>

datatype json = JStr string | JArr "json list" | JObj "(string \<times> json) list"

text \<open>
  One character of a string literal, as \<open>json.encoder.py_encode_basestring_ascii\<close>
  writes it: backslash and quote are escaped, \<open>\b \f \n \r \t\<close> get their short
  escapes, every other character outside \<open>' '..'~'\<close> becomes \<open>\u00xx\<close>.
\<close>

definition json_escape_char :: "char \<Rightarrow> string" where
  "json_escape_char c =
     (let n = (of_char c :: nat) in
      if n = 92 then [CHR 0x5C, CHR 0x5C]
      else if n = 34 then [CHR 0x5C, CHR 0x22]
      else if n = 8 then [CHR 0x5C, CHR ''b'']
      else if n = 12 then [CHR 0x5C, CHR ''f'']
      else if n = 10 then [CHR 0x5C, CHR ''n'']
      else if n = 13 then [CHR 0x5C, CHR ''r'']
      else if n = 9 then [CHR 0x5C, CHR ''t'']
      else if 32 \<le> n \<and> n \<le> 126 then [c]
      else [CHR 0x5C, CHR ''u'', CHR ''0'', CHR ''0'', hex_char (n div 16), hex_char (n mod 16)])"

definition json_str :: "string \<Rightarrow> string" where
  "json_str s = CHR 0x22 # concat (map json_escape_char s) @ [CHR 0x22]"

text \<open>A line break followed by the indentation of nesting level \<open>l\<close> (four spaces each).\<close>

definition newline_indent :: "nat \<Rightarrow> string" where
  "newline_indent l = CHR 0x0A # replicate (4 * l) CHR '' ''"

text \<open>
  \<open>json.encoder._make_iterencode\<close> with \<open>indent=4\<close>: an empty container is
  \<open>[]\<close> or \<open>{}\<close>; otherwise every element starts on a new line one level deeper,
  elements are separated by \<open>,\<close>, keys from values by \<open>': '\<close>, and the closing
  bracket is on a line of its own at the container's level.
\<close>

fun dumps :: "nat \<Rightarrow> json \<Rightarrow> string" where
  "dumps l (JStr s) = json_str s"
| "dumps l (JArr xs) =
     (if xs = [] then ''[]''
      else ''['' @ newline_indent (Suc l) @
           py_join ('','' @ newline_indent (Suc l)) (map (dumps (Suc l)) xs) @
           newline_indent l @ '']'')"
| "dumps l (JObj kvs) =
     (if kvs = [] then ''{}''
      else ''{'' @ newline_indent (Suc l) @
           py_join ('','' @ newline_indent (Suc l))
             (map (\<lambda>kv. json_str (fst kv) @ '': '' @ dumps (Suc l) (snd kv)) kvs) @
           newline_indent l @ ''}'')"

section \<open>Messages\<close>

text \<open>
  The payloads the node's code builds: a pair of strings (the tuples
  \<open>(self.publicIP, self.CID)\<close> and \<open>(self.publicIP, cid)\<close>) or a list of contacts
  (the result of \<open>getClosestCIDs\<close>). A message is the dictionary passed to
  \<open>sendData\<close>, an association list from keys to payloads.
\<close>

datatype payload = PPair string string | PContacts "contact list"

type_synonym message = "(string \<times> payload) list"

fun payload_json :: "payload \<Rightarrow> json" where
  "payload_json (PPair a b) = JArr [JStr a, JStr b]"
| "payload_json (PContacts cs) = JArr (map (\<lambda>c. JObj [(cid_of c, JStr (ip_of c))]) cs)"

definition message_json :: "message \<Rightarrow> json" where
  "message_json m = JObj (map (\<lambda>kv. (fst kv, payload_json (snd kv))) m)"

text \<open>\<open>json.dumps(data, indent = 4).encode("utf-8")\<close>: the text is ASCII, one byte per character.\<close>

definition wire_text :: "message \<Rightarrow> string" where
  "wire_text m = dumps 0 (message_json m)"

text \<open>
  What \<open>json.loads(clientSocket.recv(1024).decode("utf-8"))\<close> makes of one
  connection: a text that fits the 1024-byte window is read whole and decodes back to
  the message; a longer one is cut at 1024 bytes, a proper prefix of a JSON object, and
  \<open>json.loads\<close> raises \<open>JSONDecodeError\<close>, a ValueError.
\<close>

definition recv_window :: nat where "recv_window = 1024"

definition receive_frame :: "message \<Rightarrow> message result" where
  "receive_frame m = (if length (wire_text m) \<le> recv_window then Inr m else Inl ValueError)"

text \<open>The four message kinds, as the source spells their keys.\<close>

definition nodeInfoRequest :: string where "nodeInfoRequest = ''nodeInfoRequest''"
definition nodeInfoResponse :: string where "nodeInfoResponse = ''nodeInfoResponse''"
definition closestNodesRequest :: string where "closestNodesRequest = ''closestNodesRequest''"
definition closestNodesResponse :: string where "closestNodesResponse = ''closestNodesResponse''"

text \<open>
  Characters \<open>json.dumps\<close> writes as they are: printable ASCII other than quote and
  backslash. Hexadecimal CIDs and dotted-quad addresses consist of them.
\<close>

definition json_plain :: "char \<Rightarrow> bool" where
  "json_plain c \<longleftrightarrow> (let n = (of_char c :: nat) in 32 \<le> n \<and> n \<le> 126 \<and> n \<noteq> 34 \<and> n \<noteq> 92)"

section \<open>Lengths of the wire text\<close>

lemma json_escape_char_plain: "json_plain c \<Longrightarrow> json_escape_char c = [c]"
  by (simp add: json_plain_def json_escape_char_def Let_def)

lemma length_json_escape_char: "1 \<le> length (json_escape_char c)"
  by (simp add: json_escape_char_def Let_def)

lemma length_concat_map_ge: "(\<forall>x. 1 \<le> length (f x)) \<Longrightarrow> length xs \<le> length (concat (map f xs))"
proof (induction xs)
  case (Cons a xs)
  then have "1 \<le> length (f a)" and "length xs \<le> length (concat (map f xs))" by blast+
  then show ?case by simp
qed simp

lemma length_json_str_ge: "length s + 2 \<le> length (json_str s)"
  using length_concat_map_ge [of json_escape_char s] length_json_escape_char
  by (simp add: json_str_def)

lemma length_json_str_plain: "list_all json_plain s \<Longrightarrow> length (json_str s) = length s + 2"
  by (induction s) (simp_all add: json_str_def json_escape_char_plain)

lemma length_py_join:
  "length (py_join sep xs) = sum_list (map length xs) + length sep * (length xs - 1)"
  by (induction sep xs rule: py_join.induct) simp_all

lemma length_newline_indent [simp]: "length (newline_indent l) = Suc (4 * l)"
  by (simp add: newline_indent_def)

text \<open>The length of a \<open>closestNodesResponse\<close> frame, contact by contact.\<close>

lemma length_wire_response:
  assumes "cs \<noteq> []"
  shows "length (wire_text [(closestNodesResponse, PContacts cs)]) =
         38 + (\<Sum>c\<leftarrow>cs. length (json_str (cid_of c)) + length (json_str (ip_of c)) + 36)"
proof -
  let ?f = "\<lambda>c. length (json_str (cid_of c)) + length (json_str (ip_of c))"
  have item: "length (dumps (Suc (Suc 0)) (JObj [(cid_of c, JStr (ip_of c))])) = 26 + ?f c" for c
    by (simp add: length_py_join)
  have sum26: "(\<Sum>c\<leftarrow>cs. 26 + ?f c) = (\<Sum>c\<leftarrow>cs. ?f c) + 26 * length cs"
    by (induction cs) simp_all
  have sum36: "(\<Sum>c\<leftarrow>cs. ?f c + 36) = (\<Sum>c\<leftarrow>cs. ?f c) + 36 * length cs"
    by (induction cs) simp_all
  have key: "length (json_str closestNodesResponse) = 22"
    by (simp add: json_str_def closestNodesResponse_def json_escape_char_def)
  have sep: "10 + 10 * (length cs - Suc 0) = 10 * length cs"
    using assms by (cases cs) simp_all
  show ?thesis
    using assms by (simp add: wire_text_def message_json_def length_py_join comp_def item sum26 sum36 key sep)
qed

lemma sum_list_lower: "\<forall>c\<in>set cs. lo \<le> f c \<Longrightarrow> lo * length cs \<le> (\<Sum>c\<leftarrow>cs. f c)"
  by (induction cs) (auto simp add: add_mono)

lemma sum_list_upper: "\<forall>c\<in>set cs. f c \<le> hi \<Longrightarrow> (\<Sum>c\<leftarrow>cs. f c) \<le> hi * length cs"
  by (induction cs) (auto simp add: add_mono)

text \<open>A response of twelve contacts with 40-digit CIDs and dotted-quad addresses overflows the window.\<close>

lemma receive_frame_response_long:
  assumes n: "12 \<le> length cs" and shape: "\<forall>c\<in>set cs. 40 \<le> length (cid_of c) \<and> 7 \<le> length (ip_of c)"
  shows "receive_frame [(closestNodesResponse, PContacts cs)] = Inl ValueError"
proof -
  let ?f = "\<lambda>c. length (json_str (cid_of c)) + length (json_str (ip_of c)) + 36"
  have ne: "cs \<noteq> []" using n by auto
  have "\<forall>c\<in>set cs. 87 \<le> ?f c"
  proof
    fix c assume "c \<in> set cs"
    with shape have "40 \<le> length (cid_of c)" "7 \<le> length (ip_of c)" by auto
    with length_json_str_ge [of "cid_of c"] length_json_str_ge [of "ip_of c"]
    show "87 \<le> ?f c" by linarith
  qed
  then have "87 * length cs \<le> (\<Sum>c\<leftarrow>cs. ?f c)"
    by (rule sum_list_lower)
  with n have "recv_window < length (wire_text [(closestNodesResponse, PContacts cs)])"
    by (simp add: length_wire_response [OF ne] recv_window_def)
  then show ?thesis
    by (simp add: receive_frame_def)
qed

text \<open>A response of at most ten contacts written without escapes, with 40-digit CIDs and addresses of at most 15 characters, fits the window.\<close>

lemma receive_frame_response_short:
  assumes n: "length cs \<le> 10"
    and shape: "\<forall>c\<in>set cs. length (cid_of c) = 40 \<and> list_all json_plain (cid_of c) \<and>
              list_all json_plain (ip_of c) \<and> length (ip_of c) \<le> 15"
  shows "receive_frame [(closestNodesResponse, PContacts cs)] = Inr [(closestNodesResponse, PContacts cs)]"
proof -
  let ?f = "\<lambda>c. length (json_str (cid_of c)) + length (json_str (ip_of c)) + 36"
  have "length (wire_text [(closestNodesResponse, PContacts cs)]) \<le> 1024"
  proof (cases "cs = []")
    case True
    then show ?thesis
      by (simp add: wire_text_def message_json_def json_str_def closestNodesResponse_def
          json_escape_char_def)
  next
    case False
    have "\<forall>c\<in>set cs. ?f c \<le> 95"
      using shape by (simp add: length_json_str_plain)
    then have "(\<Sum>c\<leftarrow>cs. ?f c) \<le> 95 * length cs"
      by (rule sum_list_upper)
    with n show ?thesis
      by (simp add: length_wire_response [OF False])
  qed
  then show ?thesis
    by (simp add: receive_frame_def recv_window_def)
qed

text \<open>Frames with a pair payload: a key, an address and a CID.\<close>

lemma length_json_escape_char_le: "length (json_escape_char c) \<le> 6"
  by (simp add: json_escape_char_def Let_def)

lemma length_json_str_le: "length (json_str s) \<le> 6 * length s + 2"
proof (induction s)
  case (Cons c s)
  have "length (json_escape_char c) \<le> 6" by (rule length_json_escape_char_le)
  with Cons show ?case by (simp add: json_str_def)
qed (simp add: json_str_def)

lemma length_wire_pair:
  "length (wire_text [(k, PPair a b)]) = length (json_str k) + length (json_str a) + length (json_str b) + 36"
  by (simp add: wire_text_def message_json_def length_py_join)

lemma receive_frame_pair:
  assumes "length k \<le> 20" "length a \<le> 100" "length b \<le> 40"
  shows "receive_frame [(k, PPair a b)] = Inr [(k, PPair a b)]"
proof -
  have "length (json_str k) \<le> 122" "length (json_str a) \<le> 602" "length (json_str b) \<le> 242"
    using assms length_json_str_le [of k] length_json_str_le [of a] length_json_str_le [of b]
    by linarith+
  then show ?thesis
    by (simp add: receive_frame_def recv_window_def length_wire_pair)
qed

lemma length_message_keys [simp]:
  "length nodeInfoRequest = 15" "length nodeInfoResponse = 16"
  "length closestNodesRequest = 19" "length closestNodesResponse = 20"
  by (simp_all add: nodeInfoRequest_def nodeInfoResponse_def closestNodesRequest_def
      closestNodesResponse_def)

section \<open>Properties\<close>

text \<open>
  C19. The 1024-byte receive window cannot hold a routing answer: a
  \<open>closestNodesResponse\<close> with twelve or more contacts whose CIDs have 40 digits and
  whose addresses are dotted quads (at least 7 characters) is cut and fails to decode
  (ValueError), while one with at most ten such contacts, written without escapes and
  with addresses of at most 15 characters, arrives whole.
\<close>

theorem receive_frame_response_window:
  assumes cids: "\<forall>c\<in>set cs. length (cid_of c) = 40 \<and> 7 \<le> length (ip_of c)"
  shows "(12 \<le> length cs \<longrightarrow> receive_frame [(closestNodesResponse, PContacts cs)] = Inl ValueError) \<and>
         (length cs \<le> 10 \<and> (\<forall>c\<in>set cs. list_all json_plain (cid_of c) \<and>
              list_all json_plain (ip_of c) \<and> length (ip_of c) \<le> 15) \<longrightarrow>
            receive_frame [(closestNodesResponse, PContacts cs)] = Inr [(closestNodesResponse, PContacts cs)])"
proof (intro conjI impI)
  assume "12 \<le> length cs"
  moreover have "\<forall>c\<in>set cs. 40 \<le> length (cid_of c) \<and> 7 \<le> length (ip_of c)"
    using cids by simp
  ultimately show "receive_frame [(closestNodesResponse, PContacts cs)] = Inl ValueError"
    by (rule receive_frame_response_long)
next
  assume "length cs \<le> 10 \<and> (\<forall>c\<in>set cs. list_all json_plain (cid_of c) \<and>
              list_all json_plain (ip_of c) \<and> length (ip_of c) \<le> 15)"
  with cids show "receive_frame [(closestNodesResponse, PContacts cs)] = Inr [(closestNodesResponse, PContacts cs)]"
    by (intro receive_frame_response_short) auto
qed

end
