(* ===== verification/RoutingTable.thy ===== *)
theory RoutingTable
  imports Wire
begin

text \<open>
  The node's state and its routing table (\<open>class Node\<close> of
  \<open>src/Python/DistributedStorageV1.py\<close>): the record of the node's fields, the
  constructor's initial state, \<open>addNode\<close> and \<open>getClosestCIDs\<close>, with the bucket
  invariant, what each operation does on every branch, and what \<open>getClosestCIDs\<close>
  returns.
\<close>

section \<open>The node's state\<close>

text \<open>
  The attributes \<open>__init__\<close> sets. \<open>pendingResponse\<close> is \<open>None\<close> or the payload
  of the last \<open>closestNodesResponse\<close>; \<open>DHT\<close> is the list of 160 buckets.
\<close>

record node =
  publicIP :: string
  localIP :: string
  port :: nat
  pendingResponse :: "payload option"
  DHT :: "contact list list"
  CID :: string
  bootstrapIPs :: "string list"

text \<open>
  \<open>__init__\<close> without its I/O: the public address (from \<open>api.ipify.org\<close>), the
  local address, and the CID (\<open>sha1(os.urandom(20)).hexdigest()\<close>) are parameters.
  \<open>if self.publicIP in bootstrapNodes: bootstrapNodes.remove(self.publicIP)\<close>
  removes the first occurrence only, which is \<open>remove1\<close>.
\<close>

definition init_node :: "string \<Rightarrow> string \<Rightarrow> nat \<Rightarrow> string \<Rightarrow> string list \<Rightarrow> node" where
  "init_node pub loc p cid bootstrapNodes =
     \<lparr>publicIP = pub, localIP = loc, port = p, pendingResponse = None,
      DHT = replicate 160 [], CID = cid, bootstrapIPs = remove1 pub bootstrapNodes\<rparr>"

section \<open>Operations\<close>

text \<open>
  \<open>addNode(ip, cid)\<close>: \<open>self.DHT[self.getBucketIndex(cid)].append({cid: ip})\<close>.
  There is no duplicate check and no bound on the bucket; an index of \<open>-1\<close> (the
  node's own CID) selects the last bucket, as Python's negative indexing does.
\<close>

definition addNode :: "node \<Rightarrow> string \<Rightarrow> string \<Rightarrow> node result" where
  "addNode self ip cid =
     res_bind (getBucketIndex (CID self) cid) (\<lambda>dht_index.
       res_map (\<lambda>d. self\<lparr>DHT := d\<rparr>) (py_append_at (DHT self) dht_index (cid, ip)))"

text \<open>
  \<open>getClosestCIDs(cid, amount)\<close>: all contacts of all buckets, in bucket order,
  sorted by XOR distance to \<open>cid\<close>, and the first \<open>amount\<close> of them.
\<close>

definition getClosestCIDs :: "node \<Rightarrow> string \<Rightarrow> nat \<Rightarrow> contact list result" where
  "getClosestCIDs self cid amount =
     res_map (\<lambda>all_nodes. take amount all_nodes) (py_sort_by_key (xor_key cid) (concat (DHT self)))"

section \<open>The bucket invariant\<close>

text \<open>
  The routing table has 160 buckets, and every contact in bucket \<open>i\<close> has bucket index
  \<open>i\<close> with respect to the node's CID.
\<close>

definition dht_inv :: "string \<Rightarrow> contact list list \<Rightarrow> bool" where
  "dht_inv myCID dht \<longleftrightarrow>
     length dht = 160 \<and>
     list_all (\<lambda>(i, bucket). list_all (\<lambda>c. getBucketIndex myCID (cid_of c) = Inr (int i)) bucket)
       (enumerate 0 dht)"

section \<open>Lemmas\<close>

lemma dht_inv_nth:
  "dht_inv myCID dht \<longleftrightarrow>
   length dht = 160 \<and> (\<forall>i < length dht. \<forall>c \<in> set (dht ! i). getBucketIndex myCID (cid_of c) = Inr (int i))"
  unfolding dht_inv_def list_all_enumerate by (simp add: list_all_iff)

lemma dht_inv_init: "dht_inv cid (DHT (init_node pub loc p cid bs))"
  by (simp add: dht_inv_nth init_node_def)

lemma dht_inv_cids:
  "dht_inv myCID dht \<Longrightarrow> c \<in> set (concat dht) \<Longrightarrow>
   \<exists>i < 160. getBucketIndex myCID (cid_of c) = Inr (int i)"
  unfolding in_set_concat_nth dht_inv_nth by auto

lemma addNode_Inr_iff:
  "addNode self ip cid = Inr self' \<longleftrightarrow>
   (\<exists>i j. getBucketIndex (CID self) cid = Inr i \<and> py_index (length (DHT self)) i = Some j \<and>
          self' = self\<lparr>DHT := (DHT self)[j := DHT self ! j @ [(cid, ip)]]\<rparr>)"
  by (auto simp add: addNode_def py_append_at_def split: option.splits)

lemma addNode_Inl_iff:
  "addNode self ip cid = Inl e \<longleftrightarrow>
   getBucketIndex (CID self) cid = Inl e \<or>
   (\<exists>i. getBucketIndex (CID self) cid = Inr i \<and> py_index (length (DHT self)) i = None \<and> e = IndexError)"
  by (cases "getBucketIndex (CID self) cid")
    (auto simp add: addNode_def py_append_at_def split: option.splits)

lemma addNode_fields:
  "addNode self ip cid = Inr self' \<Longrightarrow>
   CID self' = CID self \<and> length (DHT self') = length (DHT self) \<and>
   pendingResponse self' = pendingResponse self \<and> publicIP self' = publicIP self \<and>
   bootstrapIPs self' = bootstrapIPs self"
  by (auto simp add: addNode_Inr_iff)

lemma mset_concat_update_append:
  "j < length xss \<Longrightarrow> mset (concat (xss[j := xss ! j @ [v]])) = mset (concat xss) + {#v#}"
proof (induction xss arbitrary: j)
  case Nil
  then show ?case by simp
next
  case (Cons xs xss)
  then show ?case by (cases j) auto
qed

lemma addNode_fresh:
  assumes "DHT self = replicate 160 []" and "getBucketIndex (CID self) cid = Inr (int i)" and "i < 160"
  shows "addNode self ip cid = Inr (self\<lparr>DHT := (replicate 160 [])[i := [(cid, ip)]]\<rparr>)"
  using assms by (simp add: addNode_def py_append_at_def)

lemma addNode_mset:
  "addNode self ip cid = Inr self' \<Longrightarrow>
   mset (concat (DHT self')) = mset (concat (DHT self)) + {#(cid, ip)#}"
  by (auto simp add: addNode_Inr_iff mset_concat_update_append dest: py_index_Some_less)

lemma getClosestCIDs_Inr_iff:
  "getClosestCIDs self t amount = Inr res \<longleftrightarrow>
   (\<forall>c\<in>set (concat (DHT self)). \<exists>k. xor_key t c = Inr k) \<and>
   res = take amount (sort_key (\<lambda>c. projr (xor_key t c)) (concat (DHT self)))"
  by (auto simp add: getClosestCIDs_def py_sort_by_key_Inr)

lemma getClosestCIDs_Inl_iff:
  "getClosestCIDs self t amount = Inl e \<longleftrightarrow> keys_ok (xor_key t) (concat (DHT self)) = Inl e"
  by (cases "keys_ok (xor_key t) (concat (DHT self))")
    (auto simp add: getClosestCIDs_def py_sort_by_key_def)

lemma getClosestCIDs_length:
  "getClosestCIDs self t n = Inr cs \<Longrightarrow> length cs = min n (length (concat (DHT self)))"
  by (simp add: getClosestCIDs_Inr_iff)

lemma getClosestCIDs_seeds:
  assumes "getClosestCIDs self t n = Inr seeds"
  shows "(\<forall>c\<in>set seeds. \<exists>k. xor_key t c = Inr k) \<and> set seeds \<subseteq> set (concat (DHT self)) \<and>
         sorted (map (\<lambda>c. projr (xor_key t c)) seeds)"
proof -
  let ?k = "\<lambda>c. projr (xor_key t c)" and ?all = "concat (DHT self)"
  from assms have keys: "\<forall>c\<in>set ?all. \<exists>k. xor_key t c = Inr k"
    and seeds: "seeds = take n (sort_key ?k ?all)"
    by (simp_all add: getClosestCIDs_Inr_iff)
  have sub: "set seeds \<subseteq> set ?all"
    using set_take_subset [of n "sort_key ?k ?all"] by (simp add: seeds)
  have "sorted (map ?k seeds)"
    using sorted_wrt_take [OF sorted_sort_key [of ?k ?all], of n] by (simp add: seeds take_map)
  with sub keys show ?thesis by blast
qed

text \<open>Evaluation of the invariant on a table whose last buckets are empty.\<close>

lemma dht_inv_prefix:
  "length bs + k = 160 \<Longrightarrow>
   dht_inv myCID (bs @ replicate k []) \<longleftrightarrow>
   list_all (\<lambda>(i, bucket). list_all (\<lambda>c. getBucketIndex myCID (cid_of c) = Inr (int i)) bucket)
     (enumerate 0 bs)"
  by (simp add: dht_inv_def enumerate_append_eq enumerate_replicate_eq list.pred_map comp_def list.pred_True)

lemma dht_inv_append:
  "dht_inv my dht \<Longrightarrow> j < length dht \<Longrightarrow> getBucketIndex my (cid_of c) = Inr (int j) \<Longrightarrow>
   dht_inv my (dht[j := dht ! j @ [c]])"
  by (auto simp add: dht_inv_nth nth_list_update)

lemma dht_inv_cid_bound:
  assumes "dht_inv myCID dht" and "hex_val myCID = Inr m" and "m < 2 ^ 160" and "c \<in> set (concat dht)"
  shows "\<exists>x. hex_val (cid_of c) = Inr x \<and> x < 2 ^ 160"
proof -
  from assms(1,4) obtain i where "i < 160" and "getBucketIndex myCID (cid_of c) = Inr (int i)"
    using dht_inv_cids by blast
  with assms(2) obtain x where x: "hex_val (cid_of c) = Inr x" and "m XOR x < 2 ^ Suc i"
    by (auto simp add: getBucketIndex_eq_int)
  moreover have "(2::nat) ^ Suc i \<le> 2 ^ 160"
    using \<open>i < 160\<close> by (simp only: power_increasing_iff)
  ultimately have "m XOR x < 2 ^ 160" by linarith
  then have "m XOR (m XOR x) < 2 ^ 160"
    using assms(3) by (rule xor_less_pow2 [OF _ _, rotated])
  with x show ?thesis by simp
qed

text \<open>An insertion into the bucket the index names keeps the invariant.\<close>

lemma addNode_keeps_dht_inv:
  assumes inv: "dht_inv (CID self) (DHT self)"
    and add: "addNode self ip cid = Inr self'"
    and not_self: "getBucketIndex (CID self) cid \<noteq> Inr (-1)"
  shows "dht_inv (CID self') (DHT self')"
proof -
  from add obtain i j where gbi: "getBucketIndex (CID self) cid = Inr i"
    and j: "py_index (length (DHT self)) i = Some j"
    and self': "self' = self\<lparr>DHT := (DHT self)[j := DHT self ! j @ [(cid, ip)]]\<rparr>"
    by (auto simp add: addNode_Inr_iff)
  from gbi not_self have "0 \<le> i"
    using getBucketIndex_ge [OF gbi] by fastforce
  with j have "i = int j" and "j < length (DHT self)"
    by (auto split: if_splits)
  with inv gbi show ?thesis
    by (simp add: self' dht_inv_append)
qed

section \<open>Properties\<close>

text \<open>
  C1. \<open>addNode\<close> keeps the bucket invariant: when the table is well formed and the
  new contact's CID differs in value from the node's own, every contact of the new
  table is still in the bucket its index names.
\<close>

lemma addNode_preserves_dht_inv:
  assumes inv: "dht_inv (CID self) (DHT self)"
    and add: "addNode self ip cid = Inr self'"
    and not_self: "getBucketIndex (CID self) cid \<noteq> Inr (-1)"
  shows "dht_inv (CID self') (DHT self')"
  using assms by (rule addNode_keeps_dht_inv)

text \<open>
  C2. \<open>getClosestCIDs(cid, amount)\<close> returns \<open>min(amount, N)\<close> contacts of the table,
  sorted by XOR distance to \<open>cid\<close>, none of them farther than any contact it leaves out.
\<close>

theorem getClosestCIDs_closest:
  assumes "getClosestCIDs self t amount = Inr res"
  shows "length res = min amount (length (concat (DHT self))) \<and>
         mset res \<subseteq># mset (concat (DHT self)) \<and>
         (\<exists>ds. map (xor_key t) res = map Inr ds \<and> sorted ds) \<and>
         (\<forall>c \<in> set res. \<forall>d \<in># mset (concat (DHT self)) - mset res.
            \<exists>kc kd. xor_key t c = Inr kc \<and> xor_key t d = Inr kd \<and> kc \<le> kd)"
proof -
  let ?all = "concat (DHT self)" and ?k = "\<lambda>c. projr (xor_key t c)"
  let ?s = "sort_key ?k ?all"
  from assms have keys: "\<forall>c\<in>set ?all. \<exists>k. xor_key t c = Inr k"
    and res: "res = take amount ?s"
    by (auto simp add: getClosestCIDs_Inr_iff)
  have key_eq: "c \<in> set ?all \<Longrightarrow> xor_key t c = Inr (?k c)" for c
    using keys by fastforce
  have mset_s: "mset ?s = mset ?all" by simp
  have sorted_s: "sorted (map ?k ?s)" by (rule sorted_sort_key)
  have "mset res + mset (drop amount ?s) = mset ?all"
    by (simp add: res flip: mset_append)
  then have rest: "mset ?all - mset res = mset (drop amount ?s)" and sub: "mset res \<subseteq># mset ?all"
    by (auto simp flip: \<open>mset res + mset (drop amount ?s) = mset ?all\<close>)
  have in_all: "c \<in> set res \<Longrightarrow> c \<in> set ?all" for c
    using set_mset_mono [OF sub] by auto
  have c1: "length res = min amount (length ?all)"
    by (simp add: res)
  have "map (xor_key t) res = map Inr (map ?k res)"
    using in_all key_eq by simp
  moreover have "sorted (map ?k res)"
    using sorted_wrt_take [OF sorted_s, of amount] by (simp add: res take_map)
  ultimately have c3: "\<exists>ds. map (xor_key t) res = map Inr ds \<and> sorted ds"
    by blast
  have le: "\<forall>c \<in> set res. \<forall>d \<in> set (drop amount ?s). ?k c \<le> ?k d"
    using sorted_take_drop_le [OF sorted_s, of amount] res by simp
  have dall: "d \<in> set (drop amount ?s) \<Longrightarrow> d \<in> set ?all" for d
    using in_set_dropD [of d amount ?s] by simp
  have c4: "\<forall>c \<in> set res. \<forall>d \<in># mset ?all - mset res.
      \<exists>kc kd. xor_key t c = Inr kc \<and> xor_key t d = Inr kd \<and> kc \<le> kd"
  proof (intro ballI)
    fix c d assume c: "c \<in> set res" and "d \<in># mset ?all - mset res"
    then have d: "d \<in> set (drop amount ?s)" by (simp add: rest)
    show "\<exists>kc kd. xor_key t c = Inr kc \<and> xor_key t d = Inr kd \<and> kc \<le> kd"
      using key_eq [OF in_all [OF c]] key_eq [OF dall [OF d]] le c d by blast
  qed
  show ?thesis
    using c1 sub c3 c4 by blast
qed

text \<open>
  C6. \<open>addNode\<close> on every branch, for a node whose own CID is a 160-bit value and whose
  table has 160 buckets: a CID that is not hexadecimal raises ValueError, a value of
  161 bits or more raises IndexError, the node's own CID is appended to bucket 159
  (index \<open>-1\<close>), and any other CID is appended to bucket \<open>bit_length(cid ^ CID) - 1\<close>.
\<close>

theorem addNode_spec:
  assumes my: "hex_val (CID self) = Inr m" and "m < 2 ^ 160" and len: "length (DHT self) = 160"
  shows "addNode self ip cid =
    (case hex_val cid of
       Inl _ \<Rightarrow> Inl ValueError
     | Inr x \<Rightarrow>
         if 2 ^ 160 \<le> x then Inl IndexError
         else let j = (if x = m then 159 else bit_length (m XOR x) - 1)
              in Inr (self\<lparr>DHT := (DHT self)[j := DHT self ! j @ [(cid, ip)]]\<rparr>))"
proof (cases "hex_val cid")
  case (Inl e)
  then show ?thesis
    using my by (auto simp add: addNode_def getBucketIndex_def dest: hex_val_Inl)
next
  case (Inr x)
  have gbi: "getBucketIndex (CID self) cid = Inr (int (bit_length (m XOR x)) - 1)"
    using my Inr by (simp add: getBucketIndex_def)
  show ?thesis
  proof (cases "2 ^ 160 \<le> x")
    case True
    then have "2 ^ 160 \<le> m XOR x"
      using xor_ge_pow2 \<open>m < 2 ^ 160\<close> by blast
    then have "160 < bit_length (m XOR x)"
      by (simp add: bit_length_less_iff)
    then have "py_index 160 (int (bit_length (m XOR x)) - 1) = None"
      by (auto simp add: py_index_def)
    then show ?thesis
      using Inr True gbi len by (simp add: addNode_def py_append_at_def)
  next
    case False
    then have "m XOR x < 2 ^ 160"
      using \<open>m < 2 ^ 160\<close> xor_less_pow2 not_le by blast
    then have "bit_length (m XOR x) \<le> 160"
      by (simp only: bit_length_le_iff)
    show ?thesis
    proof (cases "x = m")
      case True
      then show ?thesis
        using Inr False gbi len by (simp add: addNode_def py_append_at_def)
    next
      case False
      then have "0 < bit_length (m XOR x)"
        by simp
      then have "nat (int (bit_length (m XOR x)) - 1) = bit_length (m XOR x) - 1"
        by arith
      then show ?thesis
        using Inr \<open>\<not> 2 ^ 160 \<le> x\<close> \<open>bit_length (m XOR x) \<le> 160\<close> gbi len False
        by (simp add: addNode_def py_append_at_def Let_def)
    qed
  qed
qed

text \<open>A contact with the node's own CID value in any bucket breaks the invariant.\<close>

lemma dht_inv_self_entry:
  assumes "getBucketIndex myCID cid = Inr (-1)" and "i < length dht" and "(cid, ip) \<in> set (dht ! i)"
  shows "\<not> dht_inv myCID dht"
proof
  assume "dht_inv myCID dht"
  with assms(2,3) have "getBucketIndex myCID cid = Inr (int i)"
    unfolding dht_inv_nth by fastforce
  with assms(1) show False by simp
qed

text \<open>
  C9. Inserting a contact whose CID has the node's own value succeeds and puts it in
  bucket 159 (Python's index \<open>-1\<close>), which breaks the bucket invariant.
\<close>

lemma addNode_self_breaks_dht_inv:
  assumes my: "hex_val (CID self) = Inr m" and cid: "hex_val cid = Inr m"
    and len: "length (DHT self) = 160"
  shows "\<exists>self'. addNode self ip cid = Inr self' \<and> (cid, ip) \<in> set (DHT self' ! 159) \<and>
           \<not> dht_inv (CID self') (DHT self')"
proof -
  have gbi: "getBucketIndex (CID self) cid = Inr (-1)"
    using my cid by (simp add: getBucketIndex_def)
  let ?self' = "self\<lparr>DHT := (DHT self)[159 := DHT self ! 159 @ [(cid, ip)]]\<rparr>"
  have add: "addNode self ip cid = Inr ?self'"
    using gbi len by (simp add: addNode_def py_append_at_def)
  moreover have mem: "(cid, ip) \<in> set (DHT ?self' ! 159)"
    using len by simp
  moreover have "\<not> dht_inv (CID ?self') (DHT ?self')"
    using dht_inv_self_entry [OF gbi _ mem] len by simp
  ultimately show ?thesis by blast
qed

text \<open>
  On a well-formed table every stored CID is hexadecimal, so for a hexadecimal target
  every contact has a sort key.
\<close>

lemma dht_inv_keys:
  assumes "dht_inv (CID self) (DHT self)" and "hex_val t = Inr y"
  shows "\<forall>c\<in>set (concat (DHT self)). \<exists>k. xor_key t c = Inr k"
proof
  fix c assume "c \<in> set (concat (DHT self))"
  with assms(1) obtain i where "getBucketIndex (CID self) (cid_of c) = Inr (int i)"
    using dht_inv_cids by blast
  then obtain x where "hex_val (cid_of c) = Inr x"
    by (auto simp add: getBucketIndex_Inr_iff)
  with assms(2) show "\<exists>k. xor_key t c = Inr k"
    by (simp add: xor_key_def)
qed

text \<open>
  C12. On a well-formed table and a hexadecimal target, \<open>getClosestCIDs\<close> never raises.
\<close>

lemma getClosestCIDs_total:
  assumes "dht_inv (CID self) (DHT self)" and "hex_val t = Inr y"
  shows "\<exists>res. getClosestCIDs self t amount = Inr res"
  using dht_inv_keys [OF assms] by (simp add: getClosestCIDs_Inr_iff)

text \<open>
  C13. \<open>getClosestCIDs\<close> raises exactly when the key of some contact cannot be computed
  (its CID or the target is not hexadecimal), and the exception is ValueError.
\<close>

lemma getClosestCIDs_error:
  "getClosestCIDs self t amount = Inl e \<longleftrightarrow>
   e = ValueError \<and> (\<exists>c\<in>set (concat (DHT self)). \<forall>k. xor_key t c \<noteq> Inr k)"
proof
  assume "getClosestCIDs self t amount = Inl e"
  then have "keys_ok (xor_key t) (concat (DHT self)) = Inl e"
    by (simp add: getClosestCIDs_Inl_iff)
  then obtain c where "c \<in> set (concat (DHT self))" and "xor_key t c = Inl e"
    using keys_ok_Inl by blast
  moreover from \<open>xor_key t c = Inl e\<close> have "e = ValueError"
    by (auto simp add: xor_key_def res_bind_def dest: hex_val_Inl split: sum.splits)
  moreover from \<open>xor_key t c = Inl e\<close> have "\<forall>k. xor_key t c \<noteq> Inr k"
    by simp
  ultimately show "e = ValueError \<and> (\<exists>c\<in>set (concat (DHT self)). \<forall>k. xor_key t c \<noteq> Inr k)"
    by blast
next
  assume "e = ValueError \<and> (\<exists>c\<in>set (concat (DHT self)). \<forall>k. xor_key t c \<noteq> Inr k)"
  then obtain c where e: "e = ValueError" and c: "c \<in> set (concat (DHT self))"
    and nk: "\<forall>k. xor_key t c \<noteq> Inr k" by blast
  then have "\<not> (\<exists>u. keys_ok (xor_key t) (concat (DHT self)) = Inr u)"
    by (auto simp add: keys_ok_Inr_iff)
  then obtain e' where e': "keys_ok (xor_key t) (concat (DHT self)) = Inl e'"
    by (cases "keys_ok (xor_key t) (concat (DHT self))") auto
  then obtain c' where "xor_key t c' = Inl e'"
    using keys_ok_Inl by blast
  then have "e' = ValueError"
    by (auto simp add: xor_key_def res_bind_def dest: hex_val_Inl split: sum.splits)
  with e e' show "getClosestCIDs self t amount = Inl e"
    by (simp add: getClosestCIDs_Inl_iff)
qed

text \<open>
  C15. \<open>addNode\<close> never suppresses a duplicate: a successful call adds one more copy
  of the contact to the table, whatever the table already holds.
\<close>

lemma addNode_adds_copy:
  "addNode self ip cid = Inr self' \<Longrightarrow>
   count_list (concat (DHT self')) (cid, ip) = Suc (count_list (concat (DHT self)) (cid, ip))"
  by (simp add: addNode_mset flip: count_mset)

text \<open>
  C16. The constructor removes only the first occurrence of the node's own public
  address from the bootstrap list: the address stays a bootstrap peer exactly when it
  was listed at least twice.
\<close>

lemma init_node_self_bootstrap:
  "pub \<in> set (bootstrapIPs (init_node pub loc p cid bs)) \<longleftrightarrow> 2 \<le> count_list bs pub"
  by (simp add: init_node_def in_set_remove1_count)

end
