(* ===== verification/Select.thy ===== *)
theory Select
  imports Metric
begin

text \<open>
  The selection scan of \<open>deepNodeSearch\<close> (\<open>src/Python/DistributedStorageV1.py\<close>,
  the \<open>for node in closest_nodes\<close> loop): which contact is asked next, and how the
  scan lowers \<open>closest_distance\<close>. The variable starts as \<open>float('inf')\<close> and
  afterwards holds Python integers of two kinds: bit indices here and raw XOR distances
  after a merge, so it is modelled as infinity or an \<open>int\<close>.
\<close>

datatype pydist = PInf | PInt int

text \<open>\<open>a < closest_distance\<close> for a Python integer \<open>a\<close>.\<close>

fun lt_dist :: "int \<Rightarrow> pydist \<Rightarrow> bool" where
  "lt_dist a PInf = True"
| "lt_dist a (PInt b) = (a < b)"

text \<open>
  The scan, as the source writes it: every contact not yet asked whose bit index
  \<open>int(int(cid, 16) ^ int(target, 16)).bit_length() - 1\<close> is below
  \<open>closest_distance\<close> becomes \<open>next_to_ask\<close> and lowers \<open>closest_distance\<close>.
\<close>

fun select_scan ::
  "string \<Rightarrow> contact list \<Rightarrow> contact list \<Rightarrow> contact option \<Rightarrow> pydist \<Rightarrow> (contact option \<times> pydist) result"
where
  "select_scan cid asked_nodes [] next_to_ask closest_distance = Inr (next_to_ask, closest_distance)"
| "select_scan cid asked_nodes (node # rest) next_to_ask closest_distance =
     (if node \<in> set asked_nodes then select_scan cid asked_nodes rest next_to_ask closest_distance
      else res_bind (xor_key cid node) (\<lambda>d.
        let distance = int (bit_length d) - 1
        in if lt_dist distance closest_distance
           then select_scan cid asked_nodes rest (Some node) (PInt distance)
           else select_scan cid asked_nodes rest next_to_ask closest_distance))"

text \<open>
  A declarative reference for the scan: among the contacts not yet asked, take the
  first one whose bit index is least, provided that index is below
  \<open>closest_distance\<close>; otherwise keep \<open>next_to_ask\<close> and \<open>closest_distance\<close>.
  Every key is evaluated first, so an unreadable CID raises as in the scan.
\<close>

definition bit_index :: "string \<Rightarrow> contact \<Rightarrow> int" where
  "bit_index t c = int (bit_length (projr (xor_key t c))) - 1"

definition select_ref ::
  "string \<Rightarrow> contact list \<Rightarrow> contact list \<Rightarrow> contact option \<Rightarrow> pydist \<Rightarrow> (contact option \<times> pydist) result"
where
  "select_ref t asked cs nxt cd =
     (let cands = filter (\<lambda>c. c \<notin> set asked) cs in
      res_map (\<lambda>_.
        case find (\<lambda>c. lt_dist (bit_index t c) cd \<and> list_all (\<lambda>c'. bit_index t c \<le> bit_index t c') cands) cands of
          None \<Rightarrow> (nxt, cd)
        | Some c \<Rightarrow> (Some c, PInt (bit_index t c)))
        (keys_ok (xor_key t) cands))"

section \<open>Lemmas\<close>

lemma lt_dist_not_le: "lt_dist a cd \<Longrightarrow> \<not> lt_dist b cd \<Longrightarrow> a \<le> b"
  by (cases cd) auto

lemma lt_dist_trans: "lt_dist a (PInt b) \<Longrightarrow> lt_dist b cd \<Longrightarrow> lt_dist a cd"
  by (cases cd) auto

text \<open>
  A contact chosen by the scan was not asked before, is one of the scanned contacts,
  and comes with a bit index (at least \<open>-1\<close>) strictly below the starting
  \<open>closest_distance\<close>.
\<close>

lemma select_scan_Some:
  "select_scan t asked cs nxt cd = Inr (Some c, cd') \<Longrightarrow>
   (nxt = Some c \<and> cd' = cd) \<or>
   (\<exists>k. cd' = PInt (int (bit_length k) - 1) \<and> lt_dist (int (bit_length k) - 1) cd \<and>
        c \<in> set cs \<and> c \<notin> set asked \<and> xor_key t c = Inr k)"
proof (induction t asked cs nxt cd rule: select_scan.induct)
  case (1 cid asked_nodes next_to_ask closest_distance)
  then show ?case by simp
next
  case (2 cid asked_nodes node rest next_to_ask closest_distance)
  show ?case
  proof (cases "node \<in> set asked_nodes")
    case True
    with "2.IH"(1) "2.prems" show ?thesis by auto
  next
    case False
    with "2.prems" obtain d where d: "xor_key cid node = Inr d"
      by (cases "xor_key cid node") auto
    let ?dist = "int (bit_length d) - 1"
    show ?thesis
    proof (cases "lt_dist ?dist closest_distance")
      case True
      with False d "2.prems" have "select_scan cid asked_nodes rest (Some node) (PInt ?dist) = Inr (Some c, cd')"
        by simp
      from "2.IH"(2) [where x = d, OF False refl True this]
      show ?thesis
      proof
        assume "Some node = Some c \<and> cd' = PInt ?dist"
        with True False d show ?thesis by auto
      next
        assume "\<exists>k. cd' = PInt (int (bit_length k) - 1) \<and> lt_dist (int (bit_length k) - 1) (PInt ?dist) \<and>
          c \<in> set rest \<and> c \<notin> set asked_nodes \<and> xor_key cid c = Inr k"
        then obtain k where cd': "cd' = PInt (int (bit_length k) - 1)"
          and lt: "lt_dist (int (bit_length k) - 1) (PInt ?dist)"
          and c: "c \<in> set rest" "c \<notin> set asked_nodes" "xor_key cid c = Inr k"
          by blast
        have "lt_dist (int (bit_length k) - 1) closest_distance"
          by (rule lt_dist_trans [OF lt True])
        with cd' c show ?thesis by auto
      qed
    next
      case nlt: False
      with False d "2.prems" have "select_scan cid asked_nodes rest next_to_ask closest_distance = Inr (Some c, cd')"
        by simp
      with "2.IH"(3) [where x = d, OF False refl] nlt show ?thesis
        by auto
    qed
  qed
qed

lemma select_scan_keeps_Some: "select_scan t asked cs (Some n) cd \<noteq> Inr (None, cd')"
  by (induction t asked cs "Some n" cd arbitrary: n rule: select_scan.induct)
    (auto simp add: Let_def res_bind_def split: sum.splits)

lemma select_scan_None:
  "select_scan t asked cs nxt cd = Inr (None, cd') \<Longrightarrow>
   nxt = None \<and> cd' = cd \<and> (\<forall>c \<in> set cs. c \<notin> set asked \<longrightarrow>
                (\<exists>k. xor_key t c = Inr k \<and> \<not> lt_dist (int (bit_length k) - 1) cd))"
proof (induction t asked cs nxt cd rule: select_scan.induct)
  case (1 cid asked_nodes next_to_ask closest_distance)
  then show ?case by simp
next
  case (2 cid asked_nodes node rest next_to_ask closest_distance)
  show ?case
  proof (cases "node \<in> set asked_nodes")
    case True
    with "2.IH"(1) "2.prems" show ?thesis by auto
  next
    case False
    with "2.prems" obtain d where d: "xor_key cid node = Inr d"
      by (cases "xor_key cid node") auto
    with False "2.prems" have nlt: "\<not> lt_dist (int (bit_length d) - 1) closest_distance"
      using select_scan_keeps_Some by (auto simp add: Let_def split: if_splits)
    with False d "2.prems" have "select_scan cid asked_nodes rest next_to_ask closest_distance = Inr (None, cd')"
      by simp
    with "2.IH"(3) [where x = d, OF False refl] nlt False d show ?thesis
      by auto
  qed
qed

lemma select_scan_Inl:
  "select_scan t asked cs nxt cd = Inl e \<Longrightarrow> \<exists>c \<in> set cs. c \<notin> set asked \<and> xor_key t c = Inl e"
  by (induction t asked cs nxt cd rule: select_scan.induct)
    (auto simp add: Let_def res_bind_def split: if_splits sum.splits)

lemma select_scan_keys_ok:
  "\<forall>c\<in>set cs. \<exists>k. xor_key t c = Inr k \<Longrightarrow> \<exists>x. select_scan t asked cs nxt cd = Inr x"
proof (cases "select_scan t asked cs nxt cd")
  case (Inl e)
  then obtain c where "c \<in> set cs" and "xor_key t c = Inl e"
    using select_scan_Inl by blast
  moreover assume "\<forall>c\<in>set cs. \<exists>k. xor_key t c = Inr k"
  ultimately show ?thesis by force
qed simp

lemma select_scan_no_better:
  "\<forall>c\<in>set cs. \<exists>k. xor_key t c = Inr k \<and> b \<le> int (bit_length k) - 1 \<Longrightarrow>
   select_scan t asked cs nxt (PInt b) = Inr (nxt, PInt b)"
  by (induction cs arbitrary: nxt) auto

text \<open>On a list sorted by distance, the first scan from infinity chooses the head.\<close>

lemma select_scan_sorted_head:
  assumes "xor_key t c = Inr k" and "\<forall>c'\<in>set cs. \<exists>k'. xor_key t c' = Inr k' \<and> k \<le> k'"
  shows "select_scan t [] (c # cs) None PInf = Inr (Some c, PInt (int (bit_length k) - 1))"
proof -
  have "\<forall>c'\<in>set cs. \<exists>k'. xor_key t c' = Inr k' \<and> int (bit_length k) - 1 \<le> int (bit_length k') - 1"
    using assms(2) bit_length_mono by fastforce
  then show ?thesis
    using assms(1) by (simp add: select_scan_no_better)
qed

section \<open>Properties\<close>

text \<open>
  C33. The selection loop of \<open>deepNodeSearch\<close> is equivalent to its declarative
  reference: it asks the first not-yet-asked contact of least bit index when that
  index is below \<open>closest_distance\<close>, and raises on the same unreadable CID.
\<close>

theorem select_scan_ref: "select_scan t asked cs nxt cd = select_ref t asked cs nxt cd"
proof (induction cs arbitrary: nxt cd)
  case Nil
  then show ?case by (simp add: select_ref_def)
next
  case (Cons node rest)
  let ?rs = "filter (\<lambda>c. c \<notin> set asked) rest"
  let ?cs = "filter (\<lambda>c. c \<notin> set asked) (node # rest)"
  let ?bi = "bit_index t"
  let ?P = "\<lambda>cd xs c. lt_dist (?bi c) cd \<and> list_all (\<lambda>c'. ?bi c \<le> ?bi c') xs"
  show ?case
  proof (cases "node \<in> set asked")
    case True
    then show ?thesis using Cons.IH by (simp add: select_ref_def)
  next
    case unasked: False
    then have cs: "?cs = node # ?rs" by simp
    show ?thesis
    proof (cases "xor_key t node")
      case (Inl e)
      with unasked show ?thesis by (simp add: select_ref_def)
    next
      case (Inr d)
      have bnode: "?bi node = int (bit_length d) - 1" using Inr by (simp add: bit_index_def)
      have ko: "keys_ok (xor_key t) ?cs = keys_ok (xor_key t) ?rs" using unasked Inr by simp
      show ?thesis
      proof (cases "lt_dist (?bi node) cd")
        case lt: True
        have step: "select_scan t asked (node # rest) nxt cd = select_scan t asked rest (Some node) (PInt (?bi node))"
          using unasked Inr lt bnode by simp
        have fe: "find (?P cd ?cs) ?cs =
              (case find (?P (PInt (?bi node)) ?rs) ?rs of None \<Rightarrow> Some node | Some c \<Rightarrow> Some c)"
          unfolding cs
        proof (cases "\<forall>c'\<in>set ?rs. ?bi node \<le> ?bi c'")
          case True
          then have "find (?P (PInt (?bi node)) ?rs) ?rs = None"
            by (intro find_none) (force simp add: list_all_iff)
          with True lt show "find (?P cd (node # ?rs)) (node # ?rs) =
              (case find (?P (PInt (?bi node)) ?rs) ?rs of None \<Rightarrow> Some node | Some c \<Rightarrow> Some c)"
            by (simp add: list_all_iff)
        next
          case False
          then obtain c0 where c0: "c0 \<in> set ?rs" "?bi c0 < ?bi node" by force
          have "find (?P cd (node # ?rs)) ?rs = find (?P (PInt (?bi node)) ?rs) ?rs"
          proof (rule find_cong_set)
            fix c assume "c \<in> set ?rs"
            have below: "?bi c < ?bi node" if "list_all (\<lambda>c'. ?bi c \<le> ?bi c') ?rs"
            proof -
              have "?bi c \<le> ?bi c0" using that c0(1) unfolding list_all_iff by blast
              with c0(2) show ?thesis by linarith
            qed
            show "?P cd (node # ?rs) c = ?P (PInt (?bi node)) ?rs c"
              using below lt lt_dist_trans [of "?bi c" "?bi node" cd] by (auto simp add: list_all_iff)
          qed
          moreover have "\<not> list_all (\<lambda>c'. ?bi node \<le> ?bi c') (node # ?rs)"
            unfolding list_all_iff
          proof
            assume "\<forall>c'\<in>set (node # ?rs). ?bi node \<le> ?bi c'"
            then have "?bi node \<le> ?bi c0" using c0(1) by (meson list.set_intros(2))
            with c0(2) show False by linarith
          qed
          moreover have "find (?P (PInt (?bi node)) ?rs) ?rs \<noteq> None"
            using find_least_exists [where f = ?bi, OF c0] by simp
          ultimately show "find (?P cd (node # ?rs)) (node # ?rs) =
              (case find (?P (PInt (?bi node)) ?rs) ?rs of None \<Rightarrow> Some node | Some c \<Rightarrow> Some c)"
            by (auto split: option.split)
        qed
        show ?thesis
          unfolding step Cons.IH select_ref_def Let_def ko fe
          by (cases "find (?P (PInt (?bi node)) ?rs) ?rs") simp_all
      next
        case nlt: False
        have step: "select_scan t asked (node # rest) nxt cd = select_scan t asked rest nxt cd"
          using unasked Inr nlt bnode by simp
        have fe: "find (?P cd ?cs) ?cs = find (?P cd ?rs) ?rs"
          unfolding cs using nlt lt_dist_not_le [of _ cd "?bi node"] by (auto intro: find_cong_set)
        show ?thesis
          unfolding step Cons.IH select_ref_def Let_def ko fe ..
      qed
    qed
  qed
qed

end
