(* ===== verification/Lookup.thy ===== *)
theory Lookup
  imports RoutingTable Select
begin

text \<open>
  The iterative lookup \<open>deepNodeSearch(cid, amount)\<close> of
  \<open>src/Python/DistributedStorageV1.py\<close> with \<open>askForClosestNodes\<close>. The network
  is a parameter: \<open>ask cid ip\<close> is what \<open>askForClosestNodes(cid, ip)\<close> does:
  \<open>Some (Inr cs)\<close> when the contacts \<open>cs\<close> arrive in \<open>pendingResponse\<close>,
  \<open>Some (Inl e)\<close> when \<open>sendData\<close> raises (an unreachable peer) or the answer is not
  a list of contacts, and \<open>None\<close> when no answer ever arrives, in which case
  \<open>while self.pendingResponse == None\<close> spins forever and the lookup never returns.
  A lookup's result is therefore \<open>None\<close> (no return), \<open>Some (Inl e)\<close> (an
  exception) or \<open>Some (Inr r)\<close>.
\<close>

type_synonym responder = "string \<Rightarrow> string \<Rightarrow> contact list result option"

text \<open>
  One round of the \<open>while True\<close> loop per call: select, ask, merge, compare. The
  merged list is sorted with the same key as \<open>getClosestCIDs\<close>; \<open>new_closest\<close> is
  the raw XOR distance of its first element, and it is compared with
  \<open>closest_distance\<close>, which the selection scan has just set to a bit index.
\<close>

function deep_loop ::
  "responder \<Rightarrow> string \<Rightarrow> nat \<Rightarrow> contact list \<Rightarrow> contact list \<Rightarrow> pydist \<Rightarrow>
   (contact list \<times> contact list) result option"
where
  "deep_loop ask cid amount closest_nodes asked_nodes closest_distance =
     (case select_scan cid asked_nodes closest_nodes None closest_distance of
        Inl e \<Rightarrow> Some (Inl e)
      | Inr (None, _) \<Rightarrow> Some (Inr (closest_nodes, asked_nodes))
      | Inr (Some next_to_ask, cd) \<Rightarrow>
          (case ask cid (ip_of next_to_ask) of
             None \<Rightarrow> None
           | Some (Inl e) \<Rightarrow> Some (Inl e)
           | Some (Inr new_nodes) \<Rightarrow>
               (case py_sort_by_key (xor_key cid) (closest_nodes @ new_nodes) of
                  Inl e \<Rightarrow> Some (Inl e)
                | Inr all_nodes \<Rightarrow>
                    (case take amount all_nodes of
                       [] \<Rightarrow> Some (Inl IndexError)
                     | first # _ \<Rightarrow>
                         (case xor_key cid first of
                            Inl e \<Rightarrow> Some (Inl e)
                          | Inr new_closest \<Rightarrow>
                              if \<not> lt_dist (int new_closest) cd
                              then Some (Inr (take amount all_nodes, asked_nodes @ [next_to_ask]))
                              else deep_loop ask cid amount (take amount all_nodes)
                                     (asked_nodes @ [next_to_ask]) (PInt (int new_closest)))))))"
  by pat_completeness auto
termination
  apply (relation "measures
    [\<lambda>(ask, cid, amount, cl, asked, cd). case cd of PInf \<Rightarrow> 1 | PInt _ \<Rightarrow> 0,
     \<lambda>(ask, cid, amount, cl, asked, cd). case cd of PInf \<Rightarrow> 0 | PInt d \<Rightarrow> nat (d + 2)]")
   apply simp
  apply (auto dest!: select_scan_Some split: pydist.splits)
  done

text \<open>
  \<open>deepNodeSearch(cid, amount)\<close>: seeded with \<open>getClosestCIDs(cid, amount=20)\<close>,
  returns \<open>closest_nodes[:amount]\<close>.
\<close>

definition deepNodeSearch :: "responder \<Rightarrow> node \<Rightarrow> string \<Rightarrow> nat \<Rightarrow> contact list result option" where
  "deepNodeSearch ask self cid amount =
     (case getClosestCIDs self cid 20 of
        Inl e \<Rightarrow> Some (Inl e)
      | Inr closest_nodes \<Rightarrow>
          map_option (res_map (\<lambda>(closest_nodes, asked_nodes). take amount closest_nodes))
            (deep_loop ask cid amount closest_nodes [] PInf))"

declare deep_loop.simps [simp del]

section \<open>One round of the loop\<close>

text \<open>
  What a round that returns did: either the scan found nobody to ask, or it chose a
  contact with a bit index below \<open>closest_distance\<close>, that contact answered, the
  merge and the first key succeeded, and the loop either stopped or went on from the
  new raw distance.
\<close>

lemma deep_loop_Some_Inr:
  assumes "deep_loop ask t amount cl asked cd = Some (Inr r)"
  shows "(select_scan t asked cl None cd = Inr (None, cd) \<and> r = (cl, asked)) \<or>
    (\<exists>n k new all first rest nc.
       select_scan t asked cl None cd = Inr (Some n, PInt (int (bit_length k) - 1)) \<and>
       lt_dist (int (bit_length k) - 1) cd \<and> n \<in> set cl \<and> n \<notin> set asked \<and> xor_key t n = Inr k \<and>
       ask t (ip_of n) = Some (Inr new) \<and> py_sort_by_key (xor_key t) (cl @ new) = Inr all \<and>
       take amount all = first # rest \<and> xor_key t first = Inr nc \<and>
       (if lt_dist (int nc) (PInt (int (bit_length k) - 1))
        then deep_loop ask t amount (first # rest) (asked @ [n]) (PInt (int nc)) = Some (Inr r)
        else r = (first # rest, asked @ [n])))"
proof (cases "select_scan t asked cl None cd")
  case (Inl e)
  with assms show ?thesis by (simp add: deep_loop.simps [of ask t amount cl asked cd])
next
  case (Inr x)
  obtain y cd' where x: "x = (y, cd')" by (cases x)
  show ?thesis
  proof (cases y)
    case None
    with Inr x assms show ?thesis
      using select_scan_None [of t asked cl None cd cd'] by (simp add: deep_loop.simps [of ask t amount cl asked cd])
  next
    case (Some n)
    with Inr x obtain k where cd': "cd' = PInt (int (bit_length k) - 1)"
      and sel: "lt_dist (int (bit_length k) - 1) cd" "n \<in> set cl" "n \<notin> set asked" "xor_key t n = Inr k"
      using select_scan_Some [of t asked cl None cd n cd'] by auto
    from assms Inr x Some show ?thesis
      by (auto simp add: deep_loop.simps [of ask t amount cl asked cd] cd' sel split: option.splits sum.splits list.splits if_splits)
  qed
qed

text \<open>
  Induction over a run of the loop that returns a value: a property of the final pair
  holds if it holds when the scan stops the loop, when the distance test stops it, and
  if it is carried back over a round that continues.
\<close>

lemma deep_loop_Inr_induct [consumes 1, case_names stop last step]:
  assumes run: "deep_loop ask t amount cl asked cd = Some (Inr r)"
    and stop: "\<And>cl asked cd. select_scan t asked cl None cd = Inr (None, cd) \<Longrightarrow> P cl asked cd (cl, asked)"
    and last: "\<And>cl asked cd n k new all first rest nc.
      select_scan t asked cl None cd = Inr (Some n, PInt (int (bit_length k) - 1)) \<Longrightarrow>
      lt_dist (int (bit_length k) - 1) cd \<Longrightarrow> n \<in> set cl \<Longrightarrow> n \<notin> set asked \<Longrightarrow>
      xor_key t n = Inr k \<Longrightarrow> ask t (ip_of n) = Some (Inr new) \<Longrightarrow>
      py_sort_by_key (xor_key t) (cl @ new) = Inr all \<Longrightarrow> take amount all = first # rest \<Longrightarrow>
      xor_key t first = Inr nc \<Longrightarrow> \<not> lt_dist (int nc) (PInt (int (bit_length k) - 1)) \<Longrightarrow>
      P cl asked cd (first # rest, asked @ [n])"
    and step: "\<And>cl asked cd n k new all first rest nc r.
      select_scan t asked cl None cd = Inr (Some n, PInt (int (bit_length k) - 1)) \<Longrightarrow>
      lt_dist (int (bit_length k) - 1) cd \<Longrightarrow> n \<in> set cl \<Longrightarrow> n \<notin> set asked \<Longrightarrow>
      xor_key t n = Inr k \<Longrightarrow> ask t (ip_of n) = Some (Inr new) \<Longrightarrow>
      py_sort_by_key (xor_key t) (cl @ new) = Inr all \<Longrightarrow> take amount all = first # rest \<Longrightarrow>
      xor_key t first = Inr nc \<Longrightarrow> lt_dist (int nc) (PInt (int (bit_length k) - 1)) \<Longrightarrow>
      deep_loop ask t amount (first # rest) (asked @ [n]) (PInt (int nc)) = Some (Inr r) \<Longrightarrow>
      P (first # rest) (asked @ [n]) (PInt (int nc)) r \<Longrightarrow> P cl asked cd r"
  shows "P cl asked cd r"
proof -
  have "deep_loop a b c cl asked cd = Some (Inr r) \<Longrightarrow> a = ask \<Longrightarrow> b = t \<Longrightarrow> c = amount \<Longrightarrow>
        P cl asked cd r" for a b c
  proof (induction a b c cl asked cd arbitrary: r rule: deep_loop.induct)
    case (1 a b c cl asked cd)
    note eq = "1.prems"(2-4)
    note IH = "1.IH" [unfolded eq]
    from "1.prems"(1) eq have run': "deep_loop ask t amount cl asked cd = Some (Inr r)"
      by simp
    from deep_loop_Some_Inr [OF run'] show ?case
    proof (elim disjE exE conjE)
      assume "select_scan t asked cl None cd = Inr (None, cd)" and "r = (cl, asked)"
      then show ?thesis using stop by simp
    next
      fix n k new all first rest nc
      assume sel: "select_scan t asked cl None cd = Inr (Some n, PInt (int (bit_length k) - 1))"
        and lt0: "lt_dist (int (bit_length k) - 1) cd" and n: "n \<in> set cl" "n \<notin> set asked"
        and kn: "xor_key t n = Inr k" and ask: "ask t (ip_of n) = Some (Inr new)"
        and sort: "py_sort_by_key (xor_key t) (cl @ new) = Inr all"
        and tk: "take amount all = first # rest" and nc: "xor_key t first = Inr nc"
        and cont: "if lt_dist (int nc) (PInt (int (bit_length k) - 1))
          then deep_loop ask t amount (first # rest) (asked @ [n]) (PInt (int nc)) = Some (Inr r)
          else r = (first # rest, asked @ [n])"
      show ?thesis
      proof (cases "lt_dist (int nc) (PInt (int (bit_length k) - 1))")
        case True
        with cont have rec: "deep_loop ask t amount (first # rest) (asked @ [n]) (PInt (int nc)) = Some (Inr r)"
          by simp
        have "P (first # rest) (asked @ [n]) (PInt (int nc)) r"
          using IH [OF sel refl refl ask refl sort tk nc] True rec tk by simp
        with sel lt0 n kn ask sort tk nc True rec show ?thesis
          by (rule step)
      next
        case False
        with cont have "r = (first # rest, asked @ [n])" by simp
        with last [OF sel lt0 n kn ask sort tk nc False] show ?thesis by simp
      qed
    qed
  qed
  with run show ?thesis by blast
qed

lemma deep_loop_hops_PInt:
  assumes "deep_loop ask t amount cl asked cd = Some (Inr r)" and "cd = PInt c"
  shows "length (snd r) \<le> length asked + nat (c + 1)"
  using assms
proof (induction arbitrary: c rule: deep_loop_Inr_induct)
  case (stop cl asked cd)
  then show ?case by simp
next
  case (last cl asked cd n k new all first rest nc)
  then show ?case by simp
next
  case (step cl asked cd n k new all first rest nc r)
  have "length (snd r) \<le> length (asked @ [n]) + nat (int nc + 1)"
    using step.IH by simp
  with step.hyps(2,10) step.prems show ?case by simp
qed

lemma deep_loop_hops_PInf:
  assumes "deep_loop ask t amount cl asked PInf = Some (Inr r)"
    and "\<forall>c\<in>set cl. \<exists>d. xor_key t c = Inr d \<and> d < 2 ^ K"
  shows "length (snd r) \<le> length asked + max 1 K"
  using deep_loop_Some_Inr [OF assms(1)]
proof (elim disjE exE conjE)
  assume "r = (cl, asked)"
  then show ?thesis by simp
next
  fix n k new all first rest nc
  assume n: "n \<in> set cl" and kn: "xor_key t n = Inr k"
    and cont: "if lt_dist (int nc) (PInt (int (bit_length k) - 1))
        then deep_loop ask t amount (first # rest) (asked @ [n]) (PInt (int nc)) = Some (Inr r)
        else r = (first # rest, asked @ [n])"
  from n kn assms(2) have "k < 2 ^ K" by fastforce
  then have bk: "bit_length k \<le> K" by (simp add: bit_length_le_iff)
  show ?thesis
  proof (cases "lt_dist (int nc) (PInt (int (bit_length k) - 1))")
    case True
    with cont have "deep_loop ask t amount (first # rest) (asked @ [n]) (PInt (int nc)) = Some (Inr r)"
      by simp
    then have "length (snd r) \<le> length (asked @ [n]) + nat (int nc + 1)"
      by (rule deep_loop_hops_PInt) simp
    with True bk show ?thesis by simp
  next
    case False
    with cont show ?thesis by simp
  qed
qed

lemma deep_loop_returns:
  "(\<forall>ip. ask t ip \<noteq> None) \<Longrightarrow> deep_loop ask t amount cl asked cd \<noteq> None"
proof (induction ask t amount cl asked cd rule: deep_loop.induct)
  case (1 ask cid amount closest_nodes asked_nodes closest_distance)
  show ?case
    using "1.IH" "1.prems"
    by (subst deep_loop.simps) (fastforce split: sum.splits option.splits list.splits prod.splits)
qed

lemma deep_loop_total:
  "(\<forall>ip. \<exists>r. ask t ip = Some (Inr r) \<and> (\<forall>c\<in>set r. \<exists>k. xor_key t c = Inr k)) \<Longrightarrow>
   (\<forall>c\<in>set cl. \<exists>k. xor_key t c = Inr k) \<Longrightarrow> 0 < amount \<Longrightarrow>
   \<exists>r. deep_loop ask t amount cl asked cd = Some (Inr r)"
proof (induction ask t amount cl asked cd rule: deep_loop.induct)
  case (1 ask t amount cl asked cd)
  obtain x where sel: "select_scan t asked cl None cd = Inr x"
    using select_scan_keys_ok "1.prems"(2) by blast
  obtain y cd' where x: "x = (y, cd')" by (cases x)
  show ?case
  proof (cases y)
    case None
    with sel x show ?thesis by (simp add: deep_loop.simps [of ask t amount cl asked cd])
  next
    case (Some n)
    with sel x have "n \<in> set cl"
      using select_scan_Some [of t asked cl None cd n cd'] by auto
    from "1.prems"(1) obtain new where ask: "ask t (ip_of n) = Some (Inr new)"
      and new: "\<forall>c\<in>set new. \<exists>k. xor_key t c = Inr k" by blast
    have keys: "\<forall>c\<in>set (cl @ new). \<exists>k. xor_key t c = Inr k"
      using "1.prems"(2) new by auto
    then obtain all where sort: "py_sort_by_key (xor_key t) (cl @ new) = Inr all"
      using py_sort_by_key_total by blast
    then have set_all: "set all = set (cl @ new)"
      by (simp add: py_sort_by_key_Inr)
    with \<open>n \<in> set cl\<close> have "all \<noteq> []" by auto
    with \<open>0 < amount\<close> have "take amount all \<noteq> []" by simp
    then obtain first rest where tk: "take amount all = first # rest"
      by (cases "take amount all") auto
    have tk_keys: "\<forall>c\<in>set (take amount all). \<exists>k. xor_key t c = Inr k"
      using keys set_all in_set_takeD by fastforce
    then obtain nc where nc: "xor_key t first = Inr nc"
      using tk by auto
    show ?thesis
    proof (cases "lt_dist (int nc) cd'")
      case True
      have "\<exists>r. deep_loop ask t amount (take amount all) (asked @ [n]) (PInt (int nc)) = Some (Inr r)"
        using "1.IH" [OF sel x [symmetric] Some ask refl sort tk nc] True "1.prems"(1,3) tk_keys by simp
      with sel x Some ask sort tk nc True show ?thesis
        by (simp add: deep_loop.simps [of ask t amount cl asked cd])
    next
      case False
      with sel x Some ask sort tk nc show ?thesis
        by (simp add: deep_loop.simps [of ask t amount cl asked cd])
    qed
  qed
qed

lemma merge_props:
  assumes "py_sort_by_key (xor_key t) (cl @ new) = Inr all" and "take amount all = first # rest"
  shows "set (first # rest) \<subseteq> set cl \<union> set new \<and> length (first # rest) \<le> amount \<and>
         sorted (map (\<lambda>c. projr (xor_key t c)) (first # rest)) \<and>
         (\<forall>c\<in>set (first # rest). \<exists>k. xor_key t c = Inr k)"
proof -
  from assms(1) have keys: "\<forall>c\<in>set (cl @ new). \<exists>k. xor_key t c = Inr k"
    and all: "all = sort_key (\<lambda>c. projr (xor_key t c)) (cl @ new)"
    by (simp_all add: py_sort_by_key_Inr)
  have sub: "set (first # rest) \<subseteq> set (cl @ new)"
    using assms(2) set_take_subset [of amount all] all by simp
  have "sorted (map (\<lambda>c. projr (xor_key t c)) (take amount all))"
    using sorted_wrt_take [OF sorted_sort_key [of "\<lambda>c. projr (xor_key t c)" "cl @ new"], of amount] all
    by (simp add: take_map)
  moreover have "length (take amount all) \<le> amount" by simp
  ultimately show ?thesis
    using sub keys assms(2) by auto
qed

lemma deep_loop_result:
  assumes "deep_loop ask t amount cl asked cd = Some (Inr r)"
  shows "(\<forall>c\<in>set (fst r). c \<in> set cl \<or> (\<exists>ip x. ask t ip = Some (Inr x) \<and> c \<in> set x)) \<and>
         (fst r = cl \<or> length (fst r) \<le> amount \<and> sorted (map (\<lambda>c. projr (xor_key t c)) (fst r)) \<and>
           (\<forall>c\<in>set (fst r). \<exists>k. xor_key t c = Inr k))"
  using assms
proof (induction rule: deep_loop_Inr_induct)
  case (stop cl asked cd)
  then show ?case by simp
next
  case (last cl asked cd n k new all first rest nc)
  then show ?case using merge_props [of t cl new all amount first rest] by fastforce
next
  case (step cl asked cd n k new all first rest nc r)
  then show ?case using merge_props [of t cl new all amount first rest] by fastforce
qed

text \<open>The first contact a lookup asks is the closest seed.\<close>

lemma getClosestCIDs_first_asked:
  assumes seeds: "getClosestCIDs self t n = Inr (c # cs)"
  shows "\<exists>k. xor_key t c = Inr k \<and> select_scan t [] (c # cs) None PInf = Inr (Some c, PInt (int (bit_length k) - 1))"
proof -
  let ?k = "\<lambda>c. projr (xor_key t c)"
  from seeds have keys: "\<forall>c'\<in>set (c # cs). \<exists>k. xor_key t c' = Inr k"
    and sorted: "sorted (map ?k (c # cs))"
    using getClosestCIDs_seeds by blast+
  then obtain k where k: "xor_key t c = Inr k" by auto
  have "\<forall>c'\<in>set cs. \<exists>k'. xor_key t c' = Inr k' \<and> k \<le> k'"
    using keys sorted k by fastforce
  with k show ?thesis
    using select_scan_sorted_head by blast
qed

text \<open>A lookup whose closest seed never answers never returns.\<close>

lemma deep_loop_first_silent:
  assumes seeds: "getClosestCIDs self t n = Inr (c # cs)" and silent: "ask t (ip_of c) = None"
  shows "deep_loop ask t amount (c # cs) [] PInf = None"
proof -
  obtain k where "select_scan t [] (c # cs) None PInf = Inr (Some c, PInt (int (bit_length k) - 1))"
    using getClosestCIDs_first_asked [OF seeds] by blast
  with silent show ?thesis
    by (simp add: deep_loop.simps [of ask t amount "c # cs" "[]" PInf] del: select_scan.simps)
qed

section \<open>Properties\<close>

text \<open>
  C3. A lookup started from a well-formed routing table of a node with a 160-bit CID,
  for a 160-bit target, sends at most 160 \<open>closestNodesRequest\<close>s before it returns,
  whatever the peers answer.
\<close>

theorem deepNodeSearch_query_bound:
  assumes inv: "dht_inv (CID self) (DHT self)" and my: "hex_val (CID self) = Inr m" "m < 2 ^ 160"
    and tgt: "hex_val t = Inr y" "y < 2 ^ 160"
    and seeds: "getClosestCIDs self t 20 = Inr closest_nodes"
    and run: "deep_loop ask t amount closest_nodes [] PInf = Some (Inr (cl, asked))"
  shows "length asked \<le> 160"
proof -
  have "\<forall>c\<in>set closest_nodes. \<exists>d. xor_key t c = Inr d \<and> d < 2 ^ 160"
  proof
    fix c assume "c \<in> set closest_nodes"
    with seeds have "c \<in> set (concat (DHT self))"
      using getClosestCIDs_seeds by blast
    with inv my obtain x where x: "hex_val (cid_of c) = Inr x" and "x < 2 ^ 160"
      using dht_inv_cid_bound by blast
    with tgt have "x XOR y < 2 ^ 160"
      using xor_less_pow2 by blast
    with x tgt show "\<exists>d. xor_key t c = Inr d \<and> d < 2 ^ 160"
      by (simp add: xor_key_def)
  qed
  with run have "length (snd (cl, asked)) \<le> length ([] :: contact list) + max 1 160"
    by (rule deep_loop_hops_PInf)
  then show ?thesis by simp
qed

text \<open>
  C4. If every peer answers and every CID it reports is hexadecimal, a lookup from a
  well-formed table for a hexadecimal target with \<open>amount > 0\<close> returns a list and
  raises nothing.
\<close>

theorem deepNodeSearch_total:
  assumes inv: "dht_inv (CID self) (DHT self)" and tgt: "hex_val t = Inr y" and pos: "0 < amount"
    and resp: "\<forall>ip. \<exists>r. ask t ip = Some (Inr r) \<and> (\<forall>c\<in>set r. \<exists>x. hex_val (cid_of c) = Inr x)"
  shows "\<exists>res. deepNodeSearch ask self t amount = Some (Inr res)"
proof -
  obtain closest_nodes where seeds: "getClosestCIDs self t 20 = Inr closest_nodes"
    using dht_inv_keys [OF inv tgt] by (simp add: getClosestCIDs_Inr_iff)
  then have "\<forall>c\<in>set closest_nodes. \<exists>k. xor_key t c = Inr k"
    using getClosestCIDs_seeds by blast
  moreover have "\<forall>ip. \<exists>r. ask t ip = Some (Inr r) \<and> (\<forall>c\<in>set r. \<exists>k. xor_key t c = Inr k)"
    using resp tgt by (fastforce simp add: xor_key_def)
  ultimately obtain r where "deep_loop ask t amount closest_nodes [] PInf = Some (Inr r)"
    using deep_loop_total pos by blast
  with seeds show ?thesis
    by (auto simp add: deepNodeSearch_def)
qed

text \<open>
  C7. What a lookup returns: at most \<open>amount\<close> contacts, sorted by XOR distance to the
  target, each one from the routing table or from the answer of a peer.
\<close>

theorem deepNodeSearch_result:
  assumes "deepNodeSearch ask self t amount = Some (Inr res)"
  shows "length res \<le> amount \<and> (\<exists>ds. map (xor_key t) res = map Inr ds \<and> sorted ds) \<and>
         (\<forall>c\<in>set res. c \<in> set (concat (DHT self)) \<or> (\<exists>ip x. ask t ip = Some (Inr x) \<and> c \<in> set x))"
proof -
  let ?k = "\<lambda>c. projr (xor_key t c)"
  from assms obtain seeds r where seeds: "getClosestCIDs self t 20 = Inr seeds"
    and run: "deep_loop ask t amount seeds [] PInf = Some (Inr r)" and res: "res = take amount (fst r)"
    by (auto simp add: deepNodeSearch_def split: sum.splits prod.splits)
  from seeds have seed_keys: "\<forall>c\<in>set seeds. \<exists>k. xor_key t c = Inr k"
    and seed_table: "set seeds \<subseteq> set (concat (DHT self))"
    and seed_sorted: "sorted (map ?k seeds)"
    using getClosestCIDs_seeds by blast+
  from deep_loop_result [OF run] have
    from_: "\<forall>c\<in>set (fst r). c \<in> set seeds \<or> (\<exists>ip x. ask t ip = Some (Inr x) \<and> c \<in> set x)"
    and shape: "fst r = seeds \<or> sorted (map ?k (fst r)) \<and> (\<forall>c\<in>set (fst r). \<exists>k. xor_key t c = Inr k)"
    by auto
  from shape seed_sorted seed_keys have "sorted (map ?k (fst r))" and "\<forall>c\<in>set (fst r). \<exists>k. xor_key t c = Inr k"
    by auto
  then have "sorted (map ?k res)" and "\<forall>c\<in>set res. \<exists>k. xor_key t c = Inr k"
    using sorted_wrt_take [of "(\<le>)" "map ?k (fst r)" amount] by (auto simp add: res take_map dest: in_set_takeD)
  then have "\<exists>ds. map (xor_key t) res = map Inr ds \<and> sorted ds"
    by (rule sorted_keys_Inr)
  moreover have "\<forall>c\<in>set res. c \<in> set (concat (DHT self)) \<or> (\<exists>ip x. ask t ip = Some (Inr x) \<and> c \<in> set x)"
    using from_ seed_table in_set_takeD [of _ amount "fst r"] unfolding res by blast
  ultimately show ?thesis
    by (simp add: res)
qed

text \<open>
  C8. The lookup compares a raw XOR distance with a bit index. When every contact it
  sees lies at XOR distance at least 159 from the target (all but a \<open>2^-152\<close> share of
  160-bit identifiers), it stops after its first query, whatever the answer holds.
\<close>

theorem deep_loop_single_query:
  assumes run: "deep_loop ask t amount cl [] PInf = Some (Inr r)"
    and seeds: "\<forall>c\<in>set cl. \<exists>d. xor_key t c = Inr d \<and> 159 \<le> d \<and> d < 2 ^ 160"
    and resp: "\<forall>ip x. ask t ip = Some (Inr x) \<longrightarrow> (\<forall>c\<in>set x. \<exists>d. xor_key t c = Inr d \<and> 159 \<le> d)"
  shows "length (snd r) \<le> 1"
  using deep_loop_Some_Inr [OF run]
proof (elim disjE exE conjE)
  assume "r = (cl, [])"
  then show ?thesis by simp
next
  fix n k new all first rest nc
  assume n: "n \<in> set cl" and kn: "xor_key t n = Inr k" and ask: "ask t (ip_of n) = Some (Inr new)"
    and sort: "py_sort_by_key (xor_key t) (cl @ new) = Inr all"
    and tk: "take amount all = first # rest" and nc: "xor_key t first = Inr nc"
    and cont: "if lt_dist (int nc) (PInt (int (bit_length k) - 1))
        then deep_loop ask t amount (first # rest) ([] @ [n]) (PInt (int nc)) = Some (Inr r)
        else r = (first # rest, [] @ [n])"
  from n kn seeds have "k < 2 ^ 160" by fastforce
  then have "bit_length k \<le> 160" by (simp only: bit_length_le_iff)
  moreover have "first \<in> set cl \<union> set new"
    using merge_props [OF sort tk] by auto
  then have "159 \<le> nc"
    using seeds resp ask nc by fastforce
  ultimately have "\<not> lt_dist (int nc) (PInt (int (bit_length k) - 1))"
    by simp
  with cont show ?thesis by simp
qed

text \<open>
  C17. A lookup returns (a list or an exception) whenever every peer it may ask answers.
\<close>

theorem deepNodeSearch_returns:
  "(\<forall>ip. ask t ip \<noteq> None) \<Longrightarrow> deepNodeSearch ask self t amount \<noteq> None"
  using deep_loop_returns [of ask t amount]
  by (auto simp add: deepNodeSearch_def split: sum.splits)

text \<open>
  C18. There is no timeout: when the closest contact of the table never answers, the
  lookup never returns.
\<close>

theorem deepNodeSearch_hangs:
  assumes seeds: "getClosestCIDs self t 20 = Inr (c # cs)" and silent: "ask t (ip_of c) = None"
  shows "deepNodeSearch ask self t amount = None"
  using deep_loop_first_silent [where ask = ask and amount = amount, OF seeds silent] seeds
  by (simp add: deepNodeSearch_def)

text \<open>
  C10. A lookup never asks the same peer twice: the scan only picks contacts that are
  not in \<open>asked_nodes\<close>, and the loop only appends the contact it asks, so from a
  list without repetitions the asked list it ends with extends it and still has none.
\<close>

theorem deep_loop_asks_distinct:
  assumes run: "deep_loop ask t amount cl asked cd = Some (Inr (cl', asked'))"
    and d: "distinct asked"
  shows "\<exists>ns. asked' = asked @ ns \<and> distinct asked'"
proof -
  have "distinct asked \<longrightarrow> (\<exists>ns. snd (cl', asked') = asked @ ns \<and> distinct (snd (cl', asked')))"
    using run
  proof (induction rule: deep_loop_Inr_induct)
    case (stop cl asked cd)
    then show ?case by simp
  next
    case (last cl asked cd n k new all first rest nc)
    then show ?case by auto
  next
    case (step cl asked cd n k new all first rest nc r)
    then show ?case by auto
  qed
  with d show ?thesis by simp
qed

end
