(* ===== verification/Dispatcher.thy ===== *)
theory Dispatcher
  imports RoutingTable
begin

text \<open>
  The protocol dispatcher \<open>Node.receiveData\<close> and the transport primitive
  \<open>Node.sendData\<close> of \<open>src/Python/DistributedStorageV1.py\<close>. One accepted
  connection is one step on the node's state: the frame is read through the receive
  window, the \<open>if/elif\<close> chain picks the first of the four keys present, the handler
  updates the table or the response slot and may send one message. Python mutates the
  node before a later statement raises, so a step returns the node as far as it got,
  the messages sent, and the exception that ended the server thread, if any. The
  server loop \<open>while True\<close> handles connections in order until one raises.
\<close>

section \<open>Transport\<close>

text \<open>
  \<open>sendData(ip, data)\<close>: connects to \<open>(ip, self.port)\<close> and writes the JSON text.
  Whether the connection succeeds is the network's business, a parameter \<open>reach\<close>;
  a refused or unreachable peer makes \<open>connect\<close> raise (OSError). A message sent is
  the destination address and the dictionary.
\<close>

type_synonym sent = "string \<times> message"

definition sendData :: "(string \<Rightarrow> bool) \<Rightarrow> string \<Rightarrow> message \<Rightarrow> sent list result" where
  "sendData reach ip data = (if reach ip then Inr [(ip, data)] else Inl OSError)"

section \<open>The dispatcher\<close>

text \<open>
  \<open>data[key][0], data[key][1]\<close>: the two fields of a pair payload. On a list of
  contacts, a list shorter than two raises IndexError; otherwise the fields are
  dictionaries, which \<open>int(x, 16)\<close> (in \<open>addNode\<close> or the sort key of
  \<open>getClosestCIDs\<close>) or \<open>socket.connect\<close> reject with TypeError before anything
  changes.
\<close>

definition pair_fields :: "payload \<Rightarrow> (string \<times> string) result" where
  "pair_fields p =
     (case p of PPair a b \<Rightarrow> Inr (a, b)
      | PContacts cs \<Rightarrow> if length cs < 2 then Inl IndexError else Inl TypeError)"

text \<open>The outcome of handling one connection: node, messages sent, exception raised.\<close>

type_synonym outcome = "node \<times> sent list \<times> error option"

text \<open>
  The body of \<open>while True\<close> in \<open>receiveData\<close> after \<open>json.loads\<close>, lines
  \<open>if 'nodeInfoRequest' in data: ... elif 'closestNodesResponse' in data: ...\<close>.
  The dictionary is looked up with \<open>map_of\<close> (JSON objects written by
  \<open>json.dumps\<close> have distinct keys); a message with none of the four keys is ignored.
\<close>

definition receiveData_step :: "(string \<Rightarrow> bool) \<Rightarrow> node \<Rightarrow> message \<Rightarrow> outcome" where
  "receiveData_step reach self data =
     (case map_of data nodeInfoRequest of
        Some p \<Rightarrow>
          (case pair_fields p of
             Inl e \<Rightarrow> (self, [], Some e)
           | Inr (ip, cid) \<Rightarrow>
               (case addNode self ip cid of
                  Inl e \<Rightarrow> (self, [], Some e)
                | Inr self' \<Rightarrow>
                    (case sendData reach ip [(nodeInfoResponse, PPair (publicIP self') (CID self'))] of
                       Inl e \<Rightarrow> (self', [], Some e)
                     | Inr out \<Rightarrow> (self', out, None))))
      | None \<Rightarrow>
     (case map_of data nodeInfoResponse of
        Some p \<Rightarrow>
          (case pair_fields p of
             Inl e \<Rightarrow> (self, [], Some e)
           | Inr (ip, cid) \<Rightarrow>
               (case addNode self ip cid of
                  Inl e \<Rightarrow> (self, [], Some e)
                | Inr self' \<Rightarrow> (self', [], None)))
      | None \<Rightarrow>
     (case map_of data closestNodesRequest of
        Some p \<Rightarrow>
          (case pair_fields p of
             Inl e \<Rightarrow> (self, [], Some e)
           | Inr (ip, cid) \<Rightarrow>
               (case getClosestCIDs self cid 20 of
                  Inl e \<Rightarrow> (self, [], Some e)
                | Inr cs \<Rightarrow>
                    (case sendData reach ip [(closestNodesResponse, PContacts cs)] of
                       Inl e \<Rightarrow> (self, [], Some e)
                     | Inr out \<Rightarrow> (self, out, None))))
      | None \<Rightarrow>
     (case map_of data closestNodesResponse of
        Some p \<Rightarrow> (self\<lparr>pendingResponse := Some p\<rparr>, [], None)
      | None \<Rightarrow> (self, [], None)))))"

text \<open>
  One accepted connection: \<open>json.loads(clientSocket.recv(1024).decode("utf-8"))\<close>
  on the frame the peer sent, then the dispatch.
\<close>

definition receive_one :: "(string \<Rightarrow> bool) \<Rightarrow> node \<Rightarrow> message \<Rightarrow> outcome" where
  "receive_one reach self m =
     (case receive_frame m of
        Inl e \<Rightarrow> (self, [], Some e)
      | Inr data \<Rightarrow> receiveData_step reach self data)"

text \<open>
  The server thread over the connections it accepts, in order. The first exception
  ends the thread (nothing catches it): the result is the node, everything sent, the
  exception, and the connections never handled.
\<close>

fun serve :: "(string \<Rightarrow> bool) \<Rightarrow> node \<Rightarrow> message list \<Rightarrow> node \<times> sent list \<times> error option \<times> message list" where
  "serve reach self [] = (self, [], None, [])"
| "serve reach self (m # ms) =
     (case receive_one reach self m of
        (self', out, Some e) \<Rightarrow> (self', out, Some e, ms)
      | (self', out, None) \<Rightarrow>
          (case serve reach self' ms of (self'', out', err, rest) \<Rightarrow> (self'', out @ out', err, rest)))"

section \<open>Lemmas\<close>

lemma sendData_Inr_iff [simp]: "sendData reach ip m = Inr out \<longleftrightarrow> reach ip \<and> out = [(ip, m)]"
  by (auto simp add: sendData_def)

lemma sendData_Inl_iff [simp]: "sendData reach ip m = Inl e \<longleftrightarrow> \<not> reach ip \<and> e = OSError"
  by (auto simp add: sendData_def)

lemma pair_fields_PPair [simp]: "pair_fields (PPair a b) = Inr (a, b)"
  by (simp add: pair_fields_def)

lemma pair_fields_Inr_iff [simp]: "pair_fields p = Inr ab \<longleftrightarrow> p = PPair (fst ab) (snd ab)"
  by (cases p) (auto simp add: pair_fields_def)

text \<open>
  What one dispatch can do to the node: nothing, set the response slot, or insert the
  contact a \<open>nodeInfoRequest\<close> or \<open>nodeInfoResponse\<close> carries.
\<close>

lemma receive_one_fits: "receive_frame m = Inr m \<Longrightarrow> receive_one reach self m = receiveData_step reach self m"
  by (simp add: receive_one_def)

lemma receiveData_step_cases:
  assumes "receiveData_step reach self data = (self', out, err)"
  shows "self' = self \<or> (\<exists>p. self' = self\<lparr>pendingResponse := Some p\<rparr>) \<or>
         (\<exists>k ip cid. k \<in> {nodeInfoRequest, nodeInfoResponse} \<and> map_of data k = Some (PPair ip cid) \<and>
            addNode self ip cid = Inr self')"
  using assms unfolding receiveData_step_def
  by (auto split: option.splits sum.splits prod.splits)

lemma receive_one_cases:
  assumes "receive_one reach self m = (self', out, err)"
  shows "self' = self \<or> (\<exists>p. self' = self\<lparr>pendingResponse := Some p\<rparr>) \<or>
         (\<exists>k ip cid. k \<in> {nodeInfoRequest, nodeInfoResponse} \<and> map_of m k = Some (PPair ip cid) \<and>
            addNode self ip cid = Inr self')"
proof (cases "receive_frame m")
  case (Inl e)
  with assms show ?thesis by (simp add: receive_one_def)
next
  case (Inr data)
  with assms have "receiveData_step reach self data = (self', out, err)" and "data = m"
    by (auto simp add: receive_one_def receive_frame_def split: if_splits)
  then show ?thesis using receiveData_step_cases by blast
qed

lemma receive_one_keeps:
  assumes "receive_one reach self m = (self', out, err)"
  shows "CID self' = CID self \<and> publicIP self' = publicIP self \<and> bootstrapIPs self' = bootstrapIPs self"
  using receive_one_cases [OF assms] addNode_fields by fastforce

lemma message_keys_distinct [simp]:
  "nodeInfoRequest \<noteq> nodeInfoResponse" "nodeInfoRequest \<noteq> closestNodesRequest"
  "nodeInfoRequest \<noteq> closestNodesResponse" "nodeInfoResponse \<noteq> nodeInfoRequest"
  "nodeInfoResponse \<noteq> closestNodesRequest" "nodeInfoResponse \<noteq> closestNodesResponse"
  "closestNodesRequest \<noteq> nodeInfoRequest" "closestNodesRequest \<noteq> nodeInfoResponse"
  "closestNodesResponse \<noteq> nodeInfoRequest" "closestNodesResponse \<noteq> nodeInfoResponse"
  "closestNodesRequest \<noteq> closestNodesResponse" "closestNodesResponse \<noteq> closestNodesRequest"
  by (simp_all add: nodeInfoRequest_def nodeInfoResponse_def closestNodesRequest_def
      closestNodesResponse_def)

text \<open>
  What one dispatch can send: the node's own identity back to the sender of a
  \<open>nodeInfoRequest\<close>, or a list of contacts.
\<close>

lemma receiveData_step_sent:
  assumes "receiveData_step reach self data = (self', out, err)" and "(d, m') \<in> set out"
  shows "(m' = [(nodeInfoResponse, PPair (publicIP self) (CID self))] \<and>
            (\<exists>cid. map_of data nodeInfoRequest = Some (PPair d cid))) \<or>
         (\<exists>cs. m' = [(closestNodesResponse, PContacts cs)])"
  using assms unfolding receiveData_step_def
  by (auto split: option.splits sum.splits prod.splits if_splits dest: addNode_fields
      simp add: sendData_def)

lemma receive_one_sent:
  assumes "receive_one reach self m = (self', out, err)" and "(d, m') \<in> set out"
  shows "(m' = [(nodeInfoResponse, PPair (publicIP self) (CID self))] \<and>
            (\<exists>cid. map_of m nodeInfoRequest = Some (PPair d cid))) \<or>
         (\<exists>cs. m' = [(closestNodesResponse, PContacts cs)])"
proof (cases "receive_frame m")
  case (Inl e)
  with assms show ?thesis by (simp add: receive_one_def)
next
  case (Inr data)
  with assms have "receiveData_step reach self data = (self', out, err)" and "data = m"
    by (auto simp add: receive_one_def receive_frame_def split: if_splits)
  then show ?thesis using receiveData_step_sent assms(2) by blast
qed

lemma receive_one_dht_inv:
  assumes inv: "dht_inv (CID self) (DHT self)"
    and nself: "\<forall>k\<in>{nodeInfoRequest, nodeInfoResponse}. \<forall>ip cid.
                  map_of m k = Some (PPair ip cid) \<longrightarrow> getBucketIndex (CID self) cid \<noteq> Inr (-1)"
    and run: "receive_one reach self m = (self', out, err)"
  shows "dht_inv (CID self') (DHT self')"
  using receive_one_cases [OF run]
proof (elim disjE exE conjE)
  fix k ip cid assume "k \<in> {nodeInfoRequest, nodeInfoResponse}" and "map_of m k = Some (PPair ip cid)"
    and add: "addNode self ip cid = Inr self'"
  with nself have "getBucketIndex (CID self) cid \<noteq> Inr (-1)" by blast
  with inv add show ?thesis by (rule addNode_keeps_dht_inv)
qed (use inv in simp_all)

text \<open>After an exception, the connections left are a proper suffix of the input.\<close>

lemma serve_rest_shorter:
  "serve reach self ms = (self', out, Some e, rest) \<Longrightarrow> length rest < length ms"
proof (induction ms arbitrary: self self' out rest)
  case (Cons m ms)
  then show ?case
    by (auto split: prod.splits option.splits) fastforce
qed simp

section \<open>Properties\<close>

text \<open>
  C20. A \<open>nodeInfoRequest\<close> inserts the sender into the table and answers with the
  node's own address and CID; when the sender cannot be reached the insertion stays
  and the reply raises OSError, which ends the server thread.
\<close>

theorem receiveData_nodeInfoRequest:
  assumes req: "map_of data nodeInfoRequest = Some (PPair ip cid)"
    and add: "addNode self ip cid = Inr self'"
  shows "receiveData_step reach self data =
           (if reach ip then (self', [(ip, [(nodeInfoResponse, PPair (publicIP self) (CID self))])], None)
            else (self', [], Some OSError))"
  using req add addNode_fields [OF add] by (simp add: receiveData_step_def sendData_def)

text \<open>
  C11. A \<open>nodeInfoResponse\<close> (and no \<open>nodeInfoRequest\<close>) inserts the responder into
  the table and sends nothing, reachable or not; when the insertion raises, the node is
  unchanged and the exception ends the server thread.
\<close>

theorem receiveData_nodeInfoResponse:
  assumes "map_of data nodeInfoRequest = None" and "map_of data nodeInfoResponse = Some (PPair ip cid)"
  shows "receiveData_step reach self data =
           (case addNode self ip cid of Inl e \<Rightarrow> (self, [], Some e) | Inr self' \<Rightarrow> (self', [], None))"
  using assms by (simp add: receiveData_step_def split: sum.splits)

text \<open>
  C21. A \<open>closestNodesRequest\<close> (and no \<open>nodeInfo\<close> key) leaves the node unchanged and
  answers the sender with \<open>getClosestCIDs(target, 20)\<close>; if that raises, nothing is
  sent and the exception ends the server thread.
\<close>

theorem receiveData_closestNodesRequest:
  assumes "map_of data nodeInfoRequest = None" and "map_of data nodeInfoResponse = None"
    and "map_of data closestNodesRequest = Some (PPair ip t)"
  shows "receiveData_step reach self data =
           (case getClosestCIDs self t 20 of
              Inl e \<Rightarrow> (self, [], Some e)
            | Inr cs \<Rightarrow> if reach ip then (self, [(ip, [(closestNodesResponse, PContacts cs)])], None)
                        else (self, [], Some OSError))"
  using assms by (simp add: receiveData_step_def sendData_def split: sum.splits)

text \<open>
  C22. A \<open>closestNodesResponse\<close> is stored in the single slot \<open>pendingResponse\<close>
  whatever it held before and whoever sent it: the message names no request and no
  sender, so nothing correlates an answer with the query it answers.
\<close>

theorem receiveData_response_slot:
  assumes "map_of data nodeInfoRequest = None" and "map_of data nodeInfoResponse = None"
    and "map_of data closestNodesRequest = None" and "map_of data closestNodesResponse = Some p"
  shows "receiveData_step reach self data = (self\<lparr>pendingResponse := Some p\<rparr>, [], None)"
  using assms by (simp add: receiveData_step_def)

text \<open>
  C23. The server loop keeps the bucket invariant over any sequence of connections,
  as long as no \<open>nodeInfo\<close> message carries a CID equal in value to the node's own:
  the table only changes through \<open>addNode\<close>, and the CID never changes.
\<close>

theorem serve_preserves_dht_inv:
  assumes "dht_inv (CID self) (DHT self)"
    and "\<forall>m\<in>set ms. \<forall>k\<in>{nodeInfoRequest, nodeInfoResponse}. \<forall>ip cid.
           map_of m k = Some (PPair ip cid) \<longrightarrow> getBucketIndex (CID self) cid \<noteq> Inr (-1)"
    and "serve reach self ms = (self', out, err, rest)"
  shows "dht_inv (CID self') (DHT self')"
  using assms
proof (induction ms arbitrary: self self' out err rest)
  case Nil
  then show ?case by simp
next
  case (Cons m ms)
  obtain s1 o1 e1 where r1: "receive_one reach self m = (s1, o1, e1)"
    by (cases "receive_one reach self m") auto
  have inv1: "dht_inv (CID s1) (DHT s1)"
    using receive_one_dht_inv [OF Cons.prems(1) _ r1] Cons.prems(2) by simp
  have cid1: "CID s1 = CID self"
    using receive_one_keeps [OF r1] by simp
  show ?case
  proof (cases e1)
    case None
    obtain s2 o2 e2 rest2 where r2: "serve reach s1 ms = (s2, o2, e2, rest2)"
      by (cases "serve reach s1 ms") auto
    with Cons.prems(3) r1 None have "self' = s2" by simp
    moreover have "dht_inv (CID s2) (DHT s2)"
      using Cons.IH [OF inv1 _ r2] Cons.prems(2) cid1 by simp
    ultimately show ?thesis by simp
  next
    case (Some e)
    with Cons.prems(3) r1 have "self' = s1" by simp
    with inv1 show ?thesis by simp
  qed
qed

text \<open>
  C24. The first connection that raises ends the server thread: the connections after
  it are never handled, and they change neither the node nor what it sends.
\<close>

theorem serve_stops_at_exception:
  assumes "serve reach self (pre @ m # rest) = (self', out, Some e, rest)"
  shows "serve reach self (pre @ m # rest') = (self', out, Some e, rest')"
  using assms
proof (induction pre arbitrary: self out)
  case Nil
  then show ?case
    using serve_rest_shorter by (fastforce split: prod.splits option.splits)
next
  case (Cons x pre)
  obtain s1 o1 e1 where r1: "receive_one reach self x = (s1, o1, e1)"
    by (cases "receive_one reach self x") auto
  show ?case
  proof (cases e1)
    case None
    obtain s2 o2 e2 r2 where sv: "serve reach s1 (pre @ m # rest) = (s2, o2, e2, r2)"
      by (cases "serve reach s1 (pre @ m # rest)") auto
    with Cons.prems r1 None have "e2 = Some e" "r2 = rest" "self' = s2" "out = o1 @ o2"
      by simp_all
    with sv have "serve reach s1 (pre @ m # rest') = (s2, o2, Some e, rest')"
      using Cons.IH by simp
    with r1 None \<open>self' = s2\<close> \<open>out = o1 @ o2\<close> show ?thesis by simp
  next
    case (Some e1')
    from Cons.prems r1 Some have "pre @ m # rest = rest" by simp
    then have "length (pre @ m # rest) = length rest" by simp
    then show ?thesis by simp
  qed
qed

text \<open>
  C25. Once a node's table holds twelve contacts with 40-digit CIDs and dotted-quad
  addresses, every answer it sends to a \<open>closestNodesRequest\<close> for a hexadecimal
  target is cut by the receiver's 1024-byte window: the receiving dispatcher raises
  ValueError, its server thread ends, and the asking lookup never gets its answer.
\<close>

theorem large_table_answer_lost:
  assumes inv: "dht_inv (CID self) (DHT self)" and tgt: "hex_val t = Inr y"
    and big: "12 \<le> length (concat (DHT self))"
    and shape: "\<forall>c\<in>set (concat (DHT self)). 40 \<le> length (cid_of c) \<and> 7 \<le> length (ip_of c)"
    and reach: "reach ip"
  shows "\<exists>m. receiveData_step reach self [(closestNodesRequest, PPair ip t)] = (self, [(ip, m)], None) \<and>
             receive_one reach' other m = (other, [], Some ValueError)"
proof -
  let ?all = "concat (DHT self)"
  let ?cs = "take 20 (sort_key (\<lambda>c. projr (xor_key t c)) ?all)"
  have gc: "getClosestCIDs self t 20 = Inr ?cs"
    using dht_inv_keys [OF inv tgt] by (simp add: getClosestCIDs_Inr_iff)
  have "12 \<le> length ?cs" using big by simp
  moreover have "set ?cs \<subseteq> set ?all"
    using set_take_subset [of 20 "sort_key (\<lambda>c. projr (xor_key t c)) ?all"] by simp
  then have "\<forall>c\<in>set ?cs. 40 \<le> length (cid_of c) \<and> 7 \<le> length (ip_of c)"
    using shape by blast
  ultimately have lost: "receive_frame [(closestNodesResponse, PContacts ?cs)] = Inl ValueError"
    by (rule receive_frame_response_long)
  have "receiveData_step reach self [(closestNodesRequest, PPair ip t)] =
          (self, [(ip, [(closestNodesResponse, PContacts ?cs)])], None)"
    using gc reach by (simp add: receiveData_step_def sendData_def nodeInfoRequest_def nodeInfoResponse_def
        closestNodesRequest_def)
  with lost show ?thesis
    by (auto simp add: receive_one_def)
qed

end
