(* ===== verification/Bootstrap.thy ===== *)
theory Bootstrap
  imports Lookup Dispatcher
begin

text \<open>
  One round of the bootstrap thread \<open>Node.bootstrap\<close> of
  \<open>src/Python/DistributedStorageV1.py\<close>, the body of its \<open>while True\<close> loop without
  \<open>time.sleep(1)\<close> and the progress \<open>print\<close>s: a random target for each of the 160
  buckets (\<open>generateTargetCID\<close>, the draws a parameter), a \<open>nodeInfoRequest\<close> to
  every bootstrap address, then for each bucket index a lookup of five contacts whose
  results are inserted when their bucket index is that index. The round is the
  bootstrap thread's own sequence of operations on the node: what the server thread
  does meanwhile is modelled by \<open>Dispatcher\<close>. A round that raises ends the thread
  (\<open>Some\<close> with the exception); a lookup that never returns makes the round never
  end (\<open>None\<close>).
\<close>

section \<open>The three phases of a round\<close>

text \<open>\<open>for i in range(160): bucketTargets.append(self.generateTargetCID(i))\<close>.\<close>

definition bucket_targets :: "string \<Rightarrow> (nat \<Rightarrow> nat) \<Rightarrow> string list result" where
  "bucket_targets myCID draw = res_mapM (\<lambda>i. generateTargetCID myCID i (draw i)) [0..<160]"

text \<open>
  \<open>for node in self.bootstrapIPs: self.sendData(node, {'nodeInfoRequest': (self.publicIP, self.CID)})\<close>:
  the messages sent, and the exception of the first unreachable address.
\<close>

fun announce :: "(string \<Rightarrow> bool) \<Rightarrow> string \<Rightarrow> string \<Rightarrow> string list \<Rightarrow> sent list \<times> error option" where
  "announce reach pub cid [] = ([], None)"
| "announce reach pub cid (ip # ips) =
     (case sendData reach ip [(nodeInfoRequest, PPair pub cid)] of
        Inl e \<Rightarrow> ([], Some e)
      | Inr out \<Rightarrow> (case announce reach pub cid ips of (out', err) \<Rightarrow> (out @ out', err)))"

text \<open>
  \<open>for node in closestNodes: if self.getBucketIndex(cid) == index: self.addNode(ip, cid)\<close>
  where \<open>cid = next(iter(dict(node)))\<close> and \<open>ip = node[cid]\<close>.
\<close>

fun insert_matches :: "node \<Rightarrow> nat \<Rightarrow> contact list \<Rightarrow> node \<times> error option" where
  "insert_matches self index [] = (self, None)"
| "insert_matches self index (c # cs) =
     (case getBucketIndex (CID self) (cid_of c) of
        Inl e \<Rightarrow> (self, Some e)
      | Inr b \<Rightarrow>
          if b = int index then
            (case addNode self (ip_of c) (cid_of c) of
               Inl e \<Rightarrow> (self, Some e)
             | Inr self' \<Rightarrow> insert_matches self' index cs)
          else insert_matches self index cs)"

text \<open>
  \<open>for index, bucket in enumerate(bucketTargets): closestNodes = self.deepNodeSearch(bucket, 5); ...\<close>
\<close>

fun fill_buckets :: "responder \<Rightarrow> node \<Rightarrow> nat \<Rightarrow> string list \<Rightarrow> (node \<times> error option) option" where
  "fill_buckets ask self index [] = Some (self, None)"
| "fill_buckets ask self index (bucket # rest) =
     (case deepNodeSearch ask self bucket 5 of
        None \<Rightarrow> None
      | Some (Inl e) \<Rightarrow> Some (self, Some e)
      | Some (Inr closestNodes) \<Rightarrow>
          (case insert_matches self index closestNodes of
             (self', Some e) \<Rightarrow> Some (self', Some e)
           | (self', None) \<Rightarrow> fill_buckets ask self' (Suc index) rest))"

text \<open>One round: the node after it, the messages sent, and the exception that ended it.\<close>

definition bootstrap_round ::
  "(string \<Rightarrow> bool) \<Rightarrow> responder \<Rightarrow> (nat \<Rightarrow> nat) \<Rightarrow> node \<Rightarrow> (node \<times> sent list \<times> error option) option"
where
  "bootstrap_round reach ask draw self =
     (case bucket_targets (CID self) draw of
        Inl e \<Rightarrow> Some (self, [], Some e)
      | Inr targets \<Rightarrow>
          (case announce reach (publicIP self) (CID self) (bootstrapIPs self) of
             (out, Some e) \<Rightarrow> Some (self, out, Some e)
           | (out, None) \<Rightarrow>
               map_option (\<lambda>(self', err). (self', out, err)) (fill_buckets ask self 0 targets)))"

text \<open>
  The first rounds of \<open>while True\<close>, one random draw function per round; the loop
  itself never ends, so a finite prefix of its rounds is what can be observed.
\<close>

fun bootstrap_rounds ::
  "(string \<Rightarrow> bool) \<Rightarrow> responder \<Rightarrow> (nat \<Rightarrow> nat) list \<Rightarrow> node \<Rightarrow> (node \<times> sent list \<times> error option) option"
where
  "bootstrap_rounds reach ask [] self = Some (self, [], None)"
| "bootstrap_rounds reach ask (draw # draws) self =
     (case bootstrap_round reach ask draw self of
        None \<Rightarrow> None
      | Some (self', out, Some e) \<Rightarrow> Some (self', out, Some e)
      | Some (self', out, None) \<Rightarrow>
          map_option (\<lambda>(s'', out', err). (s'', out @ out', err)) (bootstrap_rounds reach ask draws self'))"

section \<open>Lemmas\<close>

text \<open>Insertions of the fill phase only go to the bucket their index names, never to \<open>-1\<close>.\<close>

lemma insert_matches_inv:
  assumes "dht_inv (CID self) (DHT self)" and "insert_matches self index cs = (self', err)"
  shows "dht_inv (CID self') (DHT self') \<and> CID self' = CID self \<and> publicIP self' = publicIP self \<and>
         bootstrapIPs self' = bootstrapIPs self \<and> mset (concat (DHT self)) \<subseteq># mset (concat (DHT self'))"
  using assms
proof (induction self index cs rule: insert_matches.induct)
  case (1 self index)
  then show ?case by simp
next
  case (2 self index c cs)
  show ?case
  proof (cases "getBucketIndex (CID self) (cid_of c)")
    case (Inl e)
    with "2.prems" show ?thesis by simp
  next
    case (Inr b)
    show ?thesis
    proof (cases "b = int index")
      case True
      show ?thesis
      proof (cases "addNode self (ip_of c) (cid_of c)")
        case (Inl e)
        with Inr True "2.prems" show ?thesis by simp
      next
        case (Inr s1)
        have "getBucketIndex (CID self) (cid_of c) \<noteq> Inr (-1)"
          using \<open>getBucketIndex (CID self) (cid_of c) = Inr b\<close> True by simp
        with "2.prems"(1) Inr have inv1: "dht_inv (CID s1) (DHT s1)"
          by (metis addNode_keeps_dht_inv prod.collapse)
        have f1: "CID s1 = CID self \<and> publicIP s1 = publicIP self \<and> bootstrapIPs s1 = bootstrapIPs self"
          using addNode_fields [OF Inr] by simp
        have m1: "mset (concat (DHT s1)) = add_mset c (mset (concat (DHT self)))"
          using addNode_mset [OF Inr] by simp
        from "2.prems"(2) \<open>getBucketIndex (CID self) (cid_of c) = Inr b\<close> True Inr
        have "insert_matches s1 index cs = (self', err)" by simp
        from "2.IH"(1) [OF \<open>getBucketIndex (CID self) (cid_of c) = Inr b\<close> True Inr inv1 this] f1
        have "dht_inv (CID self') (DHT self') \<and> CID self' = CID self \<and> publicIP self' = publicIP self \<and>
          bootstrapIPs self' = bootstrapIPs self" and "mset (concat (DHT s1)) \<subseteq># mset (concat (DHT self'))"
          by auto
        moreover have "mset (concat (DHT self)) \<subseteq># mset (concat (DHT s1))"
          using m1 by simp
        ultimately show ?thesis by (auto intro: subset_mset.order_trans)
      qed
    next
      case False
      with Inr "2.prems"(2) have "insert_matches self index cs = (self', err)" by simp
      from "2.IH"(2) [OF Inr False "2.prems"(1) this] show ?thesis .
    qed
  qed
qed

lemma fill_buckets_inv:
  assumes "dht_inv (CID self) (DHT self)" and "fill_buckets ask self index ts = Some (self', err)"
  shows "dht_inv (CID self') (DHT self') \<and> CID self' = CID self \<and> publicIP self' = publicIP self \<and>
         bootstrapIPs self' = bootstrapIPs self \<and> mset (concat (DHT self)) \<subseteq># mset (concat (DHT self'))"
  using assms
proof (induction ts arbitrary: self index)
  case Nil
  then show ?case by simp
next
  case (Cons t ts)
  show ?case
  proof (cases "deepNodeSearch ask self t 5")
    case None
    with Cons.prems show ?thesis by simp
  next
    case (Some r)
    show ?thesis
    proof (cases r)
      case (Inl e)
      with Some Cons.prems show ?thesis by simp
    next
      case (Inr cl)
      obtain s1 e1 where im: "insert_matches self index cl = (s1, e1)"
        by (cases "insert_matches self index cl") auto
      note i1 = insert_matches_inv [OF Cons.prems(1) im]
      show ?thesis
      proof (cases e1)
        case None
        with Cons.prems(2) Some Inr im have "fill_buckets ask s1 (Suc index) ts = Some (self', err)"
          by simp
        from Cons.IH [OF conjunct1 [OF i1] this] i1 show ?thesis
          by (auto intro: subset_mset.order_trans)
      next
        case (Some e)
        with Cons.prems(2) \<open>deepNodeSearch ask self t 5 = Some r\<close> Inr im i1 show ?thesis by auto
      qed
    qed
  qed
qed

subsection \<open>A table of copies of one contact\<close>

lemma getClosestCIDs_copies:
  "concat (DHT self) = replicate k c \<Longrightarrow> xor_key t c = Inr d \<Longrightarrow>
   getClosestCIDs self t n = Inr (replicate (min n k) c)"
  by (simp add: getClosestCIDs_Inr_iff)

lemma deep_loop_copies:
  assumes d: "xor_key t c = Inr d" and quiet: "ask t (ip_of c) = Some (Inr [])" and m: "0 < m"
  shows "deep_loop ask t 5 (replicate m c) [] PInf = Some (Inr (replicate (min 5 m) c, [c]))"
proof -
  obtain m' where m': "m = Suc m'" using m by (cases m) auto
  have sel: "select_scan t [] (replicate m c) None PInf = Inr (Some c, PInt (int (bit_length d) - 1))"
    unfolding m' using select_scan_sorted_head [of t c d "replicate m' c"] d by simp
  have sort: "py_sort_by_key (xor_key t) (replicate m c) = Inr (replicate m c)"
    using d by (simp add: py_sort_by_key_Inr)
  have rep: "replicate (min 5 m) c = c # replicate (min 5 m - 1) c"
    using m by (simp add: replicate_Suc [symmetric] del: replicate_Suc)
  have nlt: "\<not> int d < int (bit_length d) - 1"
    using bit_length_less_self [of d] by auto
  show ?thesis
    by (simp add: deep_loop.simps [of ask t 5 "replicate m c" "[]" PInf] sel quiet sort d nlt rep)
qed

lemma deepNodeSearch_copies:
  assumes tab: "concat (DHT self) = replicate k c" and pos: "0 < k"
    and d: "xor_key t c = Inr d" and quiet: "ask t (ip_of c) = Some (Inr [])"
  shows "deepNodeSearch ask self t 5 = Some (Inr (replicate (min 5 k) c))"
proof -
  have "0 < min 20 k" using pos by simp
  with d quiet have "deep_loop ask t 5 (replicate (min 20 k) c) [] PInf =
      Some (Inr (replicate (min 5 (min 20 k)) c, [c]))"
    by (rule deep_loop_copies)
  then show ?thesis
    by (simp add: deepNodeSearch_def getClosestCIDs_copies [OF tab d])
qed

lemma addNode_copies:
  assumes inv: "dht_inv (CID self) (DHT self)" and tab: "concat (DHT self) = replicate k c"
    and b: "getBucketIndex (CID self) (cid_of c) = Inr (int b)" and bl: "b < 160"
  shows "\<exists>s1. addNode self (ip_of c) (cid_of c) = Inr s1 \<and> dht_inv (CID s1) (DHT s1) \<and>
           CID s1 = CID self \<and> publicIP s1 = publicIP self \<and> bootstrapIPs s1 = bootstrapIPs self \<and>
           concat (DHT s1) = replicate (Suc k) c"
proof -
  have len: "length (DHT self) = 160" using inv by (simp add: dht_inv_nth)
  obtain s1 where add: "addNode self (ip_of c) (cid_of c) = Inr s1"
    using b bl len by (simp add: addNode_Inr_iff py_index_def)
  have "getBucketIndex (CID self) (cid_of c) \<noteq> Inr (-1)" using b by simp
  with inv add have "dht_inv (CID s1) (DHT s1)" by (rule addNode_keeps_dht_inv)
  moreover have "mset (concat (DHT s1)) = replicate_mset (Suc k) c"
    using addNode_mset [OF add] tab by simp
  then have "concat (DHT s1) = replicate (Suc k) c" by (rule mset_eq_replicate)
  moreover have "CID s1 = CID self \<and> publicIP s1 = publicIP self \<and> bootstrapIPs s1 = bootstrapIPs self"
    using addNode_fields [OF add] by simp
  ultimately show ?thesis using add by blast
qed

lemma insert_matches_copies:
  assumes "dht_inv (CID self) (DHT self)" and "concat (DHT self) = replicate k c"
    and "getBucketIndex (CID self) (cid_of c) = Inr (int b)" and "b < 160"
  shows "\<exists>s'. insert_matches self index (replicate j c) = (s', None) \<and> dht_inv (CID s') (DHT s') \<and>
           CID s' = CID self \<and> publicIP s' = publicIP self \<and> bootstrapIPs s' = bootstrapIPs self \<and>
           concat (DHT s') = replicate (if b = index then k + j else k) c"
  using assms
proof (induction j arbitrary: self k)
  case 0
  then show ?case by simp
next
  case (Suc j)
  show ?case
  proof (cases "b = index")
    case True
    obtain s1 where add: "addNode self (ip_of c) (cid_of c) = Inr s1" and inv1: "dht_inv (CID s1) (DHT s1)"
      and f1: "CID s1 = CID self \<and> publicIP s1 = publicIP self \<and> bootstrapIPs s1 = bootstrapIPs self"
      and t1: "concat (DHT s1) = replicate (Suc k) c"
      using addNode_copies [OF Suc.prems] by blast
    have b1: "getBucketIndex (CID s1) (cid_of c) = Inr (int b)" using Suc.prems(3) f1 by simp
    obtain s' where im: "insert_matches s1 index (replicate j c) = (s', None)"
      and inv': "dht_inv (CID s') (DHT s')"
      and f': "CID s' = CID s1 \<and> publicIP s' = publicIP s1 \<and> bootstrapIPs s' = bootstrapIPs s1"
      and t': "concat (DHT s') = replicate (if b = index then Suc k + j else Suc k) c"
      using Suc.IH [OF inv1 t1 b1 Suc.prems(4)] by blast
    have "insert_matches self index (replicate (Suc j) c) = (s', None)"
      using Suc.prems(3) True add im by simp
    moreover have "concat (DHT s') = replicate (if b = index then k + Suc j else k) c"
      using t' True by simp
    moreover have "CID s' = CID self \<and> publicIP s' = publicIP self \<and> bootstrapIPs s' = bootstrapIPs self"
      using f' f1 by simp
    ultimately show ?thesis using inv' by blast
  next
    case False
    obtain s' where im: "insert_matches self index (replicate j c) = (s', None)"
      and rest: "dht_inv (CID s') (DHT s') \<and> CID s' = CID self \<and> publicIP s' = publicIP self \<and>
        bootstrapIPs s' = bootstrapIPs self \<and> concat (DHT s') = replicate (if b = index then k + j else k) c"
      using Suc.IH [OF Suc.prems] by blast
    have "insert_matches self index (replicate (Suc j) c) = (s', None)"
      using Suc.prems(3) False im by simp
    moreover have "concat (DHT s') = replicate (if b = index then k + Suc j else k) c"
      using rest False by simp
    ultimately show ?thesis using rest by blast
  qed
qed

lemma fill_buckets_copies:
  assumes "dht_inv (CID self) (DHT self)" and "concat (DHT self) = replicate k c" and "0 < k"
    and "getBucketIndex (CID self) (cid_of c) = Inr (int b)" and "b < 160"
    and quiet: "\<forall>t. ask t (ip_of c) = Some (Inr [])" and hex: "\<forall>t\<in>set ts. \<exists>y. hex_val t = Inr y"
  shows "\<exists>s'. fill_buckets ask self i ts = Some (s', None) \<and> dht_inv (CID s') (DHT s') \<and>
           CID s' = CID self \<and> publicIP s' = publicIP self \<and> bootstrapIPs s' = bootstrapIPs self \<and>
           concat (DHT s') = replicate (if i \<le> b \<and> b < i + length ts then k + min 5 k else k) c"
  using assms
proof (induction ts arbitrary: self i k)
  case Nil
  then show ?case by simp
next
  case (Cons t ts)
  from Cons.prems(4) obtain x where x: "hex_val (cid_of c) = Inr x"
    by (auto simp add: getBucketIndex_Inr_iff)
  from Cons.prems(7) obtain y where "hex_val t = Inr y" by auto
  with x have d: "xor_key t c = Inr (x XOR y)" by (simp add: xor_key_def)
  have look: "deepNodeSearch ask self t 5 = Some (Inr (replicate (min 5 k) c))"
    using deepNodeSearch_copies [OF Cons.prems(2,3) d] quiet by simp
  obtain s1 where im: "insert_matches self i (replicate (min 5 k) c) = (s1, None)"
    and inv1: "dht_inv (CID s1) (DHT s1)"
    and f1: "CID s1 = CID self \<and> publicIP s1 = publicIP self \<and> bootstrapIPs s1 = bootstrapIPs self"
    and t1: "concat (DHT s1) = replicate (if b = i then k + min 5 k else k) c"
    using insert_matches_copies [OF Cons.prems(1,2,4,5)] by blast
  have pos1: "0 < (if b = i then k + min 5 k else k)" using Cons.prems(3) by simp
  have b1: "getBucketIndex (CID s1) (cid_of c) = Inr (int b)" using Cons.prems(4) f1 by simp
  have hex_ts: "\<forall>t\<in>set ts. \<exists>y. hex_val t = Inr y" using Cons.prems(7) by simp
  from Cons.IH [OF inv1 t1 pos1 b1 Cons.prems(5) Cons.prems(6) hex_ts, of "Suc i"] obtain s' where
    rec: "fill_buckets ask s1 (Suc i) ts = Some (s', None)" and inv': "dht_inv (CID s') (DHT s')"
    and f'': "CID s' = CID s1 \<and> publicIP s' = publicIP s1 \<and> bootstrapIPs s' = bootstrapIPs s1"
    and t': "concat (DHT s') = replicate (if Suc i \<le> b \<and> b < Suc i + length ts
                 then (if b = i then k + min 5 k else k) + min 5 (if b = i then k + min 5 k else k)
                 else (if b = i then k + min 5 k else k)) c"
    by blast
  have f': "CID s' = CID self \<and> publicIP s' = publicIP self \<and> bootstrapIPs s' = bootstrapIPs self"
    using f1 f'' by simp
  have "(if Suc i \<le> b \<and> b < Suc i + length ts
          then (if b = i then k + min 5 k else k) + min 5 (if b = i then k + min 5 k else k)
          else (if b = i then k + min 5 k else k)) =
        (if i \<le> b \<and> b < i + length (t # ts) then k + min 5 k else k)"
    by (cases "b = i") auto
  with t' have t'': "concat (DHT s') = replicate (if i \<le> b \<and> b < i + length (t # ts) then k + min 5 k else k) c"
    by simp
  have "fill_buckets ask self i (t # ts) = Some (s', None)"
    using look im rec by simp
  with inv' f' t'' show ?case by blast
qed

lemma bucket_targets_hex:
  "hex_val myCID = Inr m \<Longrightarrow> bucket_targets myCID draw = Inr (map (\<lambda>i. format_040x (m XOR draw i)) [0..<160])"
  unfolding bucket_targets_def by (rule res_mapM_Inr) (simp add: generateTargetCID_def)

lemma announce_reach:
  "\<forall>ip\<in>set ips. reach ip \<Longrightarrow>
   announce reach pub cid ips = (map (\<lambda>ip. (ip, [(nodeInfoRequest, PPair pub cid)])) ips, None)"
  by (induction ips) (simp_all add: sendData_def)

lemma announce_unreachable:
  "\<forall>ip'\<in>set pre. reach ip' \<Longrightarrow> \<not> reach ip \<Longrightarrow>
   announce reach pub cid (pre @ ip # post) =
     (map (\<lambda>ip'. (ip', [(nodeInfoRequest, PPair pub cid)])) pre, Some OSError)"
  by (induction pre) (simp_all add: sendData_def)

lemma bootstrap_round_copies:
  assumes inv: "dht_inv (CID self) (DHT self)" and my: "hex_val (CID self) = Inr m"
    and tab: "concat (DHT self) = replicate k c" and pos: "0 < k"
    and quiet: "\<forall>t. ask t (ip_of c) = Some (Inr [])"
    and reach: "\<forall>ip\<in>set (bootstrapIPs self). reach ip"
  shows "\<exists>s' out. bootstrap_round reach ask draw self = Some (s', out, None) \<and> dht_inv (CID s') (DHT s') \<and>
           CID s' = CID self \<and> bootstrapIPs s' = bootstrapIPs self \<and>
           concat (DHT s') = replicate (k + min 5 k) c"
proof -
  have "c \<in> set (concat (DHT self))" using tab pos by simp
  with inv obtain b where b: "b < 160" "getBucketIndex (CID self) (cid_of c) = Inr (int b)"
    using dht_inv_cids by blast
  let ?ts = "map (\<lambda>i. format_040x (m XOR draw i)) [0..<160]"
  have hex: "\<forall>t\<in>set ?ts. \<exists>y. hex_val t = Inr y" by auto
  obtain s' where fill: "fill_buckets ask self 0 ?ts = Some (s', None)" and inv': "dht_inv (CID s') (DHT s')"
    and f': "CID s' = CID self \<and> publicIP s' = publicIP self \<and> bootstrapIPs s' = bootstrapIPs self"
    and t': "concat (DHT s') = replicate (if 0 \<le> b \<and> b < 0 + length ?ts then k + min 5 k else k) c"
    using fill_buckets_copies [where ask = ask and ts = ?ts and i = 0, OF inv tab pos b(2) b(1) quiet hex]
    by blast
  have "concat (DHT s') = replicate (k + min 5 k) c" using t' b(1) by simp
  moreover have "bootstrap_round reach ask draw self =
      Some (s', map (\<lambda>ip. (ip, [(nodeInfoRequest, PPair (publicIP self) (CID self))])) (bootstrapIPs self), None)"
    using fill by (simp add: bootstrap_round_def bucket_targets_hex [OF my] announce_reach [OF reach])
  ultimately show ?thesis using inv' f' by blast
qed

section \<open>Properties\<close>

text \<open>
  C26. A bootstrap round keeps the bucket invariant and loses no contact, whatever the
  peers answer and whatever the random draws: the fill phase inserts a contact only
  into the bucket its index names, and the test \<open>getBucketIndex(cid) == index\<close> with
  \<open>index \<ge> 0\<close> never admits the node's own CID (index \<open>-1\<close>).
\<close>

theorem bootstrap_round_preserves_dht_inv:
  assumes inv: "dht_inv (CID self) (DHT self)"
    and run: "bootstrap_round reach ask draw self = Some (self', out, err)"
  shows "dht_inv (CID self') (DHT self') \<and> mset (concat (DHT self)) \<subseteq># mset (concat (DHT self'))"
proof (cases "bucket_targets (CID self) draw")
  case (Inl e)
  with run inv show ?thesis by (simp add: bootstrap_round_def)
next
  case (Inr targets)
  obtain o1 e1 where an: "announce reach (publicIP self) (CID self) (bootstrapIPs self) = (o1, e1)"
    by (cases "announce reach (publicIP self) (CID self) (bootstrapIPs self)") auto
  show ?thesis
  proof (cases e1)
    case None
    with run Inr an obtain err' where "fill_buckets ask self 0 targets = Some (self', err')"
      by (auto simp add: bootstrap_round_def)
    from fill_buckets_inv [OF inv this] show ?thesis by auto
  next
    case (Some e)
    with run Inr an inv show ?thesis by (simp add: bootstrap_round_def)
  qed
qed

text \<open>
  C27. The table of a node that knows one peer grows without bound: if all its
  contacts are copies of one contact whose peer answers every query with no contacts,
  each bootstrap round completes and adds at least one more copy of that contact (the
  lookup for the contact's own bucket returns it, and \<open>addNode\<close> appends it again),
  so after \<open>n\<close> rounds the table holds at least \<open>k + n\<close> copies of the single peer.
  The spec requires duplicates to be suppressed and the table to stay within
  \<open>160 \<cdot> K\<close> contacts.
\<close>

theorem bootstrap_table_unbounded:
  assumes "dht_inv (CID self) (DHT self)" and "hex_val (CID self) = Inr m"
    and "concat (DHT self) = replicate k c" and "0 < k"
    and "\<forall>t. ask t (ip_of c) = Some (Inr [])"
    and "\<forall>ip\<in>set (bootstrapIPs self). reach ip"
  shows "\<exists>s' out. bootstrap_rounds reach ask draws self = Some (s', out, None) \<and>
           set (concat (DHT s')) = {c} \<and> k + length draws \<le> length (concat (DHT s'))"
  using assms
proof (induction draws arbitrary: self k)
  case Nil
  then have "concat (DHT self) = replicate k c" and "0 < k" by simp_all
  then show ?case by (simp del: set_concat)
next
  case (Cons draw draws)
  obtain s1 o1 where r1: "bootstrap_round reach ask draw self = Some (s1, o1, None)"
    and inv1: "dht_inv (CID s1) (DHT s1)" and f1: "CID s1 = CID self" "bootstrapIPs s1 = bootstrapIPs self"
    and t1: "concat (DHT s1) = replicate (k + min 5 k) c"
    using bootstrap_round_copies [where reach = reach and ask = ask and draw = draw, OF Cons.prems] by blast
  have pos1: "0 < k + min 5 k" using Cons.prems(4) by simp
  have my1: "hex_val (CID s1) = Inr m" and reach1: "\<forall>ip\<in>set (bootstrapIPs s1). reach ip"
    using Cons.prems(2,6) f1 by simp_all
  obtain s' o2 where rec: "bootstrap_rounds reach ask draws s1 = Some (s', o2, None)"
    and set': "set (concat (DHT s')) = {c}" and len': "k + min 5 k + length draws \<le> length (concat (DHT s'))"
    using Cons.IH [OF inv1 my1 t1 pos1 Cons.prems(5) reach1] by blast
  have "bootstrap_rounds reach ask (draw # draws) self = Some (s', o1 @ o2, None)"
    using r1 rec by simp
  moreover have "k + length (draw # draws) \<le> length (concat (DHT s'))"
    using len' Cons.prems(4) by simp
  ultimately show ?case using set' by blast
qed

text \<open>
  C35. Error path of the bootstrap thread: when one of the bootstrap addresses is
  unreachable, the first round's \<open>sendData\<close> raises OSError after the requests to the
  addresses before it; the thread ends there, whatever the later rounds would draw,
  with the table untouched and no lookup run.
\<close>

theorem bootstrap_unreachable_peer:
  assumes my: "hex_val (CID self) = Inr m"
    and ips: "bootstrapIPs self = pre @ ip # post" and up: "\<forall>ip'\<in>set pre. reach ip'" and down: "\<not> reach ip"
  shows "bootstrap_rounds reach ask (draw # draws) self =
           Some (self, map (\<lambda>ip'. (ip', [(nodeInfoRequest, PPair (publicIP self) (CID self))])) pre, Some OSError)"
  using announce_unreachable [OF up down, of "publicIP self" "CID self" post]
  by (simp add: bootstrap_round_def bucket_targets_hex [OF my] ips)

text \<open>
  C39. The targets of a bootstrap round: for a 160-bit node CID and draws that
  \<open>random.randint\<close> can return, \<open>bucketTargets\<close> has 160 entries and the one at
  position \<open>i\<close> is a well-formed CID in bucket \<open>i\<close>, so every bucket range is probed.
\<close>

theorem bucket_targets_in_buckets:
  assumes my: "hex_val myCID = Inr m" "m < 2 ^ 160"
    and draws: "\<forall>i<160. randint_range i (draw i)"
  shows "\<exists>targets. bucket_targets myCID draw = Inr targets \<and> length targets = 160 \<and>
           (\<forall>i<160. getBucketIndex myCID (targets ! i) = Inr (int i) \<and> valid_cid (targets ! i))"
proof -
  have "\<forall>i<160. getBucketIndex myCID (format_040x (m XOR draw i)) = Inr (int i) \<and>
                valid_cid (format_040x (m XOR draw i))"
    using target_in_bucket [OF my(1)] draws my(2) by blast
  then show ?thesis
    by (simp add: bucket_targets_hex [OF my(1)])
qed

end
