(* ===== verification/Network.thy ===== *)
theory Network
  imports Bootstrap
begin

text \<open>
  Several nodes of \<open>src/Python/DistributedStorageV1.py\<close> on one network. The state
  holds every node by its address (the \<open>Node\<close> objects, one per host), the set of
  addresses whose server thread is still running, and the messages in flight, each
  with its destination. A step is one thing a thread does: a server accepts one
  connection and dispatches it (\<open>receive_one\<close>: its thread ends if that raises),
  a message to an address nobody serves is lost, a bootstrap thread sends its
  \<open>nodeInfoRequest\<close>s, a lookup sends a \<open>closestNodesRequest\<close>, or a bootstrap thread
  runs its fill phase. Messages are delivered in any order (the transport keeps no
  order across connections). The fill phase is taken with an arbitrary responder,
  so the steps include every answer the lookups of a bootstrap round can get: an
  invariant of these steps holds however the lookups' messages interleave.

  The second part composes the dispatcher with the lookup: \<open>net_ask\<close> is what
  \<open>askForClosestNodes\<close> yields in a network where nothing else happens while it
  waits: the peer's dispatcher answers the request, the asking node's dispatcher
  stores the answer in \<open>pendingResponse\<close>, and the polling loop reads it.
\<close>

section \<open>The network and its steps\<close>

record net =
  nodes :: "string \<Rightarrow> node option"
  alive :: "string set"
  inflight :: "sent list"

text \<open>\<open>socket.connect((ip, port))\<close> succeeds when a server thread listens at \<open>ip\<close>.\<close>

definition net_reach :: "net \<Rightarrow> string \<Rightarrow> bool" where
  "net_reach N ip \<longleftrightarrow> ip \<in> alive N \<and> nodes N ip \<noteq> None"

text \<open>All nodes started, every server listening, nothing sent yet.\<close>

definition net_init :: "(string \<Rightarrow> node option) \<Rightarrow> net" where
  "net_init ns = \<lparr>nodes = ns, alive = {a. ns a \<noteq> None}, inflight = []\<rparr>"

inductive net_step :: "net \<Rightarrow> net \<Rightarrow> bool" where
  deliver: "inflight N = pre @ (ip, m) # post \<Longrightarrow> ip \<in> alive N \<Longrightarrow> nodes N ip = Some n \<Longrightarrow>
    receive_one (net_reach N) n m = (n', out, err) \<Longrightarrow>
    net_step N (N\<lparr>nodes := (nodes N)(ip \<mapsto> n'),
                  alive := (if err = None then alive N else alive N - {ip}),
                  inflight := pre @ post @ out\<rparr>)"
| lost: "inflight N = pre @ (ip, m) # post \<Longrightarrow> ip \<notin> alive N \<Longrightarrow>
    net_step N (N\<lparr>inflight := pre @ post\<rparr>)"
| announce: "nodes N a = Some n \<Longrightarrow>
    announce (net_reach N) (publicIP n) (CID n) (bootstrapIPs n) = (out, err) \<Longrightarrow>
    net_step N (N\<lparr>inflight := inflight N @ out\<rparr>)"
| query: "nodes N a = Some n \<Longrightarrow> net_reach N ip \<Longrightarrow>
    net_step N (N\<lparr>inflight := inflight N @ [(ip, [(closestNodesRequest, PPair (publicIP n) t)])]\<rparr>)"
| refresh: "nodes N a = Some n \<Longrightarrow> fill_buckets ask n 0 ts = Some (n', err) \<Longrightarrow>
    net_step N (N\<lparr>nodes := (nodes N)(a \<mapsto> n')\<rparr>)"

section \<open>The lookup's question through the network\<close>

text \<open>
  \<open>askForClosestNodes(cid, ip)\<close> asked by node \<open>self\<close>: \<open>sendData\<close> raises when nobody
  serves \<open>ip\<close>; the peer handles the \<open>closestNodesRequest\<close> (an exception there ends
  its server thread and nothing comes back); the asking node's server handles the
  answer (an exception there ends that thread and the slot stays empty); the polling
  loop returns what the slot holds. No answer is \<open>None\<close>: the loop polls forever. A
  pair where contacts were expected makes the lookup's sort key raise ValueError.
\<close>

definition net_ask :: "net \<Rightarrow> node \<Rightarrow> responder" where
  "net_ask N self t ip =
     (case nodes N ip of
        None \<Rightarrow> Some (Inl OSError)
      | Some peer \<Rightarrow>
          if ip \<notin> alive N then Some (Inl OSError)
          else
            (case receive_one (net_reach N) peer [(closestNodesRequest, PPair (publicIP self) t)] of
               (_, [(_, resp)], None) \<Rightarrow>
                 (case receive_one (net_reach N) self resp of
                    (self', _, None) \<Rightarrow>
                      (case pendingResponse self' of
                         Some (PContacts cs) \<Rightarrow> Some (Inr cs)
                       | Some (PPair _ _) \<Rightarrow> Some (Inl ValueError)
                       | None \<Rightarrow> None)
                  | _ \<Rightarrow> None)
             | _ \<Rightarrow> None))"

section \<open>The shapes of messages\<close>

text \<open>
  The four dictionaries the code sends: a pair under one of the three request and
  \<open>nodeInfoResponse\<close> keys, or a list of contacts under \<open>closestNodesResponse\<close>.
\<close>

fun msg_shape :: "message \<Rightarrow> bool" where
  "msg_shape [(k, PPair a b)] \<longleftrightarrow> k = nodeInfoRequest \<or> k = nodeInfoResponse \<or> k = closestNodesRequest"
| "msg_shape [(k, PContacts cs)] \<longleftrightarrow> k = closestNodesResponse"
| "msg_shape _ \<longleftrightarrow> False"

section \<open>The network invariant\<close>

text \<open>
  Every node's table is well formed, every node sits at its own public address with
  a hexadecimal CID and without its own address among its bootstrap peers, no two
  nodes share a CID value, and every \<open>nodeInfo\<close> message in flight names a node
  other than its destination by that node's address and CID.
\<close>

definition honest_msg :: "net \<Rightarrow> sent \<Rightarrow> bool" where
  "honest_msg N dm \<longleftrightarrow>
     (\<forall>k\<in>{nodeInfoRequest, nodeInfoResponse}. \<forall>ip cid. map_of (snd dm) k = Some (PPair ip cid) \<longrightarrow>
        ip \<noteq> fst dm \<and> (\<exists>n. nodes N ip = Some n \<and> CID n = cid))"

definition net_inv :: "net \<Rightarrow> bool" where
  "net_inv N \<longleftrightarrow>
     (\<forall>a n. nodes N a = Some n \<longrightarrow>
        dht_inv (CID n) (DHT n) \<and> publicIP n = a \<and> a \<notin> set (bootstrapIPs n) \<and>
        (\<exists>x. hex_val (CID n) = Inr x)) \<and>
     (\<forall>a b na nb. nodes N a = Some na \<longrightarrow> nodes N b = Some nb \<longrightarrow>
        hex_val (CID na) = hex_val (CID nb) \<longrightarrow> a = b) \<and>
     (\<forall>dm\<in>set (inflight N). honest_msg N dm)"

section \<open>Lemmas\<close>

lemma announce_sent:
  "announce reach pub cid ips = (out, err) \<Longrightarrow> (d, m) \<in> set out \<Longrightarrow>
   d \<in> set ips \<and> m = [(nodeInfoRequest, PPair pub cid)]"
proof (induction ips arbitrary: out err)
  case Nil
  then show ?case by simp
next
  case (Cons ip ips)
  obtain o2 e2 where r: "announce reach pub cid ips = (o2, e2)"
    by (cases "announce reach pub cid ips") auto
  show ?case
  proof (cases "reach ip")
    case True
    with Cons.prems(1) r have "out = (ip, [(nodeInfoRequest, PPair pub cid)]) # o2"
      by (simp add: sendData_def)
    with Cons.prems(2) Cons.IH [OF r] show ?thesis by auto
  next
    case False
    with Cons.prems show ?thesis by (simp add: sendData_def)
  qed
qed

text \<open>Every step sends only messages of the four shapes.\<close>

lemma net_step_shapes:
  assumes step: "net_step N N'" and wf: "\<forall>dm\<in>set (inflight N). msg_shape (snd dm)"
  shows "\<forall>dm\<in>set (inflight N'). msg_shape (snd dm)"
  using step
proof cases
  case (deliver pre ip m post n n' out err)
  have "msg_shape m'" if "(d, m') \<in> set out" for d m'
    using receive_one_sent [OF deliver(5) that] by auto
  with wf deliver(1,2) show ?thesis by fastforce
next
  case (lost pre ip m post)
  with wf show ?thesis by auto
next
  case (announce a n out err)
  have "msg_shape m'" if "(d, m') \<in> set out" for d m'
    using announce_sent [OF announce(3) that] by simp
  with wf announce(1) show ?thesis by fastforce
next
  case (query a n ip t)
  with wf show ?thesis by auto
next
  case (refresh a n ask ts n' err)
  with wf show ?thesis by simp
qed

text \<open>A message stays honest when every node keeps its CID.\<close>

lemma honest_msg_mono:
  assumes "honest_msg N dm"
    and "\<forall>ip n. nodes N ip = Some n \<longrightarrow> (\<exists>n'. nodes N' ip = Some n' \<and> CID n' = CID n)"
  shows "honest_msg N' dm"
  using assms unfolding honest_msg_def by metis

lemma honest_msg_updates [simp]:
  "honest_msg (N\<lparr>inflight := x\<rparr>) = honest_msg N" "honest_msg (N\<lparr>alive := y\<rparr>) = honest_msg N"
  by (simp_all add: honest_msg_def fun_eq_iff)

lemma honest_msg_other_key:
  "(\<forall>k\<in>{nodeInfoRequest, nodeInfoResponse}. map_of m k = None) \<Longrightarrow> honest_msg N (d, m)"
  by (simp add: honest_msg_def)

text \<open>A \<open>nodeInfo\<close> message that is honest never makes its receiver insert its own CID.\<close>

lemma honest_not_self:
  assumes inv: "net_inv N" and h: "honest_msg N (ip, m)" and n: "nodes N ip = Some n"
  shows "\<forall>k\<in>{nodeInfoRequest, nodeInfoResponse}. \<forall>ip' cid.
           map_of m k = Some (PPair ip' cid) \<longrightarrow> getBucketIndex (CID n) cid \<noteq> Inr (-1)"
proof (intro ballI allI impI notI)
  fix k ip' cid
  assume "k \<in> {nodeInfoRequest, nodeInfoResponse}" and "map_of m k = Some (PPair ip' cid)"
    and self: "getBucketIndex (CID n) cid = Inr (-1)"
  with h obtain n' where ne: "ip' \<noteq> ip" and n': "nodes N ip' = Some n'" "CID n' = cid"
    by (auto simp add: honest_msg_def)
  from self obtain x where "hex_val (CID n) = Inr x" "hex_val cid = Inr x"
    by (auto simp add: getBucketIndex_minus_one)
  with inv n n' have "ip = ip'" by (auto simp add: net_inv_def)
  with ne show False by simp
qed

lemma net_step_inv:
  assumes "net_step N N'" and "net_inv N"
  shows "net_inv N'"
  using assms
proof (induction rule: net_step.induct)
  case (deliver N pre ip m post n n' out err)
  have keep: "CID n' = CID n \<and> publicIP n' = publicIP n \<and> bootstrapIPs n' = bootstrapIPs n"
    using receive_one_keeps [OF deliver.hyps(4)] .
  have hm: "honest_msg N (ip, m)"
    using deliver.prems deliver.hyps(1) by (auto simp add: net_inv_def)
  have inv': "dht_inv (CID n') (DHT n')"
    using receive_one_dht_inv [OF _ honest_not_self [OF deliver.prems hm deliver.hyps(3)] deliver.hyps(4)]
      deliver.prems deliver.hyps(3) by (auto simp add: net_inv_def)
  let ?N' = "N\<lparr>nodes := (nodes N)(ip \<mapsto> n'), alive := (if err = None then alive N else alive N - {ip}),
                 inflight := pre @ post @ out\<rparr>"
  have cids: "\<forall>a na. nodes N a = Some na \<longrightarrow> (\<exists>nb. nodes ?N' a = Some nb \<and> CID nb = CID na)"
    using keep deliver.hyps(3) by auto
  have old: "\<forall>dm\<in>set (pre @ post). honest_msg ?N' dm"
    using deliver.prems deliver.hyps(1) honest_msg_mono [OF _ cids] by (auto simp add: net_inv_def)
  have new: "\<forall>dm\<in>set out. honest_msg ?N' dm"
  proof
    fix dm assume mem: "dm \<in> set out"
    obtain d m' where dm: "dm = (d, m')" by (cases dm)
    with mem have "(d, m') \<in> set out" by simp
    from receive_one_sent [OF deliver.hyps(4) this] show "honest_msg ?N' dm"
    proof
      assume "m' = [(nodeInfoResponse, PPair (publicIP n) (CID n))] \<and>
              (\<exists>cid. map_of m nodeInfoRequest = Some (PPair d cid))"
      then obtain cid where m': "m' = [(nodeInfoResponse, PPair (publicIP n) (CID n))]"
        and req: "map_of m nodeInfoRequest = Some (PPair d cid)" by blast
      from hm req have "d \<noteq> ip" by (auto simp add: honest_msg_def)
      moreover have "publicIP n = ip"
        using deliver.prems deliver.hyps(3) by (auto simp add: net_inv_def)
      ultimately show ?thesis
        using keep by (simp add: dm m' honest_msg_def)
    next
      assume "\<exists>cs. m' = [(closestNodesResponse, PContacts cs)]"
      then show ?thesis by (auto simp add: dm intro: honest_msg_other_key)
    qed
  qed
  show ?case
    using deliver.prems keep inv' old new deliver.hyps(3)
    unfolding net_inv_def by (auto split: if_splits)
next
  case (lost N pre ip m post)
  then show ?case by (auto simp add: net_inv_def)
next
  case (announce N a n out err)
  have "\<forall>dm\<in>set out. honest_msg N dm"
  proof
    fix dm assume dmo: "dm \<in> set out"
    obtain d m where dm: "dm = (d, m)" by (cases dm)
    with dmo have mem: "(d, m) \<in> set out" by simp
    from announce_sent [OF announce.hyps(2) mem]
    have "d \<in> set (bootstrapIPs n)" and m: "m = [(nodeInfoRequest, PPair (publicIP n) (CID n))]"
      by simp_all
    moreover have "publicIP n = a" and "a \<notin> set (bootstrapIPs n)"
      using announce.prems announce.hyps(1) by (auto simp add: net_inv_def)
    ultimately show "honest_msg N dm"
      using announce.hyps(1) by (auto simp add: dm honest_msg_def)
  qed
  with announce.prems show ?case by (auto simp add: net_inv_def honest_msg_def)
next
  case (query N a n ip t)
  have "honest_msg N (ip, [(closestNodesRequest, PPair (publicIP n) t)])"
    by (rule honest_msg_other_key) simp
  with query.prems show ?case by (auto simp add: net_inv_def honest_msg_def)
next
  case (refresh N a n ask ts n' err)
  have inv: "dht_inv (CID n) (DHT n)" using refresh.prems refresh.hyps(1) by (auto simp add: net_inv_def)
  note f = fill_buckets_inv [OF inv refresh.hyps(2)]
  let ?N' = "N\<lparr>nodes := (nodes N)(a \<mapsto> n')\<rparr>"
  have cids: "\<forall>b na. nodes N b = Some na \<longrightarrow> (\<exists>nb. nodes ?N' b = Some nb \<and> CID nb = CID na)"
    using f refresh.hyps(1) by auto
  have "\<forall>dm\<in>set (inflight N). honest_msg ?N' dm"
    using refresh.prems honest_msg_mono [OF _ cids] by (auto simp add: net_inv_def)
  then show ?case
    using refresh.prems refresh.hyps(1) f unfolding net_inv_def by (auto split: if_splits)
qed

lemma net_steps_inv: "net_step\<^sup>*\<^sup>* N N' \<Longrightarrow> net_inv N \<Longrightarrow> net_inv N'"
  by (induction rule: rtranclp_induct) (auto intro: net_step_inv)

lemma net_inv_init:
  assumes "\<forall>a n. ns a = Some n \<longrightarrow> dht_inv (CID n) (DHT n) \<and> publicIP n = a \<and>
             a \<notin> set (bootstrapIPs n) \<and> (\<exists>x. hex_val (CID n) = Inr x)"
    and "\<forall>a b na nb. ns a = Some na \<longrightarrow> ns b = Some nb \<longrightarrow> hex_val (CID na) = hex_val (CID nb) \<longrightarrow> a = b"
  shows "net_inv (net_init ns)"
  using assms by (simp add: net_inv_def net_init_def)

text \<open>
  The question and its answer on the wire: when the request fits the window and the
  peer's table yields contacts, the asking node gets them back exactly when its own
  server is up and the answer fits the window; otherwise the lookup waits forever.
\<close>

lemma net_ask_answer:
  assumes peer: "nodes N ip = Some B" "ip \<in> alive N"
    and req: "receive_frame [(closestNodesRequest, PPair (publicIP self) t)] =
              Inr [(closestNodesRequest, PPair (publicIP self) t)]"
    and cs: "getClosestCIDs B t 20 = Inr cs"
  shows "net_ask N self t ip =
         (if net_reach N (publicIP self) \<and>
             length (wire_text [(closestNodesResponse, PContacts cs)]) \<le> recv_window
          then Some (Inr cs) else None)"
proof -
  have resp: "receive_one r self [(closestNodesResponse, PContacts cs)] =
     (if length (wire_text [(closestNodesResponse, PContacts cs)]) \<le> recv_window
      then (self\<lparr>pendingResponse := Some (PContacts cs)\<rparr>, [], None) else (self, [], Some ValueError))" for r
    by (simp add: receive_one_def receive_frame_def receiveData_step_def)
  show ?thesis
    using peer cs
    by (simp add: net_ask_def receive_one_fits [OF req] receiveData_step_def sendData_def resp)
qed

lemma net_ask_fits:
  assumes peer: "nodes N ip = Some B" "ip \<in> alive N"
    and req: "receive_frame [(closestNodesRequest, PPair (publicIP self) t)] =
              Inr [(closestNodesRequest, PPair (publicIP self) t)]"
    and cs: "getClosestCIDs B t 20 = Inr cs"
    and resp: "receive_frame [(closestNodesResponse, PContacts cs)] = Inr [(closestNodesResponse, PContacts cs)]"
    and home: "net_reach N (publicIP self)"
  shows "net_ask N self t ip = Some (Inr cs)"
  using net_ask_answer [OF peer req cs] resp home by (simp add: receive_frame_def split: if_splits)

lemma net_ask_small:
  assumes peer: "nodes N ip = Some B" "ip \<in> alive N" and home: "net_reach N (publicIP self)"
    and addr: "length (publicIP self) \<le> 100" and tl: "length t \<le> 40"
    and cs: "getClosestCIDs B t 20 = Inr cs" and n: "length cs \<le> 10"
    and shape: "\<forall>c\<in>set cs. length (cid_of c) = 40 \<and> list_all json_plain (cid_of c) \<and>
                  list_all json_plain (ip_of c) \<and> length (ip_of c) \<le> 15"
  shows "net_ask N self t ip = Some (Inr cs)"
proof -
  have req: "receive_frame [(closestNodesRequest, PPair (publicIP self) t)] =
             Inr [(closestNodesRequest, PPair (publicIP self) t)]"
    using addr tl by (intro receive_frame_pair) simp_all
  show ?thesis
    by (rule net_ask_fits [OF peer req cs receive_frame_response_short [OF n shape] home])
qed

lemma net_ask_long_answer:
  assumes peer: "nodes N ip = Some B" "ip \<in> alive N"
    and inv: "dht_inv (CID B) (DHT B)" and tgt: "hex_val t = Inr y" "length t \<le> 40"
    and addr: "length (publicIP self) \<le> 100"
    and big: "12 \<le> length (concat (DHT B))"
    and shape: "\<forall>c\<in>set (concat (DHT B)). 40 \<le> length (cid_of c) \<and> 7 \<le> length (ip_of c)"
  shows "net_ask N self t ip = None"
proof -
  obtain cs where cs: "getClosestCIDs B t 20 = Inr cs"
    using dht_inv_keys [OF inv tgt(1)] by (auto simp add: getClosestCIDs_Inr_iff)
  have req: "receive_frame [(closestNodesRequest, PPair (publicIP self) t)] =
             Inr [(closestNodesRequest, PPair (publicIP self) t)]"
    using addr tgt(2) by (intro receive_frame_pair) simp_all
  have "12 \<le> length cs"
    using getClosestCIDs_length [OF cs] big by simp
  moreover have "\<forall>c\<in>set cs. 40 \<le> length (cid_of c) \<and> 7 \<le> length (ip_of c)"
    using getClosestCIDs_seeds [OF cs] shape by blast
  ultimately have "receive_frame [(closestNodesResponse, PContacts cs)] = Inl ValueError"
    by (rule receive_frame_response_long)
  then show ?thesis
    using net_ask_answer [OF peer req cs] by (simp add: receive_frame_def split: if_splits)
qed

text \<open>Two ways the network steps, as the runs below use them.\<close>

lemma net_step_deliver_ok:
  assumes "inflight N = (ip, m) # post" and "ip \<in> alive N" and "nodes N ip = Some n"
    and "receive_one (net_reach N) n m = (n', out, None)"
  shows "net_step N (N\<lparr>nodes := (nodes N)(ip \<mapsto> n'), inflight := post @ out\<rparr>)"
proof -
  have "net_step N (N\<lparr>nodes := (nodes N)(ip \<mapsto> n'),
      alive := (if (None :: error option) = None then alive N else alive N - {ip}),
      inflight := [] @ post @ out\<rparr>)"
    by (rule net_step.deliver) (use assms in simp_all)
  then show ?thesis by simp
qed

lemma net_step_announce_all:
  assumes "nodes N a = Some n" and "\<forall>ip\<in>set (bootstrapIPs n). net_reach N ip"
  shows "net_step N (N\<lparr>inflight := inflight N @
           map (\<lambda>ip. (ip, [(nodeInfoRequest, PPair (publicIP n) (CID n))])) (bootstrapIPs n)\<rparr>)"
  using net_step.announce [OF assms(1) announce_reach [OF assms(2)]] .

lemma net_step_nodeInfoRequest:
  assumes q: "inflight N = (d, [(nodeInfoRequest, PPair a cid)]) # post"
    and up: "d \<in> alive N" "nodes N d = Some n" and home: "net_reach N a"
    and fit: "length a \<le> 100" "length cid \<le> 40"
    and add: "addNode n a cid = Inr n'"
  shows "net_step N (N\<lparr>nodes := (nodes N)(d \<mapsto> n'),
           inflight := post @ [(a, [(nodeInfoResponse, PPair (publicIP n) (CID n))])]\<rparr>)"
proof -
  have "receive_frame [(nodeInfoRequest, PPair a cid)] = Inr [(nodeInfoRequest, PPair a cid)]"
    using fit by (intro receive_frame_pair) simp_all
  then have "receive_one (net_reach N) n [(nodeInfoRequest, PPair a cid)] =
             (n', [(a, [(nodeInfoResponse, PPair (publicIP n) (CID n))])], None)"
    using add home addNode_fields [OF add]
    by (simp add: receive_one_fits receiveData_step_def sendData_def)
  then show ?thesis by (rule net_step_deliver_ok [OF q up])
qed

lemma net_step_nodeInfoResponse:
  assumes q: "inflight N = (d, [(nodeInfoResponse, PPair a cid)]) # post"
    and up: "d \<in> alive N" "nodes N d = Some n"
    and fit: "length a \<le> 100" "length cid \<le> 40"
    and add: "addNode n a cid = Inr n'"
  shows "net_step N (N\<lparr>nodes := (nodes N)(d \<mapsto> n'), inflight := post\<rparr>)"
proof -
  have "receive_frame [(nodeInfoResponse, PPair a cid)] = Inr [(nodeInfoResponse, PPair a cid)]"
    using fit by (intro receive_frame_pair) simp_all
  then have "receive_one (net_reach N) n [(nodeInfoResponse, PPair a cid)] = (n', [], None)"
    using add by (simp add: receive_one_fits receiveData_step_def)
  then show ?thesis using net_step_deliver_ok [OF q up] by simp
qed

section \<open>Properties\<close>

text \<open>
  C28. In every run of a network whose nodes start with well-formed tables, sit at
  their public addresses with distinct hexadecimal CIDs, and do not list their own
  address as a bootstrap peer, every node's table stays well formed: whatever the
  order of deliveries, lost messages, crashed servers and lookup answers, no node
  stores a contact outside the bucket its index names, and none stores its own CID.
\<close>

theorem network_dht_inv:
  assumes run: "net_step\<^sup>*\<^sup>* (net_init ns) N"
    and start: "\<forall>a n. ns a = Some n \<longrightarrow> dht_inv (CID n) (DHT n) \<and> publicIP n = a \<and>
             a \<notin> set (bootstrapIPs n) \<and> (\<exists>x. hex_val (CID n) = Inr x)"
    and distinct: "\<forall>a b na nb. ns a = Some na \<longrightarrow> ns b = Some nb \<longrightarrow> hex_val (CID na) = hex_val (CID nb) \<longrightarrow> a = b"
  shows "\<forall>a n. nodes N a = Some n \<longrightarrow> dht_inv (CID n) (DHT n)"
  using net_steps_inv [OF run net_inv_init [OF start distinct]] by (simp add: net_inv_def)

text \<open>
  C29. Refinement of the lookup's responder by the network: a question to a running
  peer with a well-formed table of at most ten contacts (40-digit CIDs and addresses
  of at most 15 characters, written without escapes), from a node whose own server
  is up, for a hexadecimal target, gets exactly the peer's \<open>getClosestCIDs(cid, 20)\<close>
  back through \<open>sendData\<close>, both dispatchers and the response slot.
\<close>

theorem net_ask_refines:
  assumes peer: "nodes N ip = Some B" "ip \<in> alive N" and home: "net_reach N (publicIP self)"
    and inv: "dht_inv (CID B) (DHT B)" and tgt: "hex_val t = Inr y" "length t \<le> 40"
    and addr: "length (publicIP self) \<le> 100"
    and small: "length (concat (DHT B)) \<le> 10"
    and shape: "\<forall>c\<in>set (concat (DHT B)). length (cid_of c) = 40 \<and> list_all json_plain (cid_of c) \<and>
                  list_all json_plain (ip_of c) \<and> length (ip_of c) \<le> 15"
  shows "net_ask N self t ip = Some (getClosestCIDs B t 20)"
proof -
  obtain cs where cs: "getClosestCIDs B t 20 = Inr cs"
    using dht_inv_keys [OF inv tgt(1)] by (auto simp add: getClosestCIDs_Inr_iff)
  have "length cs \<le> 10"
    using getClosestCIDs_length [OF cs] small by simp
  moreover have "\<forall>c\<in>set cs. length (cid_of c) = 40 \<and> list_all json_plain (cid_of c) \<and>
                  list_all json_plain (ip_of c) \<and> length (ip_of c) \<le> 15"
    using getClosestCIDs_seeds [OF cs] shape by blast
  ultimately show ?thesis
    using net_ask_small [OF peer home addr tgt(2) cs] cs by simp
qed

text \<open>
  C30. Over the real network a lookup hangs when the closest contact of the asking
  node's table runs a peer that knows twelve or more contacts: the peer's answer
  does not fit the asking node's 1024-byte receive window, the asking node's server
  thread dies on the cut frame, and the polling loop waits forever.
\<close>

theorem deepNodeSearch_network_hangs:
  assumes seeds: "getClosestCIDs self t 20 = Inr (c # cs)"
    and peer: "nodes N (ip_of c) = Some B" "ip_of c \<in> alive N"
    and inv: "dht_inv (CID B) (DHT B)" and tgt: "hex_val t = Inr y" "length t \<le> 40"
    and addr: "length (publicIP self) \<le> 100"
    and big: "12 \<le> length (concat (DHT B))"
    and shape: "\<forall>c\<in>set (concat (DHT B)). 40 \<le> length (cid_of c) \<and> 7 \<le> length (ip_of c)"
  shows "deepNodeSearch (net_ask N self) self t amount = None"
proof -
  have "net_ask N self t (ip_of c) = None"
    by (rule net_ask_long_answer [OF peer inv tgt addr big shape])
  from deep_loop_first_silent [where ask = "net_ask N self" and amount = amount, OF seeds this]
  show ?thesis using seeds by (simp add: deepNodeSearch_def)
qed

text \<open>
  C31. Two fresh nodes with distinct 160-bit CIDs, the first listing the second as
  its bootstrap peer, learn each other: the first's \<open>nodeInfoRequest\<close> and the
  second's \<open>nodeInfoResponse\<close> leave each one with exactly the other in one common
  bucket, and nothing in flight.
\<close>

theorem two_node_join:
  assumes X: "DHT X = replicate 160 []" "publicIP X = a" "bootstrapIPs X = [b]"
    and Y: "DHT Y = replicate 160 []" "publicIP Y = b"
    and ne: "a \<noteq> b"
    and hx: "hex_val (CID X) = Inr x" "x < 2 ^ 160" "length (CID X) \<le> 40"
    and hy: "hex_val (CID Y) = Inr y" "y < 2 ^ 160" "length (CID Y) \<le> 40"
    and dist: "x \<noteq> y"
    and addr: "length a \<le> 100" "length b \<le> 100"
  shows "\<exists>N i. net_step\<^sup>*\<^sup>* (net_init [a \<mapsto> X, b \<mapsto> Y]) N \<and> i < 160 \<and> inflight N = [] \<and>
           nodes N a = Some (X\<lparr>DHT := (replicate 160 [])[i := [(CID Y, b)]]\<rparr>) \<and>
           nodes N b = Some (Y\<lparr>DHT := (replicate 160 [])[i := [(CID X, a)]]\<rparr>)"
proof -
  obtain i where i: "i < 160" and gxy: "getBucketIndex (CID X) (CID Y) = Inr (int i)"
    using getBucketIndex_distinct [OF hx(1) hy(1) dist hx(2) hy(2)] by blast
  have gyx: "getBucketIndex (CID Y) (CID X) = Inr (int i)"
    using gxy hx(1) hy(1) by (simp add: getBucketIndex_def xor.commute)
  define X1 where "X1 = X\<lparr>DHT := (replicate 160 [])[i := [(CID Y, b)]]\<rparr>"
  define Y1 where "Y1 = Y\<lparr>DHT := (replicate 160 [])[i := [(CID X, a)]]\<rparr>"
  define N0 where "N0 = net_init [a \<mapsto> X, b \<mapsto> Y]"
  define N1 where "N1 = N0\<lparr>inflight := [(b, [(nodeInfoRequest, PPair a (CID X))])]\<rparr>"
  define N2 where "N2 = N1\<lparr>nodes := (nodes N1)(b \<mapsto> Y1), inflight := [(a, [(nodeInfoResponse, PPair b (CID Y))])]\<rparr>"
  define N3 where "N3 = N2\<lparr>nodes := (nodes N2)(a \<mapsto> X1), inflight := []\<rparr>"
  have s1: "net_step N0 N1"
    using net_step_announce_all [of N0 a X] X ne
    by (simp add: N0_def N1_def net_init_def net_reach_def)
  have s2: "net_step N1 N2"
    using net_step_nodeInfoRequest [of N1 b a "CID X" "[]" Y Y1] addr hx(3) Y ne
      addNode_fresh [OF Y(1) gyx i, of a]
    by (simp add: N2_def N1_def N0_def net_init_def net_reach_def Y1_def)
  have s3: "net_step N2 N3"
    using net_step_nodeInfoResponse [of N2 a b "CID Y" "[]" X X1] addr hy(3) ne
      addNode_fresh [OF X(1) gxy i, of b]
    by (simp add: N3_def N2_def N1_def N0_def net_init_def X1_def)
  have "net_step\<^sup>*\<^sup>* N0 N3"
    using s1 s2 s3 by (meson rtranclp.rtrancl_into_rtrancl rtranclp.rtrancl_refl)
  moreover have "nodes N3 a = Some X1" "nodes N3 b = Some Y1" "inflight N3 = []"
    using ne by (simp_all add: N3_def N2_def)
  ultimately show ?thesis
    using i unfolding N0_def X1_def Y1_def by blast
qed

text \<open>
  C32. A node whose bootstrap list names its own address twice (the constructor
  removes one occurrence) announces itself to itself, its server inserts its own
  CID into the last bucket, and its table is no longer well formed.
\<close>

theorem self_bootstrap_breaks_table:
  assumes hx: "hex_val cid = Inr x" "length cid \<le> 40" and addr: "length a \<le> 100"
  shows "\<exists>N X'. net_step\<^sup>*\<^sup>* (net_init [a \<mapsto> init_node a loc p cid [a, a]]) N \<and>
           nodes N a = Some X' \<and> \<not> dht_inv (CID X') (DHT X')"
proof -
  let ?X = "init_node a loc p cid [a, a]"
  define X1 where "X1 = ?X\<lparr>DHT := (replicate 160 [])[159 := [(cid, a)]]\<rparr>"
  define N0 where "N0 = net_init [a \<mapsto> ?X]"
  define N1 where "N1 = N0\<lparr>inflight := [(a, [(nodeInfoRequest, PPair a cid)])]\<rparr>"
  define N2 where "N2 = N1\<lparr>nodes := (nodes N1)(a \<mapsto> X1), inflight := [(a, [(nodeInfoResponse, PPair a cid)])]\<rparr>"
  have gself: "getBucketIndex cid cid = Inr (-1)"
    using hx(1) by (simp add: getBucketIndex_def)
  have s1: "net_step N0 N1"
    using net_step_announce_all [of N0 a ?X]
    by (simp add: N0_def N1_def net_init_def net_reach_def init_node_def)
  have addX: "addNode ?X a cid = Inr X1"
    using gself by (simp add: addNode_def py_append_at_def init_node_def X1_def)
  have s2: "net_step N1 N2"
    using net_step_nodeInfoRequest [OF _ _ _ _ addr hx(2) addX, of N1 a "[]"]
    by (simp add: N2_def N1_def N0_def net_init_def net_reach_def init_node_def)
  have "\<not> dht_inv (CID X1) (DHT X1)"
    by (rule dht_inv_self_entry [where i = 159 and ip = a]) (simp_all add: X1_def init_node_def gself)
  moreover have "net_step\<^sup>*\<^sup>* N0 N2"
    using s1 s2 by (meson rtranclp.rtrancl_into_rtrancl rtranclp.rtrancl_refl)
  moreover have "nodes N2 a = Some X1"
    by (simp add: N2_def)
  ultimately show ?thesis
    unfolding N0_def by blast
qed

text \<open>
  C34. Type of the traffic: in every run of the network, every message in flight is
  one of the four dictionaries the code sends, a pair under \<open>nodeInfoRequest\<close>,
  \<open>nodeInfoResponse\<close> or \<open>closestNodesRequest\<close>, or a list of contacts under
  \<open>closestNodesResponse\<close>; so the \<open>pair_fields\<close> errors of the dispatcher never
  arise between nodes of this program.
\<close>

theorem network_message_shapes:
  assumes run: "net_step\<^sup>*\<^sup>* (net_init ns) N"
  shows "\<forall>dm\<in>set (inflight N). msg_shape (snd dm)"
  using run
proof (induction rule: rtranclp_induct)
  case base
  then show ?case by (simp add: net_init_def)
next
  case (step N N')
  from net_step_shapes [OF step.hyps(2) step.IH] show ?case .
qed

text \<open>
  C36. Scenario 5 of the spec, for any network where it applies: X knows only Y, Y
  knows only Z, Z knows nobody, the CIDs of Y and Z differ, and the answers fit the
  window. X's lookup of Z for one contact asks Y, learns Z, asks Z itself exactly when
  Z's bit index is below Y's (\<open>2 \<le> y XOR z\<close>), and returns exactly Z.
\<close>

theorem three_node_lookup:
  assumes X: "concat (DHT X) = [(cy, ipY)]" "net_reach N (publicIP X)" "length (publicIP X) \<le> 100"
    and Y: "nodes N ipY = Some Y" "ipY \<in> alive N" "concat (DHT Y) = [(cz, ipZ)]"
    and Z: "nodes N ipZ = Some Z" "ipZ \<in> alive N" "concat (DHT Z) = []"
    and hy: "hex_val cy = Inr y" and hz: "hex_val cz = Inr z" and ne: "y \<noteq> z"
    and zs: "length cz = 40" "list_all json_plain cz" "list_all json_plain ipZ" "length ipZ \<le> 15"
  shows "deep_loop (net_ask N X) cz 1 [(cy, ipY)] [] PInf =
           Some (Inr ([(cz, ipZ)], (cy, ipY) # (if 2 \<le> y XOR z then [(cz, ipZ)] else []))) \<and>
         deepNodeSearch (net_ask N X) X cz 1 = Some (Inr [(cz, ipZ)])"
proof -
  let ?ask = "net_ask N X"
  have ky: "xor_key cz (cy, ipY) = Inr (y XOR z)" and kz: "xor_key cz (cz, ipZ) = Inr 0"
    using hy hz by (simp_all add: xor_key_def)
  have gy: "getClosestCIDs Y cz 20 = Inr [(cz, ipZ)]"
    unfolding getClosestCIDs_def Y(3) using kz by (simp add: py_sort_by_key_def)
  have gz: "getClosestCIDs Z cz 20 = Inr []"
    unfolding getClosestCIDs_def Z(3) by (simp add: py_sort_by_key_def)
  have seeds: "getClosestCIDs X cz 20 = Inr [(cy, ipY)]"
    unfolding getClosestCIDs_def X(1) using ky by (simp add: py_sort_by_key_def)
  have ay: "?ask cz ipY = Some (Inr [(cz, ipZ)])"
    by (rule net_ask_small [OF Y(1,2) X(2,3) _ gy]) (simp_all add: zs)
  have az: "?ask cz ipZ = Some (Inr [])"
    by (rule net_ask_small [OF Z(1,2) X(2,3) _ gz]) (simp_all add: zs)
  have pos: "0 < y XOR z" using ne by simp
  have ne_c: "(cz, ipZ) \<noteq> (cy, ipY)" using hy hz ne by auto
  have second: "deep_loop ?ask cz (Suc 0) [(cz, ipZ)] [(cy, ipY)] (PInt 0) =
      Some (Inr ([(cz, ipZ)], [(cy, ipY), (cz, ipZ)]))"
    using kz az ne_c
    by (simp add: deep_loop.simps [of ?ask cz "Suc 0" "[(cz, ipZ)]" "[(cy, ipY)]" "PInt 0"] py_sort_by_key_def)
  have lt: "(0 < int (bit_length (y XOR z)) - 1) \<longleftrightarrow> 2 \<le> y XOR z"
  proof -
    have "1 < bit_length (y XOR z) \<longleftrightarrow> 2 \<le> y XOR z"
      using bit_length_less_iff [of 1 "y XOR z"] by simp
    then show ?thesis by linarith
  qed
  have first: "deep_loop ?ask cz (Suc 0) [(cy, ipY)] [] PInf =
      Some (Inr ([(cz, ipZ)], (cy, ipY) # (if 2 \<le> y XOR z then [(cz, ipZ)] else [])))"
    using ky kz ay pos lt second
    by (simp add: deep_loop.simps [of ?ask cz "Suc 0" "[(cy, ipY)]" "[]" PInf] py_sort_by_key_def)
  then show ?thesis
    using seeds by (simp add: deepNodeSearch_def)
qed


text \<open>
  C37. A lookup can return the node itself, and the same contact twice: X knows only
  Y, Y knows only X, and X looks up its own CID with five results. Y answers with X,
  the merge keeps X's own contact (the local CID is never filtered) and puts it first;
  when the lookup goes on, X asks itself, its answer Y is merged again, and Y appears
  twice in the result.
\<close>

theorem lookup_returns_self:
  assumes X: "nodes N ipX = Some X" "ipX \<in> alive N" "publicIP X = ipX" "CID X = cx"
      "concat (DHT X) = [(cy, ipY)]"
    and Y: "nodes N ipY = Some Y" "ipY \<in> alive N" "concat (DHT Y) = [(cx, ipX)]"
    and hx: "hex_val cx = Inr x" and hy: "hex_val cy = Inr y" and ne: "x \<noteq> y"
    and xs: "length cx = 40" "list_all json_plain cx" "list_all json_plain ipX" "length ipX \<le> 15"
    and ys: "length cy = 40" "list_all json_plain cy" "list_all json_plain ipY" "length ipY \<le> 15"
  shows "deepNodeSearch (net_ask N X) X (CID X) 5 =
           Some (Inr ((cx, ipX) # (cy, ipY) # (if 2 \<le> x XOR y then [(cy, ipY)] else [])))"
proof -
  let ?ask = "net_ask N X"
  have home: "net_reach N (publicIP X)" and addr: "length (publicIP X) \<le> 100"
    using X(1,2,3) xs(4) by (simp_all add: net_reach_def)
  have ky: "xor_key cx (cy, ipY) = Inr (x XOR y)" and kx: "xor_key cx (cx, ipX) = Inr 0"
    using hx hy by (simp_all add: xor_key_def xor.commute)
  have gx: "getClosestCIDs X cx 20 = Inr [(cy, ipY)]"
    unfolding getClosestCIDs_def X(5) using ky by (simp add: py_sort_by_key_def)
  have gy: "getClosestCIDs Y cx 20 = Inr [(cx, ipX)]"
    unfolding getClosestCIDs_def Y(3) using kx by (simp add: py_sort_by_key_def)
  have ay: "?ask cx ipY = Some (Inr [(cx, ipX)])"
    by (rule net_ask_small [OF Y(1,2) home addr _ gy]) (simp_all add: xs)
  have ax: "?ask cx ipX = Some (Inr [(cy, ipY)])"
    by (rule net_ask_small [OF X(1,2) home addr _ gx]) (simp_all add: xs ys)
  have pos: "0 < x XOR y" using ne by simp
  have ne_c: "(cx, ipX) \<noteq> (cy, ipY)" using hx hy ne by auto
  have second: "deep_loop ?ask cx 5 [(cx, ipX), (cy, ipY)] [(cy, ipY)] (PInt 0) =
      Some (Inr ([(cx, ipX), (cy, ipY), (cy, ipY)], [(cy, ipY), (cx, ipX)]))"
    using kx ky ax ne_c pos
    by (simp add: deep_loop.simps [of ?ask cx 5 "[(cx, ipX), (cy, ipY)]" "[(cy, ipY)]" "PInt 0"] py_sort_by_key_def)
  have lt: "(0 < int (bit_length (x XOR y)) - 1) \<longleftrightarrow> 2 \<le> x XOR y"
  proof -
    have "1 < bit_length (x XOR y) \<longleftrightarrow> 2 \<le> x XOR y"
      using bit_length_less_iff [of 1 "x XOR y"] by simp
    then show ?thesis by linarith
  qed
  have first: "deep_loop ?ask cx 5 [(cy, ipY)] [] PInf =
      Some (Inr ((cx, ipX) # (cy, ipY) # (if 2 \<le> x XOR y then [(cy, ipY)] else []),
                 (cy, ipY) # (if 2 \<le> x XOR y then [(cx, ipX)] else [])))"
    using kx ky ay pos lt second
    by (simp add: deep_loop.simps [of ?ask cx 5 "[(cy, ipY)]" "[]" PInf] py_sort_by_key_def)
  then show ?thesis
    using gx X(4) by (simp add: deepNodeSearch_def)
qed

end
