(* ===== verification/Console.thy ===== *)
theory Console
  imports RoutingTable
begin

text \<open>
  What the node prints (\<open>src/Python/DistributedStorageV1.py\<close>): \<open>showDHT\<close>, which
  prints every non-empty bucket on a line of its own, and the start message of
  \<open>receiveData\<close>. The text is built from \<open>str\<close> of an integer (\<open>py_str_nat\<close>) and
  \<open>str\<close> of a contact dictionary, which is Python's \<open>repr\<close> of its key and value
  (\<open>py_repr\<close>). A character is read as a code point below 256, as in \<open>Wire\<close>.
  The reading of a printed text by lines (\<open>split_nl\<close>) is the reference
  against which the line structure of \<open>showDHT\<close> is checked.
\<close>

section \<open>\<open>str\<close> and \<open>repr\<close>\<close>

text \<open>\<open>str(n)\<close> for a non-negative integer: its decimal digits.\<close>

fun py_str_nat :: "nat \<Rightarrow> string" where
  "py_str_nat n =
     (if n < 10 then [char_of (48 + n)] else py_str_nat (n div 10) @ [char_of (48 + n mod 10)])"

declare py_str_nat.simps [simp del]

text \<open>
  The quote \<open>repr\<close> chooses (\<open>unicode_repr\<close> in CPython): a double quote when the
  string contains a single quote and no double quote, a single quote otherwise.
\<close>

definition repr_quote :: "string \<Rightarrow> char" where
  "repr_quote s = (if CHR 0x27 \<in> set s \<and> CHR 0x22 \<notin> set s then CHR 0x22 else CHR 0x27)"

text \<open>
  One character inside the quotes: the chosen quote and the backslash are escaped,
  tab, line feed and carriage return get their short escapes, the other
  non-printable characters (below space, \<open>0x7f\<close> to \<open>0xa0\<close>, and the soft hyphen
  \<open>0xad\<close>) become \<open>\xhh\<close> with lower-case digits, and the rest are written as they are.
\<close>

definition repr_char :: "char \<Rightarrow> char \<Rightarrow> string" where
  "repr_char q c =
     (let n = (of_char c :: nat) in
      if c = q \<or> n = 92 then [CHR 0x5C, c]
      else if n = 9 then [CHR 0x5C, CHR ''t'']
      else if n = 10 then [CHR 0x5C, CHR ''n'']
      else if n = 13 then [CHR 0x5C, CHR ''r'']
      else if n < 32 \<or> (127 \<le> n \<and> n \<le> 160) \<or> n = 173
      then [CHR 0x5C, CHR ''x'', hex_char (n div 16), hex_char (n mod 16)]
      else [c])"

definition py_repr :: "string \<Rightarrow> string" where
  "py_repr s = (let q = repr_quote s in q # concat (map (repr_char q) s) @ [q])"

text \<open>\<open>str({cid: ip})\<close>, the f-string \<open>{node}\<close> of a contact.\<close>

definition py_dict_repr :: "contact \<Rightarrow> string" where
  "py_dict_repr c = ''{'' @ py_repr (cid_of c) @ '': '' @ py_repr (ip_of c) @ ''}''"

section \<open>\<open>showDHT\<close>\<close>

text \<open>
  \<open>print(f"Bucket {i}: ", end="")\<close>, then \<open>print(f"{node} ", end="")\<close> for every
  contact of the bucket; the closing \<open>print()\<close> ends the line.
\<close>

definition bucket_line :: "nat \<Rightarrow> contact list \<Rightarrow> string" where
  "bucket_line i bucket = ''Bucket '' @ py_str_nat i @ '': '' @ concat (map (\<lambda>node. py_dict_repr node @ '' '') bucket)"

text \<open>\<open>for i, bucket in enumerate(self.DHT): if len(bucket) == 0: continue ...\<close>: the text printed.\<close>

definition showDHT :: "node \<Rightarrow> string" where
  "showDHT self =
     concat (map (\<lambda>(i, bucket). if length bucket = 0 then [] else bucket_line i bucket @ [CHR 0x0A])
       (enumerate 0 (DHT self)))"

text \<open>The start message of \<open>receiveData\<close>: \<open>print(f"Started FileSytem Node on IP: ...")\<close>.\<close>

definition start_banner :: "node \<Rightarrow> string" where
  "start_banner self =
     ''Started FileSytem Node on IP: '' @ publicIP self @ '', PORT: '' @ py_str_nat (port self) @
     '', CID: '' @ CID self @ [CHR 0x0A]"

section \<open>Reading the printed text back\<close>

text \<open>The lines of a text: the pieces between line feeds, a last piece without one included.\<close>

fun split_nl_acc :: "string \<Rightarrow> string \<Rightarrow> string list" where
  "split_nl_acc cur [] = (if cur = [] then [] else [rev cur])"
| "split_nl_acc cur (c # cs) =
     (if c = CHR 0x0A then rev cur # split_nl_acc [] cs else split_nl_acc (c # cur) cs)"

definition split_nl :: "string \<Rightarrow> string list" where
  "split_nl s = split_nl_acc [] s"

section \<open>Lemmas\<close>

lemma char_of_nl: "(n::nat) < 256 \<Longrightarrow> char_of n = CHR 0x0A \<Longrightarrow> n = 10"
proof -
  assume "n < 256" and "char_of n = CHR 0x0A"
  then have "(of_char (char_of n :: char) :: nat) = of_char (CHR 0x0A)" by simp
  with \<open>n < 256\<close> show "n = 10" by (simp add: of_char_of)
qed

lemma hex_char_not_nl: "d < 16 \<Longrightarrow> hex_char d \<noteq> CHR 0x0A"
  using char_of_nl [of "48 + d"] char_of_nl [of "87 + d"] by (auto simp add: hex_char_def)

lemma repr_char_no_nl: "q \<noteq> CHR 0x0A \<Longrightarrow> CHR 0x0A \<notin> set (repr_char q c)"
proof -
  assume q: "q \<noteq> CHR 0x0A"
  have "(of_char c :: nat) div 16 < 16"
    using nat_of_char_less_256 [of c] by (simp add: less_mult_imp_div_less)
  then show ?thesis
    using q hex_char_not_nl [of "of_char c div 16"] hex_char_not_nl [of "of_char c mod 16"]
    by (auto simp add: repr_char_def Let_def)
qed

lemma py_repr_no_nl: "CHR 0x0A \<notin> set (py_repr s)"
proof -
  have "repr_quote s \<noteq> CHR 0x0A" by (simp add: repr_quote_def)
  then show ?thesis by (auto simp add: py_repr_def Let_def repr_char_no_nl)
qed

lemma py_str_nat_no_nl: "CHR 0x0A \<notin> set (py_str_nat n)"
proof (induction n rule: py_str_nat.induct)
  case (1 n)
  have "CHR 0x0A \<noteq> char_of (48 + k)" if "k < 10" for k :: nat
    using that char_of_nl [of "48 + k"] by auto
  with 1 show ?case by (subst py_str_nat.simps) auto
qed

lemma bucket_line_no_nl: "CHR 0x0A \<notin> set (bucket_line i bucket)"
  by (auto simp add: bucket_line_def py_dict_repr_def py_str_nat_no_nl py_repr_no_nl)

lemma split_nl_acc_line:
  "CHR 0x0A \<notin> set l \<Longrightarrow> split_nl_acc cur (l @ CHR 0x0A # rest) = (rev cur @ l) # split_nl_acc [] rest"
  by (induction l arbitrary: cur) auto

lemma split_nl_lines:
  "\<forall>l\<in>set ls. CHR 0x0A \<notin> set l \<Longrightarrow> split_nl (concat (map (\<lambda>l. l @ [CHR 0x0A]) ls)) = ls"
  by (induction ls) (simp_all add: split_nl_def split_nl_acc_line)

lemma concat_skip_empty:
  "concat (map (\<lambda>(i, b). if length b = 0 then [] else f i b @ [c]) xs) =
   concat (map (\<lambda>l. l @ [c]) (map (\<lambda>(i, b). f i b) (filter (\<lambda>(i, b). b \<noteq> []) xs)))"
  by (induction xs) auto

section \<open>Properties\<close>

text \<open>
  C38. \<open>showDHT\<close> prints exactly one line per non-empty bucket, in bucket order, and
  nothing for an empty one, whatever strings the table holds: \<open>repr\<close> escapes a line
  feed inside a CID or an address, so read back line by line the output is the list
  of the non-empty buckets' lines.
\<close>

theorem showDHT_lines:
  "split_nl (showDHT self) =
   map (\<lambda>(i, bucket). bucket_line i bucket) (filter (\<lambda>(i, bucket). bucket \<noteq> []) (enumerate 0 (DHT self)))"
  unfolding showDHT_def concat_skip_empty
  by (rule split_nl_lines) (auto simp add: bucket_line_no_nl)

end
