(* ===== verification/Startup.thy ===== *)
theory Startup
  imports Bootstrap Console
begin

text \<open>
  How a node of \<open>src/Python/DistributedStorageV1.py\<close> comes up: \<open>__init__\<close> with
  its two host queries, the start of \<open>receiveData\<close> (binding the listening socket
  and printing the start message), and the script at the end of the file, which
  creates one node on port 60000 with the bootstrap address \<open>79.230.223.138\<close>.
  What the host answers is a parameter: the result of the public-IP request
  (\<open>requests\<close> raises \<open>RequestException\<close>, a subclass of OSError, when it fails),
  the address the host routes \<open>8.8.8.8\<close> from, and which addresses can be bound.
\<close>

section \<open>Host queries and the constructor\<close>

text \<open>
  \<open>get_local_ip()\<close>: a UDP socket connected to \<open>8.8.8.8\<close> reports the local address
  the route to it leaves from; without a route \<open>connect\<close> raises OSError.
\<close>

definition get_local_ip :: "(string \<Rightarrow> string option) \<Rightarrow> string result" where
  "get_local_ip route = (case route ''8.8.8.8'' of None \<Rightarrow> Inl OSError | Some local_ip \<Rightarrow> Inr local_ip)"

text \<open>
  \<open>Node(port, bootstrapNodes)\<close>: the public address first, then the local one, then
  the table and the CID (\<open>hexdigest()\<close> of 20 random bytes, a parameter).
\<close>

definition Node_new :: "string result \<Rightarrow> (string \<Rightarrow> string option) \<Rightarrow> nat \<Rightarrow> string list \<Rightarrow> string \<Rightarrow> node result" where
  "Node_new public route p bootstrapNodes cid =
     res_bind public (\<lambda>pub. res_map (\<lambda>loc. init_node pub loc p cid bootstrapNodes) (get_local_ip route))"

text \<open>\<open>myNode = Node(port=60000, bootstrapNodes=['79.230.223.138'])\<close>.\<close>

definition main_node :: "string result \<Rightarrow> (string \<Rightarrow> string option) \<Rightarrow> string \<Rightarrow> node result" where
  "main_node public route cid = Node_new public route 60000 [''79.230.223.138''] cid"

section \<open>The server thread\<close>

text \<open>
  \<open>receiveData()\<close>: \<open>listener.bind((self.localIP, self.port))\<close> raises OSError when
  the address cannot be bound; otherwise the start message is printed and the loop
  handles the connections (\<open>serve\<close>).
\<close>

definition receiveData ::
  "(string \<times> nat \<Rightarrow> bool) \<Rightarrow> (string \<Rightarrow> bool) \<Rightarrow> node \<Rightarrow> message list \<Rightarrow>
   (string \<times> (node \<times> sent list \<times> error option \<times> message list)) result"
where
  "receiveData bindable reach self conns =
     (if bindable (localIP self, port self) then Inr (start_banner self, serve reach self conns)
      else Inl OSError)"

section \<open>Lemmas\<close>

lemma Node_new_Inr_iff:
  "Node_new public route p bs cid = Inr n \<longleftrightarrow>
   (\<exists>pub loc. public = Inr pub \<and> route ''8.8.8.8'' = Some loc \<and> n = init_node pub loc p cid bs)"
  by (cases public) (auto simp add: Node_new_def get_local_ip_def split: option.splits)

text \<open>A node that knows nobody and has no bootstrap peers learns nothing by itself.\<close>

lemma deepNodeSearch_empty_table:
  assumes e: "concat (DHT self) = []"
  shows "deepNodeSearch ask self t amount = Some (Inr [])"
proof -
  have "getClosestCIDs self t 20 = Inr []"
    unfolding getClosestCIDs_def py_sort_by_key_def e by simp
  moreover have "deep_loop ask t amount [] [] PInf = Some (Inr ([], []))"
    by (simp add: deep_loop.simps [of ask t amount "[]" "[]" PInf])
  ultimately show ?thesis by (simp add: deepNodeSearch_def)
qed

lemma fill_buckets_empty_table:
  "concat (DHT self) = [] \<Longrightarrow> fill_buckets ask self i ts = Some (self, None)"
  by (induction ts arbitrary: i) (simp_all add: deepNodeSearch_empty_table)

lemma bootstrap_rounds_isolated:
  assumes "concat (DHT self) = []" and "bootstrapIPs self = []" and "hex_val (CID self) = Inr m"
  shows "bootstrap_rounds reach ask draws self = Some (self, [], None)"
  using assms
  by (induction draws) (simp_all add: bootstrap_round_def bucket_targets_hex fill_buckets_empty_table)

section \<open>Properties\<close>

text \<open>
  C40. The script's node, once created (the public-IP request and the route to
  \<open>8.8.8.8\<close> succeed), with its single bootstrap address unreachable: if its own
  public address is that address, the constructor drops it, the node has no
  bootstrap peers and every bootstrap round leaves it with an empty table and sends
  nothing; otherwise its first bootstrap round raises OSError and the bootstrap
  thread ends with the table empty.
\<close>

theorem main_node_bootstrap:
  assumes node: "main_node (Inr pub) route cid = Inr n" and my: "hex_val cid = Inr m"
    and down: "\<not> reach ''79.230.223.138''"
  shows "bootstrap_rounds reach ask (draw # draws) n =
           (if pub = ''79.230.223.138'' then Some (n, [], None) else Some (n, [], Some OSError))"
proof -
  obtain loc where n: "n = init_node pub loc 60000 cid [''79.230.223.138'']"
    using node by (auto simp add: main_node_def Node_new_Inr_iff)
  have empty: "concat (DHT n) = []" and myn: "hex_val (CID n) = Inr m"
    using my by (simp_all add: n init_node_def)
  show ?thesis
  proof (cases "pub = ''79.230.223.138''")
    case True
    then have "bootstrapIPs n = []" by (simp add: n init_node_def)
    with True show ?thesis using bootstrap_rounds_isolated [OF empty _ myn] by simp
  next
    case False
    then have ips: "bootstrapIPs n = [] @ ''79.230.223.138'' # []" by (simp add: n init_node_def)
    have "announce reach (publicIP n) (CID n) (bootstrapIPs n) = ([], Some OSError)"
      using announce_unreachable [of "[]" reach "''79.230.223.138''" "publicIP n" "CID n" "[]"] down ips
      by simp
    with False show ?thesis
      by (simp add: bootstrap_round_def bucket_targets_hex [OF myn])
  qed
qed

end
