(* ===== verification/Spec2Isabelle.thy ===== *)
theory Spec2Isabelle
  imports Network Startup
begin

text \<open>
  \<^bold>\<open>A verification library for the DHT node of DecentralizedSocial.\<close>

  The program, \<open>src/Python/DistributedStorageV1.py\<close>, is one class \<open>Node\<close> of a
  Kademlia-style overlay: a node holds a 160-bit CID (a 40-digit hexadecimal string),
  a routing table of 160 buckets indexed by the bit length of the XOR distance to its
  own CID, a server thread (\<open>receiveData\<close>) that dispatches four message kinds, and a
  bootstrap thread (\<open>bootstrap\<close>) that repeatedly probes every bucket range with the
  iterative lookup \<open>deepNodeSearch\<close>. The two threads share the routing table
  \<open>DHT\<close> and the one-slot mailbox \<open>pendingResponse\<close>; messages travel as JSON text
  (\<open>sendData\<close>) and are read with one \<open>recv(1024)\<close>.

  \<^bold>\<open>Theories and what they model.\<close>
  \<^item> \<open>Prelude\<close>: the exceptions (\<open>ValueError\<close>, \<open>IndexError\<close>, \<open>TypeError\<close>,
    \<open>OSError\<close>) and the result type \<open>error + 'a\<close>; the Python primitives the code
    relies on: \<open>int.bit_length\<close> (\<open>bit_length\<close>), indexing with negative indices
    (\<open>py_index\<close>, \<open>py_append_at\<close>), \<open>list.sort(key=...)\<close> with a key that may raise
    (\<open>py_sort_by_key\<close>), \<open>str.join\<close> (\<open>py_join\<close>), and the lemmas on XOR of
    unbounded integers.
  \<^item> \<open>Hex\<close>: \<open>int(s, 16)\<close> (\<open>hex_val\<close>) and \<open>format(n, '040x')\<close>
    (\<open>format_040x\<close>) and the form of a CID (\<open>valid_cid\<close>).
  \<^item> \<open>Metric\<close>: contacts \<open>{cid: ip}\<close> as pairs, \<open>getBucketIndex\<close>, the sort key
    \<open>int(cid,16) ^ int(target,16)\<close> (\<open>xor_key\<close>), \<open>generateTargetCID\<close> with the random
    draw as a parameter restricted by \<open>randint_range\<close>.
  \<^item> \<open>Wire\<close>: the payloads and messages the node sends, their JSON text as
    \<open>json.dumps(data, indent = 4)\<close> writes it (\<open>dumps\<close>, \<open>wire_text\<close>, with Python's
    ASCII escaping), and what one \<open>recv(1024)\<close> followed by \<open>json.loads\<close> yields
    (\<open>receive_frame\<close>).
  \<^item> \<open>RoutingTable\<close>: the node's attributes as the record \<open>node\<close>, \<open>__init__\<close>
    without its I/O (\<open>init_node\<close>), \<open>addNode\<close>, \<open>getClosestCIDs\<close>, and the bucket
    invariant \<open>dht_inv\<close>.
  \<^item> \<open>Dispatcher\<close>: \<open>sendData\<close> with reachability as a parameter, the body of
    \<open>receiveData\<close>'s loop as a step on the node (\<open>receiveData_step\<close>,
    \<open>receive_one\<close>) returning the node, the messages sent and the exception raised,
    and the server thread over a sequence of connections (\<open>serve\<close>).
  \<^item> \<open>Select\<close>: the selection scan of \<open>deepNodeSearch\<close> (\<open>select_scan\<close>), with
    \<open>closest_distance\<close> as \<open>pydist\<close> (infinity or a Python integer), and its
    declarative reference \<open>select_ref\<close>.
  \<^item> \<open>Lookup\<close>: the \<open>while True\<close> loop of \<open>deepNodeSearch\<close> (\<open>deep_loop\<close>, one round
    per call) and \<open>deepNodeSearch\<close> itself. The network is a parameter
    \<open>ask :: responder\<close>: \<open>ask cid ip\<close> is what \<open>askForClosestNodes\<close> yields: the
    contacts found in \<open>pendingResponse\<close>, an exception, or \<open>None\<close> when no answer
    ever comes (the polling loop then never ends, so the lookup's result is \<open>None\<close>).
  \<^item> \<open>Bootstrap\<close>: one round of \<open>bootstrap\<close>'s \<open>while True\<close> loop
    (\<open>bootstrap_round\<close>): the \<open>nodeInfoRequest\<close> to every bootstrap peer
    (\<open>announce\<close>), then for every bucket index a target from \<open>generateTargetCID\<close>
    (\<open>bucket_targets\<close>, the random draws as a parameter), a lookup, and the insertion
    of the contacts found whose bucket index matches (\<open>fill_buckets\<close>,
    \<open>insert_matches\<close>); \<open>bootstrap_rounds\<close> is a finite prefix of the endless loop.
  \<^item> \<open>Network\<close>: several nodes, one per address, as the record \<open>net\<close> (nodes,
    addresses whose server thread runs, messages in flight) with the step relation
    \<open>net_step\<close>: a server handles one delivered message (and dies if that raises), a
    message to a dead address is lost, a node announces itself, sends a query, or runs
    a fill phase. \<open>net_ask\<close> composes the two dispatchers into the responder a lookup
    sees over this network; \<open>msg_shape\<close> is the type of the messages in flight.
  \<^item> \<open>Console\<close>: what the node prints: \<open>str\<close> of an integer (\<open>py_str_nat\<close>),
    Python's \<open>repr\<close> of a string (\<open>py_repr\<close>, \<open>repr_char\<close>, \<open>repr_quote\<close>) and of a
    contact (\<open>py_dict_repr\<close>), \<open>showDHT\<close> (\<open>bucket_line\<close>) and the start message of
    \<open>receiveData\<close> (\<open>start_banner\<close>); with the reading of a printed text by lines
    (\<open>split_nl\<close>) as reference.
  \<^item> \<open>Startup\<close>: \<open>get_local_ip\<close>, the whole constructor \<open>Node_new\<close> with the public-IP
    request and the route as parameters, the script's node \<open>main_node\<close>, and the
    start of the server thread \<open>receiveData\<close> (bind, start message, loop).
  \<^item> This theory: example CIDs, nodes and networks, their evaluation, and the
    witnesses, among them the networks of spec scenarios 4 and 5.

  \<^bold>\<open>What is proved\<close> (claim ids in the \<open>text\<close> blocks before each theorem).
  Routing table: \<open>addNode\<close> keeps the bucket invariant except for the node's own CID
  (C1, C9), its behaviour on every branch including both exceptions (C6), that it never
  suppresses duplicates (C15); \<open>getClosestCIDs\<close> returns the closest contacts in order
  (C2), never raises on a well-formed table (C12) and raises exactly on an unreadable
  CID (C13). Metric: \<open>generateTargetCID\<close> hits the requested bucket (C5) and the
  bucket index is bounded, \<open>-1\<close> exactly for equal CIDs (C14).
  Lookup: the loop terminates (the termination proof of \<open>deep_loop\<close>, a lexicographic
  measure on \<open>closest_distance\<close>), sends at most 160 queries from a well-formed table
  (C3), returns whenever the peers answer (C17) and then raises nothing (C4), returns
  sorted contacts from the table or the answers (C7), hangs when the closest peer is
  silent (C18), never asks a peer twice (C10), and, because it compares a raw XOR distance with a bit index, stops
  after one query for all but a \<open>2^-152\<close> share of targets (C8). Constructor: only the
  first occurrence of the node's own address leaves the bootstrap list (C16).
  Wire and dispatcher: a \<open>closestNodesResponse\<close> of twelve contacts does not fit the
  receive window, one of ten does (C19); the handlers of \<open>nodeInfoRequest\<close> (C20),
  \<open>nodeInfoResponse\<close> (C11) and \<open>closestNodesRequest\<close> (C21); the response slot is overwritten by any response
  (C22); the server loop keeps the bucket invariant (C23) and stops for good at the
  first exception (C24); so a node that knows twelve contacts answers every lookup
  with a frame its requester cannot read (C25).
  Bootstrap: the 160 targets of a round are well-formed CIDs, one per bucket (C39); a
  round keeps the bucket invariant and only adds contacts (C26), and a
  node whose only contact answers with nothing inserts that contact again in every
  round, so its table grows without bound with copies of one contact (C27).
  Network: in every run of \<open>net_step\<close> from nodes with well-formed tables, distinct
  CIDs and no self-listing, every table stays well formed (C28, by rule induction on
  \<open>net_step\<close> with an invariant on the messages in flight); \<open>net_ask\<close> refines the
  abstract responder: a peer with at most ten contacts answers with exactly its
  \<open>getClosestCIDs\<close> (C29), while a lookup whose closest contact knows twelve contacts
  hangs over the real network (C30); two fresh nodes learn each other in one
  request-response exchange (C31, scenario 4 of the spec); a node listing its own
  address twice among its bootstrap peers breaks its own table (C32). The selection
  scan of the lookup equals a declarative reference, the first unasked contact of
  least bit index (C33); every message in flight in a run has one of the four shapes
  the code sends (C34); an unreachable bootstrap address ends the bootstrap thread in
  its first round (C35); in any network where scenario 5 of the spec applies, the
  lookup asks Y, asks Z exactly when Z's bit index is below Y's, and returns Z (C36);
  and two nodes that know each other make a lookup of a node's own CID return the node
  itself first and, when it goes on, the peer twice, since answers are merged without
  filtering the local CID or duplicates (C37).
  Console and start-up: \<open>showDHT\<close> prints exactly one line per non-empty bucket
  whatever the strings in the table (C38), and the script's node either stays isolated (its own address is the
  bootstrap address) or loses its bootstrap thread in the first round when the
  bootstrap address is unreachable (C40).

  \<^bold>\<open>Bounds.\<close> No fuel is used: \<open>deep_loop\<close> is a total function by its termination
  proof, and non-termination is only the network's silence, visible as \<open>None\<close>. The
  constant 160 in the invariants is the code's \<open>range(160)\<close>; CIDs are unbounded
  Python integers, and the 160-bit hypotheses of C3, C6, C14 and C31 are what
  \<open>hexdigest()\<close> guarantees for the node's own CID. The endless bootstrap loop is
  observed through finite prefixes (\<open>bootstrap_rounds\<close>, one draw function per
  round), and network runs are finite sequences of steps (\<open>rtranclp\<close>). The window is the code's 1024;
  a frame is ASCII text, so its length in characters is its length in bytes.

  \<^bold>\<open>Not modelled.\<close> \<open>json.loads\<close> itself: a frame that fits the window is taken to
  decode to the message sent, and a longer one, a proper prefix of a JSON object, to
  raise; messages whose payloads have other JSON shapes than the code sends; a
  \<open>recv\<close> that returns fewer bytes than were sent. In the network, a fill phase is
  one step with an arbitrary responder, which over-approximates the interleaving of
  its lookups with other steps; \<open>net_ask\<close> is a lookup's question in a network where
  nothing else happens while it waits. The host's answers (public IP, route, which
  addresses bind) are parameters, not modelled further; \<open>listen(5)\<close>'s backlog, the
  \<open>time.sleep\<close> calls and the script's endless \<open>while True: time.sleep(5)\<close> have no
  effect on the state and are not modelled; neither are the forms of \<open>int(s, 16)\<close>
  with a sign, prefix, underscores or white space. Characters are code points below
  256 throughout (one Isabelle \<open>char\<close> each): \<open>repr\<close> and the JSON escapes are
  modelled for that range only.
\<close>

section \<open>Example CIDs, nodes and networks\<close>

definition cid0 :: string where "cid0 = ''0000000000000000000000000000000000000000''"
definition cidA :: string where "cidA = ''0000000000000000000000000000000000000001''"
definition cidB :: string where "cidB = ''0000000000000000000000000000000000000002''"
definition cidC :: string where "cidC = ''0000000000000000000000000000000000000004''"
definition cidT :: string where "cidT = ''0000000000000000000000000000000000000003''"
definition cidY :: string where "cidY = ''8000000000000000000000000000000000000000''"
definition cidW :: string where "cidW = ''e000000000000000000000000000000000000000''"
definition cidZ :: string where "cidZ = ''c000000000000000000000000000000000000000''"

text \<open>A fresh node with CID zero, and the same node knowing A, B and C (scenario 3 of the spec).\<close>

definition node0 :: node where "node0 = init_node ''198.51.100.1'' ''10.0.0.1'' 60000 cid0 []"

definition nodeABC :: node where
  "nodeABC = node0\<lparr>DHT := [[(cidA, ''ipA'')], [(cidB, ''ipB'')], [(cidC, ''ipC'')]] @ replicate 157 []\<rparr>"

definition nodeBad :: node where
  "nodeBad = node0\<lparr>DHT := [[(''zz'', ''ipX'')]] @ replicate 159 []\<rparr>"

text \<open>Networks: every peer answers with nothing; no peer answers; Y answers with W.\<close>

definition empty_answers :: responder where "empty_answers t ip = Some (Inr [])"

definition silent :: responder where "silent t ip = None"

definition netYW :: responder where
  "netYW t ip = (if ip = ''ipY'' then Some (Inr [(cidW, ''ipW'')]) else Some (Inr []))"

text \<open>
  A node whose table holds twelve contacts (CIDs 1 to 12, each in its bucket), and a
  \<open>closestNodesResponse\<close> of twelve contacts.
\<close>

definition contact12 :: "nat \<Rightarrow> contact" where "contact12 k = (format_040x k, ''10.0.0.9'')"

definition node12 :: node where
  "node12 = node0\<lparr>DHT := [[contact12 1], [contact12 2, contact12 3],
     [contact12 4, contact12 5, contact12 6, contact12 7],
     [contact12 8, contact12 9, contact12 10, contact12 11, contact12 12]] @ replicate 156 []\<rparr>"

definition big_response :: message where
  "big_response = [(closestNodesResponse, PContacts (replicate 12 (cidA, ''10.0.0.2'')))]"

text \<open>A node that knows one contact, A.\<close>

definition nodeA1 :: node where
  "nodeA1 = node0\<lparr>DHT := [[(cidA, ''ipA'')]] @ replicate 159 []\<rparr>"

text \<open>
  Networks of nodes: two fresh nodes, the first bootstrapping from the second
  (scenario 4 of the spec); a fresh node beside a node that knows A; and a node that
  knows A, whose contact A runs the node that knows twelve contacts.
\<close>

definition joinX :: node where "joinX = init_node ''198.51.100.1'' ''10.0.0.1'' 60000 cid0 [''198.51.100.2'']"

definition joinY :: node where "joinY = init_node ''198.51.100.2'' ''10.0.0.2'' 60000 cidA []"

definition netA1 :: net where "netA1 = net_init [''198.51.100.1'' \<mapsto> node0, ''198.51.100.2'' \<mapsto> nodeA1]"

definition net12 :: net where "net12 = net_init [''198.51.100.1'' \<mapsto> nodeA1, ''ipA'' \<mapsto> node12]"

text \<open>
  Scenario 5 of the spec: X knows Y, Y knows Z, Z knows nobody, all three running.
\<close>

definition nodeX3 :: node where
  "nodeX3 = node0\<lparr>DHT := replicate 159 [] @ [[(cidY, ''198.51.100.2'')]]\<rparr>"

definition nodeY3 :: node where
  "nodeY3 = (init_node ''198.51.100.2'' ''10.0.0.2'' 60000 cidY [])
              \<lparr>DHT := replicate 158 [] @ [[(cidZ, ''198.51.100.3'')], []]\<rparr>"

definition nodeZ3 :: node where "nodeZ3 = init_node ''198.51.100.3'' ''10.0.0.3'' 60000 cidZ []"

definition net3 :: net where
  "net3 = net_init [''198.51.100.1'' \<mapsto> nodeX3, ''198.51.100.2'' \<mapsto> nodeY3, ''198.51.100.3'' \<mapsto> nodeZ3]"

text \<open>Two nodes that know each other, as after the join of scenario 4.\<close>

definition nodeX2 :: node where "nodeX2 = joinX\<lparr>DHT := [[], [(cidB, ''198.51.100.2'')]] @ replicate 158 []\<rparr>"

definition nodeY2 :: node where
  "nodeY2 = (init_node ''198.51.100.2'' ''10.0.0.2'' 60000 cidB [])\<lparr>DHT := [[], [(cid0, ''198.51.100.1'')]] @ replicate 158 []\<rparr>"

definition netXY :: net where "netXY = net_init [''198.51.100.1'' \<mapsto> nodeX2, ''198.51.100.2'' \<mapsto> nodeY2]"

section \<open>Evaluation of the examples\<close>

lemma hex_examples:
  "hex_val cid0 = Inr 0" "hex_val cidA = Inr 1" "hex_val cidB = Inr 2" "hex_val cidC = Inr 4"
  "hex_val cidT = Inr 3" "hex_val cidY = Inr (2 ^ 159)" "hex_val cidW = Inr (2 ^ 159 + 2 ^ 158 + 2 ^ 157)"
  "hex_val cidZ = Inr (2 ^ 159 + 2 ^ 158)"
  by (simp_all add: cid0_def cidA_def cidB_def cidC_def cidT_def cidY_def cidW_def cidZ_def
      hex_val_def hex_digit_def)

lemma nodeABC_fields:
  "CID nodeABC = cid0" "DHT nodeABC = [[(cidA, ''ipA'')], [(cidB, ''ipB'')], [(cidC, ''ipC'')]] @ replicate 157 []"
  by (simp_all add: nodeABC_def node0_def init_node_def)

lemma nodeABC_inv: "dht_inv (CID nodeABC) (DHT nodeABC)"
  unfolding nodeABC_fields
  by (subst dht_inv_prefix) (simp_all add: getBucketIndex_def hex_examples)

lemma node0_fields: "CID node0 = cid0" "DHT node0 = replicate 160 []"
  by (simp_all add: node0_def init_node_def)

lemma node0_inv: "dht_inv (CID node0) (DHT node0)"
  by (simp add: node0_fields dht_inv_nth)

lemma nodeABC_seeds:
  "getClosestCIDs nodeABC cidT 20 = Inr [(cidB, ''ipB''), (cidA, ''ipA''), (cidC, ''ipC'')]"
  by (simp add: getClosestCIDs_def nodeABC_fields py_sort_by_key_def xor_key_def hex_examples)

lemma node12_fields: "CID node12 = cid0"
  "DHT node12 = [[contact12 1], [contact12 2, contact12 3],
     [contact12 4, contact12 5, contact12 6, contact12 7],
     [contact12 8, contact12 9, contact12 10, contact12 11, contact12 12]] @ replicate 156 []"
  by (simp_all add: node12_def node0_fields)

lemma node12_inv: "dht_inv (CID node12) (DHT node12)"
  unfolding node12_fields
  by (subst dht_inv_prefix) (simp_all add: getBucketIndex_def hex_examples contact12_def)

lemma nodeA1_fields: "CID nodeA1 = cid0" "DHT nodeA1 = [[(cidA, ''ipA'')]] @ replicate 159 []"
  "bootstrapIPs nodeA1 = []"
  by (simp_all add: nodeA1_def node0_def init_node_def)

lemma nodeA1_inv: "dht_inv (CID nodeA1) (DHT nodeA1)"
  unfolding nodeA1_fields
  by (subst dht_inv_prefix) (simp_all add: getBucketIndex_def hex_examples)

lemma nodeA1_round:
  "\<exists>s' out. bootstrap_round (\<lambda>ip. True) empty_answers (\<lambda>i. 2 ^ i) nodeA1 = Some (s', out, None) \<and>
     dht_inv (CID s') (DHT s') \<and> CID s' = CID nodeA1 \<and> bootstrapIPs s' = bootstrapIPs nodeA1 \<and>
     concat (DHT s') = replicate (1 + min 5 1) (cidA, ''ipA'')"
  by (rule bootstrap_round_copies [OF nodeA1_inv])
    (simp_all add: nodeA1_fields hex_examples empty_answers_def)

lemma scenario_tables:
  "concat (DHT nodeX3) = [(cidY, ''198.51.100.2'')]" "concat (DHT nodeY3) = [(cidZ, ''198.51.100.3'')]"
  "concat (DHT nodeZ3) = []" "publicIP nodeX3 = ''198.51.100.1''"
  "concat (DHT nodeX2) = [(cidB, ''198.51.100.2'')]" "concat (DHT nodeY2) = [(cid0, ''198.51.100.1'')]"
  "publicIP nodeX2 = ''198.51.100.1''"
  by (simp_all add: nodeX3_def nodeY3_def nodeZ3_def node0_def nodeX2_def nodeY2_def joinX_def init_node_def)

section \<open>Witnesses\<close>

text \<open>
  Each theorem with hypotheses applied at a concrete input where they hold: the
  hypotheses and the conclusion are evaluated on the examples above.
\<close>

lemma addNode_node0_A:
  "addNode node0 ''ipA'' cidA = Inr (node0\<lparr>DHT := (DHT node0)[0 := [(cidA, ''ipA'')]]\<rparr>)"
  by (simp add: addNode_def getBucketIndex_def py_append_at_def node0_fields hex_examples)

theorem addNode_preserves_dht_inv_witness:
  "getBucketIndex cid0 cidA \<noteq> Inr (-1) \<and>
   dht_inv cid0 (DHT (node0\<lparr>DHT := (DHT node0)[0 := [(cidA, ''ipA'')]]\<rparr>))"
proof -
  have ne: "getBucketIndex (CID node0) cidA \<noteq> Inr (-1)"
    by (simp add: getBucketIndex_def node0_fields hex_examples)
  have "dht_inv (CID (node0\<lparr>DHT := (DHT node0)[0 := [(cidA, ''ipA'')]]\<rparr>))
                (DHT (node0\<lparr>DHT := (DHT node0)[0 := [(cidA, ''ipA'')]]\<rparr>))"
    using addNode_preserves_dht_inv [OF node0_inv addNode_node0_A ne] .
  with ne show ?thesis by (simp add: node0_fields)
qed

theorem getClosestCIDs_closest_witness:
  "getClosestCIDs nodeABC cidT 2 = Inr [(cidB, ''ipB''), (cidA, ''ipA'')] \<and>
   mset [(cidB, ''ipB''), (cidA, ''ipA'')] \<subseteq># mset (concat (DHT nodeABC)) \<and>
   (\<exists>ds. map (xor_key cidT) [(cidB, ''ipB''), (cidA, ''ipA'')] = map Inr ds \<and> sorted ds)"
proof -
  have r: "getClosestCIDs nodeABC cidT 2 = Inr [(cidB, ''ipB''), (cidA, ''ipA'')]"
    by (simp add: getClosestCIDs_def nodeABC_fields py_sort_by_key_def xor_key_def hex_examples)
  from getClosestCIDs_closest [OF r] r show ?thesis by blast
qed

theorem generateTargetCID_in_bucket_witness:
  "randint_range 5 32 \<and> generateTargetCID cid0 5 32 = Inr (format_040x 32) \<and>
   getBucketIndex cid0 (format_040x 32) = Inr 5 \<and> valid_cid (format_040x 32)"
proof -
  have draw: "randint_range 5 32" by (simp add: randint_range_def)
  have gen: "generateTargetCID cid0 5 32 = Inr (format_040x 32)"
    by (simp add: generateTargetCID_def hex_examples)
  from generateTargetCID_in_bucket [OF hex_examples(1) draw] gen draw show ?thesis
    by simp
qed

theorem addNode_spec_witness:
  "addNode node0 ''ipA'' cidA = Inr (node0\<lparr>DHT := (DHT node0)[0 := [(cidA, ''ipA'')]]\<rparr>) \<and>
   addNode node0 ''ipX'' ''zz'' = Inl ValueError \<and>
   addNode node0 ''ipY'' ''10000000000000000000000000000000000000000'' = Inl IndexError"
proof -
  have my: "hex_val (CID node0) = Inr 0" by (simp add: node0_fields hex_examples)
  have len: "length (DHT node0) = 160" by (simp add: node0_fields)
  have big: "hex_val ''10000000000000000000000000000000000000000'' = Inr (2 ^ 160)"
    by (simp add: hex_val_def hex_digit_def)
  have zz: "hex_val ''zz'' = Inl ValueError"
    by (simp add: hex_val_def hex_digit_def)
  note spec = addNode_spec [OF my _ len]
  show ?thesis
    using spec [of "''ipA''" cidA] spec [of "''ipX''" "''zz''"]
      spec [of "''ipY''" "''10000000000000000000000000000000000000000''"]
    by (simp add: hex_examples big zz node0_fields)
qed

theorem addNode_self_breaks_dht_inv_witness:
  "\<exists>n'. addNode node0 ''ipSelf'' cid0 = Inr n' \<and> (cid0, ''ipSelf'') \<in> set (DHT n' ! 159) \<and>
        \<not> dht_inv (CID n') (DHT n')"
  using addNode_self_breaks_dht_inv [of node0 0 cid0 "''ipSelf''"]
  by (simp add: node0_fields hex_examples)

theorem getClosestCIDs_total_witness: "\<exists>res. getClosestCIDs nodeABC cidT 7 = Inr res"
  using getClosestCIDs_total [OF nodeABC_inv hex_examples(5)] .

theorem getClosestCIDs_error_witness: "getClosestCIDs nodeBad cidT 3 = Inl ValueError"
proof -
  have "DHT nodeBad = [[(''zz'', ''ipX'')]] @ replicate 159 []"
    by (simp add: nodeBad_def node0_def init_node_def)
  moreover have "xor_key cidT (''zz'', ''ipX'') = Inl ValueError"
    by (simp add: xor_key_def hex_val_def hex_digit_def)
  ultimately show ?thesis
    by (simp add: getClosestCIDs_error)
qed

theorem getBucketIndex_bounds_witness:
  "getBucketIndex cid0 cidC = Inr 2 \<and> getBucketIndex cid0 cid0 = Inr (-1)"
  using getBucketIndex_bounds [OF hex_examples(1) hex_examples(4)]
    getBucketIndex_bounds [OF hex_examples(1) hex_examples(1)]
  by (simp_all add: getBucketIndex_def hex_examples)

theorem addNode_adds_copy_witness:
  "\<exists>n1 n2. addNode node0 ''ipA'' cidA = Inr n1 \<and> addNode n1 ''ipA'' cidA = Inr n2 \<and>
     count_list (concat (DHT n2)) (cidA, ''ipA'') = 2"
proof -
  let ?n1 = "node0\<lparr>DHT := (DHT node0)[0 := [(cidA, ''ipA'')]]\<rparr>"
  have a1: "addNode node0 ''ipA'' cidA = Inr ?n1" by (rule addNode_node0_A)
  obtain n2 where a2: "addNode ?n1 ''ipA'' cidA = Inr n2"
    by (simp add: addNode_def getBucketIndex_def py_append_at_def node0_fields hex_examples)
  have "count_list (concat (DHT ?n1)) (cidA, ''ipA'') = 1"
    using addNode_adds_copy [OF a1] by (simp add: node0_fields)
  then have "count_list (concat (DHT n2)) (cidA, ''ipA'') = 2"
    using addNode_adds_copy [OF a2] by simp
  with a1 a2 show ?thesis by blast
qed

lemma seedsABC_run:
  "deep_loop empty_answers cidT 5 [(cidB, ''ipB''), (cidA, ''ipA''), (cidC, ''ipC'')] [] PInf =
   Some (Inr ([(cidB, ''ipB''), (cidA, ''ipA''), (cidC, ''ipC'')], [(cidB, ''ipB'')]))"
  by (simp add: deep_loop.simps [of empty_answers cidT 5 "[(cidB, ''ipB''), (cidA, ''ipA''), (cidC, ''ipC'')]" "[]" PInf]
      empty_answers_def xor_key_def hex_examples py_sort_by_key_def)

theorem deepNodeSearch_query_bound_witness:
  "deep_loop empty_answers cidT 5 [(cidB, ''ipB''), (cidA, ''ipA''), (cidC, ''ipC'')] [] PInf =
   Some (Inr ([(cidB, ''ipB''), (cidA, ''ipA''), (cidC, ''ipC'')], [(cidB, ''ipB'')])) \<and>
   length [(cidB, ''ipB'')] \<le> 160"
proof -
  have my: "hex_val (CID nodeABC) = Inr 0" by (simp add: nodeABC_fields hex_examples)
  from deepNodeSearch_query_bound [OF nodeABC_inv my _ hex_examples(5) _ nodeABC_seeds seedsABC_run]
  show ?thesis by (simp add: seedsABC_run)
qed

theorem deepNodeSearch_total_witness: "\<exists>res. deepNodeSearch empty_answers nodeABC cidT 5 = Some (Inr res)"
  by (rule deepNodeSearch_total [OF nodeABC_inv hex_examples(5)]) (simp_all add: empty_answers_def)

theorem deepNodeSearch_result_witness:
  "deepNodeSearch empty_answers nodeABC cidT 1 = Some (Inr [(cidB, ''ipB'')]) \<and>
   (\<exists>ds. map (xor_key cidT) [(cidB, ''ipB'')] = map Inr ds \<and> sorted ds)"
proof -
  have run: "deep_loop empty_answers cidT (Suc 0) [(cidB, ''ipB''), (cidA, ''ipA''), (cidC, ''ipC'')] [] PInf =
     Some (Inr ([(cidB, ''ipB'')], [(cidB, ''ipB'')]))"
    by (simp add: deep_loop.simps [of empty_answers cidT "Suc 0" "[(cidB, ''ipB''), (cidA, ''ipA''), (cidC, ''ipC'')]" "[]" PInf]
        empty_answers_def xor_key_def hex_examples py_sort_by_key_def)
  have r: "deepNodeSearch empty_answers nodeABC cidT 1 = Some (Inr [(cidB, ''ipB'')])"
    by (simp add: deepNodeSearch_def nodeABC_seeds run)
  from deepNodeSearch_result [OF r] r show ?thesis by blast
qed

text \<open>
  The scenario of the one-query defect: the target Z, the only seed Y at distance
  \<open>2^158\<close>, and Y answering with W at distance \<open>2^157\<close>. W is closer than Y and was
  never asked, yet the lookup stops after asking Y.
\<close>

lemma netYW_run:
  "deep_loop netYW cidZ 5 [(cidY, ''ipY'')] [] PInf =
   Some (Inr ([(cidW, ''ipW''), (cidY, ''ipY'')], [(cidY, ''ipY'')]))"
  by (simp add: deep_loop.simps [of netYW cidZ 5 "[(cidY, ''ipY'')]" "[]" PInf]
      netYW_def xor_key_def hex_examples py_sort_by_key_def)

theorem deep_loop_single_query_witness:
  "deep_loop netYW cidZ 5 [(cidY, ''ipY'')] [] PInf =
   Some (Inr ([(cidW, ''ipW''), (cidY, ''ipY'')], [(cidY, ''ipY'')])) \<and>
   length [(cidY, ''ipY'')] \<le> 1"
proof -
  have seeds: "\<forall>c\<in>set [(cidY, ''ipY'')]. \<exists>d. xor_key cidZ c = Inr d \<and> 159 \<le> d \<and> d < 2 ^ 160"
    by (simp add: xor_key_def hex_examples)
  have resp: "\<forall>ip x. netYW cidZ ip = Some (Inr x) \<longrightarrow> (\<forall>c\<in>set x. \<exists>d. xor_key cidZ c = Inr d \<and> 159 \<le> d)"
    by (simp add: netYW_def xor_key_def hex_examples)
  from deep_loop_single_query [OF netYW_run seeds resp] show ?thesis
    by (simp add: netYW_run)
qed

theorem deepNodeSearch_returns_witness: "deepNodeSearch empty_answers nodeABC cidT 5 \<noteq> None"
  by (rule deepNodeSearch_returns) (simp add: empty_answers_def)

theorem deepNodeSearch_hangs_witness:
  "getClosestCIDs nodeABC cidT 20 = Inr [(cidB, ''ipB''), (cidA, ''ipA''), (cidC, ''ipC'')] \<and>
   deepNodeSearch silent nodeABC cidT 5 = None"
proof -
  have "silent cidT (ip_of (cidB, ''ipB'')) = None" by (simp add: silent_def)
  from deepNodeSearch_hangs [where self = nodeABC and t = cidT and c = "(cidB, ''ipB'')"
      and cs = "[(cidA, ''ipA''), (cidC, ''ipC'')]" and ask = silent and amount = 5, OF nodeABC_seeds this]
    nodeABC_seeds
  show ?thesis by simp
qed

theorem receive_frame_response_window_witness:
  "receive_frame [(closestNodesResponse, PContacts (replicate 12 (cidA, ''10.0.0.2'')))] = Inl ValueError \<and>
   receive_frame [(closestNodesResponse, PContacts (replicate 10 (cidA, ''10.0.0.2'')))] =
     Inr [(closestNodesResponse, PContacts (replicate 10 (cidA, ''10.0.0.2'')))]"
proof -
  have c: "length cidA = 40" by (simp add: cidA_def)
  have p: "list_all json_plain cidA \<and> list_all json_plain ''10.0.0.2''"
    by (simp add: cidA_def json_plain_def)
  show ?thesis
    using receive_frame_response_window [of "replicate 12 (cidA, ''10.0.0.2'')"]
      receive_frame_response_window [of "replicate 10 (cidA, ''10.0.0.2'')"] c p
    by simp
qed

lemma node0_publicIP: "publicIP node0 = ''198.51.100.1''"
  by (simp add: node0_def init_node_def)

theorem receiveData_nodeInfoRequest_witness:
  "receiveData_step (\<lambda>ip. True) node0 [(nodeInfoRequest, PPair ''ipA'' cidA)] =
     (node0\<lparr>DHT := (DHT node0)[0 := [(cidA, ''ipA'')]]\<rparr>,
      [(''ipA'', [(nodeInfoResponse, PPair ''198.51.100.1'' cid0)])], None)"
  using receiveData_nodeInfoRequest [OF _ addNode_node0_A, of "[(nodeInfoRequest, PPair ''ipA'' cidA)]" "\<lambda>ip. True"]
  by (simp add: node0_publicIP node0_fields)

theorem receiveData_closestNodesRequest_witness:
  "receiveData_step (\<lambda>ip. True) nodeABC [(closestNodesRequest, PPair ''ipQ'' cidT)] =
     (nodeABC, [(''ipQ'', [(closestNodesResponse, PContacts [(cidB, ''ipB''), (cidA, ''ipA''), (cidC, ''ipC'')])])], None)"
  using receiveData_closestNodesRequest [of "[(closestNodesRequest, PPair ''ipQ'' cidT)]" "''ipQ''" cidT "\<lambda>ip. True" nodeABC]
    nodeABC_seeds
  by (simp add: nodeInfoRequest_def nodeInfoResponse_def closestNodesRequest_def)

theorem receiveData_response_slot_witness:
  "receiveData_step (\<lambda>ip. True) node0 [(closestNodesResponse, PContacts [(cidW, ''ipW'')])] =
     (node0\<lparr>pendingResponse := Some (PContacts [(cidW, ''ipW'')])\<rparr>, [], None)"
  by (rule receiveData_response_slot)
    (simp_all add: nodeInfoRequest_def nodeInfoResponse_def closestNodesRequest_def closestNodesResponse_def)

lemma frame_reqA:
  "receive_frame [(nodeInfoRequest, PPair ''ipA'' cidA)] = Inr [(nodeInfoRequest, PPair ''ipA'' cidA)]"
  by (simp add: receive_frame_def wire_text_def message_json_def json_str_def json_escape_char_def
      cidA_def nodeInfoRequest_def recv_window_def newline_indent_def)

theorem serve_preserves_dht_inv_witness:
  "serve (\<lambda>ip. True) node0 [[(nodeInfoRequest, PPair ''ipA'' cidA)]] =
     (node0\<lparr>DHT := (DHT node0)[0 := [(cidA, ''ipA'')]]\<rparr>,
      [(''ipA'', [(nodeInfoResponse, PPair ''198.51.100.1'' cid0)])], None, []) \<and>
   dht_inv cid0 (DHT (node0\<lparr>DHT := (DHT node0)[0 := [(cidA, ''ipA'')]]\<rparr>))"
proof -
  have run: "serve (\<lambda>ip. True) node0 [[(nodeInfoRequest, PPair ''ipA'' cidA)]] =
     (node0\<lparr>DHT := (DHT node0)[0 := [(cidA, ''ipA'')]]\<rparr>,
      [(''ipA'', [(nodeInfoResponse, PPair ''198.51.100.1'' cid0)])], None, [])"
    by (simp add: receive_one_def frame_reqA receiveData_step_def sendData_def addNode_node0_A node0_publicIP node0_fields)
  have ns: "\<forall>m\<in>set [[(nodeInfoRequest, PPair ''ipA'' cidA)]]. \<forall>k\<in>{nodeInfoRequest, nodeInfoResponse}. \<forall>ip cid.
           map_of m k = Some (PPair ip cid) \<longrightarrow> getBucketIndex (CID node0) cid \<noteq> Inr (-1)"
    by (simp add: nodeInfoRequest_def nodeInfoResponse_def getBucketIndex_def node0_fields hex_examples)
  from serve_preserves_dht_inv [OF node0_inv ns run] run show ?thesis
    by (simp add: node0_fields)
qed

lemma big_response_lost: "receive_one reach n big_response = (n, [], Some ValueError)"
proof -
  have "receive_frame big_response = Inl ValueError"
    unfolding big_response_def by (rule receive_frame_response_long) (simp_all add: cidA_def)
  then show ?thesis by (simp add: receive_one_def)
qed

theorem serve_stops_at_exception_witness:
  "serve (\<lambda>ip. True) node0 [big_response, [(nodeInfoRequest, PPair ''ipA'' cidA)]] =
     (node0, [], Some ValueError, [[(nodeInfoRequest, PPair ''ipA'' cidA)]]) \<and>
   serve (\<lambda>ip. True) node0 [big_response] = (node0, [], Some ValueError, [])"
proof -
  have run: "serve (\<lambda>ip. True) node0 ([] @ big_response # [[(nodeInfoRequest, PPair ''ipA'' cidA)]]) =
     (node0, [], Some ValueError, [[(nodeInfoRequest, PPair ''ipA'' cidA)]])"
    by (simp add: big_response_lost)
  from serve_stops_at_exception [OF run, of "[]"] run show ?thesis by simp
qed

theorem large_table_answer_lost_witness:
  "\<exists>m. receiveData_step (\<lambda>ip. True) node12 [(closestNodesRequest, PPair ''ipQ'' cidT)] = (node12, [(''ipQ'', m)], None) \<and>
       receive_one (\<lambda>ip. True) node0 m = (node0, [], Some ValueError)"
proof (rule large_table_answer_lost [OF node12_inv hex_examples(5)])
  show "12 \<le> length (concat (DHT node12))" by (simp add: node12_fields)
  show "\<forall>c\<in>set (concat (DHT node12)). 40 \<le> length (cid_of c) \<and> 7 \<le> length (ip_of c)"
    by (simp add: node12_fields contact12_def length_format_040x)
qed simp

theorem bootstrap_round_preserves_dht_inv_witness:
  "\<exists>s' out. bootstrap_round (\<lambda>ip. True) empty_answers (\<lambda>i. 2 ^ i) nodeA1 = Some (s', out, None) \<and>
     dht_inv (CID s') (DHT s') \<and> concat (DHT s') = [(cidA, ''ipA''), (cidA, ''ipA'')]"
proof -
  from nodeA1_round obtain s' out where
    run: "bootstrap_round (\<lambda>ip. True) empty_answers (\<lambda>i. 2 ^ i) nodeA1 = Some (s', out, None)"
    and t: "concat (DHT s') = replicate (1 + min 5 1) (cidA, ''ipA'')" by blast
  from bootstrap_round_preserves_dht_inv [OF nodeA1_inv run] have "dht_inv (CID s') (DHT s')" by simp
  with run t show ?thesis by (auto simp add: numeral_2_eq_2)
qed

theorem bootstrap_table_unbounded_witness:
  "\<exists>s' out. bootstrap_rounds (\<lambda>ip. True) empty_answers [\<lambda>i. 2 ^ i, \<lambda>i. 2 ^ i, \<lambda>i. 2 ^ i] nodeA1 =
     Some (s', out, None) \<and> set (concat (DHT s')) = {(cidA, ''ipA'')} \<and>
     1 + length [\<lambda>i. 2 ^ i :: nat, \<lambda>i. 2 ^ i, \<lambda>i. 2 ^ i] \<le> length (concat (DHT s'))"
  by (rule bootstrap_table_unbounded [OF nodeA1_inv])
    (simp_all add: nodeA1_fields hex_examples empty_answers_def)

theorem network_dht_inv_witness:
  "net_step\<^sup>*\<^sup>* (net_init [''198.51.100.1'' \<mapsto> joinX, ''198.51.100.2'' \<mapsto> joinY])
     (net_init [''198.51.100.1'' \<mapsto> joinX, ''198.51.100.2'' \<mapsto> joinY]) \<and>
   (\<exists>n. nodes (net_init [''198.51.100.1'' \<mapsto> joinX, ''198.51.100.2'' \<mapsto> joinY]) ''198.51.100.1'' = Some n \<and>
      dht_inv (CID n) (DHT n)) \<and>
   (\<exists>n. nodes (net_init [''198.51.100.1'' \<mapsto> joinX, ''198.51.100.2'' \<mapsto> joinY]) ''198.51.100.2'' = Some n \<and>
      dht_inv (CID n) (DHT n))"
proof -
  let ?ns = "[''198.51.100.1'' \<mapsto> joinX, ''198.51.100.2'' \<mapsto> joinY]"
  have run: "net_step\<^sup>*\<^sup>* (net_init ?ns) (net_init ?ns)" by (rule rtranclp.rtrancl_refl)
  have start: "\<forall>a n. ?ns a = Some n \<longrightarrow> dht_inv (CID n) (DHT n) \<and> publicIP n = a \<and>
             a \<notin> set (bootstrapIPs n) \<and> (\<exists>x. hex_val (CID n) = Inr x)"
    by (simp add: joinX_def joinY_def init_node_def dht_inv_nth hex_examples)
  have distinct: "\<forall>a b na nb. ?ns a = Some na \<longrightarrow> ?ns b = Some nb \<longrightarrow>
             hex_val (CID na) = hex_val (CID nb) \<longrightarrow> a = b"
    by (simp add: joinX_def joinY_def init_node_def hex_examples)
  have "\<forall>a n. nodes (net_init ?ns) a = Some n \<longrightarrow> dht_inv (CID n) (DHT n)"
    by (rule network_dht_inv [OF run start distinct])
  note inv = this [rule_format]
  have "dht_inv (CID joinX) (DHT joinX)"
    using inv [of "''198.51.100.1''" joinX] by (simp add: net_init_def)
  moreover have "dht_inv (CID joinY) (DHT joinY)"
    using inv [of "''198.51.100.2''" joinY] by (simp add: net_init_def)
  ultimately show ?thesis using run
    by (simp add: net_init_def)
qed

lemma plain_examples: "list_all json_plain cidA" "list_all json_plain ''ipA''"
  "list_all json_plain cid0" "list_all json_plain cidB" "list_all json_plain cidZ"
  "list_all json_plain ''198.51.100.1''" "list_all json_plain ''198.51.100.2''"
  "list_all json_plain ''198.51.100.3''"
  unfolding cidA_def cid0_def cidB_def cidZ_def by code_simp+

lemma length_cid_examples: "length cid0 = 40" "length cidA = 40" "length cidT = 40"
  "length cidB = 40" "length cidZ = 40"
  by (simp_all add: cid0_def cidA_def cidT_def cidB_def cidZ_def)

theorem net_ask_refines_witness:
  "net_reach netA1 ''198.51.100.1'' \<and>
   net_ask netA1 node0 cidT ''198.51.100.2'' = Some (getClosestCIDs nodeA1 cidT 20) \<and>
   getClosestCIDs nodeA1 cidT 20 = Inr [(cidA, ''ipA'')]"
proof -
  have peer: "nodes netA1 ''198.51.100.2'' = Some nodeA1" "''198.51.100.2'' \<in> alive netA1"
    and home: "net_reach netA1 (publicIP node0)"
    by (simp_all add: netA1_def net_init_def net_reach_def node0_def init_node_def)
  have "net_ask netA1 node0 cidT ''198.51.100.2'' = Some (getClosestCIDs nodeA1 cidT 20)"
    by (rule net_ask_refines [OF peer home nodeA1_inv hex_examples(5)])
      (simp_all add: node0_def init_node_def nodeA1_fields length_cid_examples plain_examples,
       simp_all add: json_plain_def)
  moreover have "getClosestCIDs nodeA1 cidT 20 = Inr [(cidA, ''ipA'')]"
    by (simp add: getClosestCIDs_def nodeA1_fields py_sort_by_key_def xor_key_def hex_examples)
  ultimately show ?thesis using home by (simp add: node0_def init_node_def)
qed

theorem deepNodeSearch_network_hangs_witness:
  "getClosestCIDs nodeA1 cidT 20 = Inr [(cidA, ''ipA'')] \<and> deepNodeSearch (net_ask net12 nodeA1) nodeA1 cidT 5 = None"
proof -
  have seeds: "getClosestCIDs nodeA1 cidT 20 = Inr [(cidA, ''ipA'')]"
    by (simp add: getClosestCIDs_def nodeA1_fields py_sort_by_key_def xor_key_def hex_examples)
  have peer: "nodes net12 (ip_of (cidA, ''ipA'')) = Some node12" "ip_of (cidA, ''ipA'') \<in> alive net12"
    by (simp_all add: net12_def net_init_def)
  have shape: "\<forall>c\<in>set (concat (DHT node12)). 40 \<le> length (cid_of c) \<and> 7 \<le> length (ip_of c)"
    by (simp add: node12_fields contact12_def length_format_040x)
  have "deepNodeSearch (net_ask net12 nodeA1) nodeA1 cidT 5 = None"
    by (rule deepNodeSearch_network_hangs [OF seeds peer node12_inv hex_examples(5) _ _ _ shape])
      (simp_all add: cidT_def nodeA1_def node0_def init_node_def node12_fields)
  with seeds show ?thesis by blast
qed

theorem two_node_join_witness:
  "\<exists>N i. net_step\<^sup>*\<^sup>* (net_init [''198.51.100.1'' \<mapsto> joinX, ''198.51.100.2'' \<mapsto> joinY]) N \<and> i < 160 \<and>
     inflight N = [] \<and>
     nodes N ''198.51.100.1'' = Some (joinX\<lparr>DHT := (replicate 160 [])[i := [(cidA, ''198.51.100.2'')]]\<rparr>) \<and>
     nodes N ''198.51.100.2'' = Some (joinY\<lparr>DHT := (replicate 160 [])[i := [(cid0, ''198.51.100.1'')]]\<rparr>)"
proof -
  have "CID joinX = cid0" "CID joinY = cidA" by (simp_all add: joinX_def joinY_def init_node_def)
  moreover have "\<exists>N i. net_step\<^sup>*\<^sup>* (net_init [''198.51.100.1'' \<mapsto> joinX, ''198.51.100.2'' \<mapsto> joinY]) N \<and>
     i < 160 \<and> inflight N = [] \<and>
     nodes N ''198.51.100.1'' = Some (joinX\<lparr>DHT := (replicate 160 [])[i := [(CID joinY, ''198.51.100.2'')]]\<rparr>) \<and>
     nodes N ''198.51.100.2'' = Some (joinY\<lparr>DHT := (replicate 160 [])[i := [(CID joinX, ''198.51.100.1'')]]\<rparr>)"
    by (rule two_node_join [where x = 0 and y = 1])
      (simp_all add: joinX_def joinY_def init_node_def hex_examples, simp_all add: cid0_def cidA_def)
  ultimately show ?thesis by simp
qed

theorem self_bootstrap_breaks_table_witness:
  "\<exists>N X'. net_step\<^sup>*\<^sup>* (net_init [''198.51.100.1'' \<mapsto> init_node ''198.51.100.1'' ''10.0.0.1'' 60000 cid0
                                 [''198.51.100.1'', ''198.51.100.1'']]) N \<and>
     nodes N ''198.51.100.1'' = Some X' \<and> \<not> dht_inv (CID X') (DHT X')"
  by (rule self_bootstrap_breaks_table [OF hex_examples(1)]) (simp_all add: cid0_def)

theorem network_message_shapes_witness:
  "net_step\<^sup>*\<^sup>* (net_init [''198.51.100.1'' \<mapsto> joinX, ''198.51.100.2'' \<mapsto> joinY])
     ((net_init [''198.51.100.1'' \<mapsto> joinX, ''198.51.100.2'' \<mapsto> joinY])
        \<lparr>inflight := [(''198.51.100.2'', [(nodeInfoRequest, PPair ''198.51.100.1'' cid0)])]\<rparr>) \<and>
   msg_shape [(nodeInfoRequest, PPair ''198.51.100.1'' cid0)]"
proof -
  let ?N0 = "net_init [''198.51.100.1'' \<mapsto> joinX, ''198.51.100.2'' \<mapsto> joinY]"
  let ?N1 = "?N0\<lparr>inflight := [(''198.51.100.2'', [(nodeInfoRequest, PPair ''198.51.100.1'' cid0)])]\<rparr>"
  have "net_step ?N0 (?N0\<lparr>inflight := inflight ?N0 @
           map (\<lambda>ip. (ip, [(nodeInfoRequest, PPair (publicIP joinX) (CID joinX))])) (bootstrapIPs joinX)\<rparr>)"
    by (rule net_step_announce_all [of _ "''198.51.100.1''"])
      (simp_all add: net_init_def net_reach_def joinX_def init_node_def)
  then have "net_step ?N0 ?N1"
    by (simp add: net_init_def joinX_def init_node_def)
  then have run: "net_step\<^sup>*\<^sup>* ?N0 ?N1" by (rule r_into_rtranclp)
  from network_message_shapes [OF run] run show ?thesis by simp
qed

theorem bootstrap_unreachable_peer_witness:
  "bootstrapIPs joinX = [] @ ''198.51.100.2'' # [] \<and>
   bootstrap_rounds (\<lambda>ip. ip \<noteq> ''198.51.100.2'') empty_answers [\<lambda>i. 2 ^ i, \<lambda>i. 2 ^ i] joinX =
     Some (joinX, [], Some OSError)"
proof -
  have my: "hex_val (CID joinX) = Inr 0" and ips: "bootstrapIPs joinX = [] @ ''198.51.100.2'' # []"
    by (simp_all add: joinX_def init_node_def hex_examples)
  from bootstrap_unreachable_peer [OF my ips, of "\<lambda>ip. ip \<noteq> ''198.51.100.2''" empty_answers "\<lambda>i. 2 ^ i" "[\<lambda>i. 2 ^ i]"]
  show ?thesis using ips by simp
qed

theorem main_node_bootstrap_witness:
  "main_node (Inr ''198.51.100.9'') (\<lambda>_. Some ''10.0.0.9'') cid0 =
     Inr (init_node ''198.51.100.9'' ''10.0.0.9'' 60000 cid0 [''79.230.223.138'']) \<and>
   bootstrap_rounds (\<lambda>ip. False) empty_answers [\<lambda>i. 2 ^ i]
     (init_node ''198.51.100.9'' ''10.0.0.9'' 60000 cid0 [''79.230.223.138'']) =
   Some (init_node ''198.51.100.9'' ''10.0.0.9'' 60000 cid0 [''79.230.223.138''], [], Some OSError)"
proof -
  have node: "main_node (Inr ''198.51.100.9'') (\<lambda>_. Some ''10.0.0.9'') cid0 =
      Inr (init_node ''198.51.100.9'' ''10.0.0.9'' 60000 cid0 [''79.230.223.138''])"
    by (simp add: main_node_def Node_new_def get_local_ip_def)
  from main_node_bootstrap [OF node hex_examples(1), of "\<lambda>ip. False" empty_answers "\<lambda>i. 2 ^ i" "[]"] node
  show ?thesis by simp
qed

theorem deep_loop_asks_distinct_witness:
  "distinct ([] :: contact list) \<and>
   (\<exists>ns. [(cidB, ''ipB'')] = [] @ ns \<and> distinct [(cidB, ''ipB'')])"
  using deep_loop_asks_distinct [OF seedsABC_run] by simp

theorem receiveData_nodeInfoResponse_witness:
  "map_of [(nodeInfoResponse, PPair ''ipA'' cidA)] nodeInfoRequest = None \<and>
   receiveData_step (\<lambda>ip. False) node0 [(nodeInfoResponse, PPair ''ipA'' cidA)] =
     (node0\<lparr>DHT := (DHT node0)[0 := [(cidA, ''ipA'')]]\<rparr>, [], None)"
  using receiveData_nodeInfoResponse [of "[(nodeInfoResponse, PPair ''ipA'' cidA)]" "''ipA''" cidA
      "\<lambda>ip. False" node0]
  by (simp add: addNode_node0_A)

theorem bucket_targets_in_buckets_witness:
  "randint_range 7 (2 ^ 7) \<and>
   (\<exists>targets. bucket_targets cid0 (\<lambda>i. 2 ^ i) = Inr targets \<and> length targets = 160 \<and>
      getBucketIndex cid0 (targets ! 7) = Inr 7 \<and> valid_cid (targets ! 7))"
proof -
  have "(2::nat) ^ i \<le> 2 * 2 ^ i - Suc 0" for i :: nat
    using one_le_power [of "2::nat" i] by linarith
  then have draws: "\<forall>i<160. randint_range i (2 ^ i)"
    by (simp add: randint_range_def)
  have "(0::nat) < 2 ^ 160" by simp
  from bucket_targets_in_buckets [OF hex_examples(1) this draws]
  obtain targets where "bucket_targets cid0 (\<lambda>i. 2 ^ i) = Inr targets" "length targets = 160"
    and all: "\<forall>i<160. getBucketIndex cid0 (targets ! i) = Inr (int i) \<and> valid_cid (targets ! i)"
    by blast
  moreover have "getBucketIndex cid0 (targets ! 7) = Inr 7 \<and> valid_cid (targets ! 7)"
    using all [rule_format, of 7] by simp
  moreover have "randint_range 7 (2 ^ 7)" using draws [rule_format, of 7] by simp
  ultimately show ?thesis by auto
qed

theorem three_node_lookup_witness:
  "deep_loop (net_ask net3 nodeX3) cidZ 1 [(cidY, ''198.51.100.2'')] [] PInf =
     Some (Inr ([(cidZ, ''198.51.100.3'')], [(cidY, ''198.51.100.2''), (cidZ, ''198.51.100.3'')])) \<and>
   deepNodeSearch (net_ask net3 nodeX3) nodeX3 cidZ 1 = Some (Inr [(cidZ, ''198.51.100.3'')])"
proof -
  have "deep_loop (net_ask net3 nodeX3) cidZ 1 [(cidY, ''198.51.100.2'')] [] PInf =
           Some (Inr ([(cidZ, ''198.51.100.3'')], (cidY, ''198.51.100.2'') #
             (if 2 \<le> (2 ^ 159 :: nat) XOR (2 ^ 159 + 2 ^ 158) then [(cidZ, ''198.51.100.3'')] else []))) \<and>
         deepNodeSearch (net_ask net3 nodeX3) nodeX3 cidZ 1 = Some (Inr [(cidZ, ''198.51.100.3'')])"
    by (rule three_node_lookup [OF _ _ _ _ _ _ _ _ _ hex_examples(6) hex_examples(8)])
      (simp_all add: scenario_tables net3_def net_init_def net_reach_def length_cid_examples plain_examples,
       simp_all add: json_plain_def scenario_tables nodeZ3_def init_node_def)
  then show ?thesis by simp
qed

theorem lookup_returns_self_witness:
  "CID nodeX2 = cid0 \<and>
   deepNodeSearch (net_ask netXY nodeX2) nodeX2 (CID nodeX2) 5 =
     Some (Inr [(cid0, ''198.51.100.1''), (cidB, ''198.51.100.2''), (cidB, ''198.51.100.2'')])"
proof -
  have cx: "CID nodeX2 = cid0" by (simp add: nodeX2_def joinX_def init_node_def)
  have "deepNodeSearch (net_ask netXY nodeX2) nodeX2 (CID nodeX2) 5 =
          Some (Inr ((cid0, ''198.51.100.1'') # (cidB, ''198.51.100.2'') #
            (if 2 \<le> (0 :: nat) XOR 2 then [(cidB, ''198.51.100.2'')] else [])))"
    by (rule lookup_returns_self [OF _ _ _ cx _ _ _ _ hex_examples(1) hex_examples(3)])
      (simp_all add: scenario_tables netXY_def net_init_def length_cid_examples plain_examples,
       simp_all add: json_plain_def scenario_tables)
  with cx show ?thesis by simp
qed

end
